(* ===== verification/Prelude.thy ===== *)
theory Prelude imports Main begin

text \<open>
  What every component of the development shares.

  \<^item> Go errors (\<open>goerr\<close>): a Go \<open>error\<close> is its text together with the one thing the code asks
    of an error besides its text, whether \<open>apierrors.IsNotFound\<close> finds a NotFound status in its
    chain. \<open>errorf\<close> is \<open>fmt.Errorf\<close> without \<open>%w\<close>, \<open>wrapf\<close> is \<open>fmt.Errorf("...%w", err)\<close>
    (the code always puts \<open>%w\<close> last), which keeps the chain.
  \<^item> Effects (\<open>io\<close>): a Go function that talks to the outside is a function of the state of the
    outside world; its outcome is a value, a panic, or a poll loop that did not end within the
    model's bound. External operations never panic and are lifted by their type.
  \<^item> Strings are byte strings (\<open>char list\<close>), as in Go. The non-ASCII characters of the Portuguese
    messages are written as their UTF-8 bytes.
  \<^item> The functions of \<open>fmt\<close>, \<open>strings\<close> and \<open>strconv\<close> the code uses.
\<close>

named_theorems keeps_intros
named_theorems total_intros

section \<open>Errors and effects\<close>

datatype goerr = GoErr (err_text: string) (err_notfound: bool)

definition errorf :: "string \<Rightarrow> goerr" where
  "errorf msg = GoErr msg False"

definition wrapf :: "string \<Rightarrow> goerr \<Rightarrow> goerr" where
  "wrapf msg e = GoErr (msg @ err_text e) (err_notfound e)"

lemma err_text_errorf [simp]: "err_text (errorf m) = m"
  and err_notfound_errorf [simp]: "err_notfound (errorf m) = False"
  by (simp_all add: errorf_def)

lemma err_text_wrapf [simp]: "err_text (wrapf m e) = m @ err_text e"
  and err_notfound_wrapf [simp]: "err_notfound (wrapf m e) = err_notfound e"
  by (simp_all add: wrapf_def)

datatype 'a outcome = Ret 'a | Panic string | Hang

type_synonym ('s, 'a) io = "'s \<Rightarrow> 'a outcome \<times> 's"

definition io_ret :: "'a \<Rightarrow> ('s, 'a) io" where
  "io_ret x = (\<lambda>s. (Ret x, s))"

definition io_panic :: "string \<Rightarrow> ('s, 'a) io" where
  "io_panic msg = (\<lambda>s. (Panic msg, s))"

definition io_hang :: "('s, 'a) io" where
  "io_hang = (\<lambda>s. (Hang, s))"

definition io_bind :: "('s, 'a) io \<Rightarrow> ('a \<Rightarrow> ('s, 'b) io) \<Rightarrow> ('s, 'b) io" where
  "io_bind m f = (\<lambda>s. case m s of
      (Ret x, s') \<Rightarrow> f x s'
    | (Panic msg, s') \<Rightarrow> (Panic msg, s')
    | (Hang, s') \<Rightarrow> (Hang, s'))"

text \<open>A call of an external operation: it returns and changes the world.\<close>

definition io_call :: "('s \<Rightarrow> 'a \<times> 's) \<Rightarrow> ('s, 'a) io" where
  "io_call f = (\<lambda>s. case f s of (x, s') \<Rightarrow> (Ret x, s'))"

lemma io_bind_ret [simp]: "io_bind (io_ret x) f = f x"
  by (simp add: io_bind_def io_ret_def)

lemma io_bind_panic [simp]: "io_bind (io_panic m) f = io_panic m"
  by (simp add: io_bind_def io_panic_def)

lemma io_bind_hang [simp]: "io_bind io_hang f = io_hang"
  by (simp add: io_bind_def io_hang_def)

lemma io_ret_apply: "io_ret x s = (Ret x, s)"
  and io_panic_apply: "io_panic m s = (Panic m, s)"
  and io_hang_apply: "io_hang s = (Hang, s)"
  by (simp_all add: io_ret_def io_panic_def io_hang_def)

lemma io_pure_eq [simp]:
  "io_ret x s = (r, t) \<longleftrightarrow> r = Ret x \<and> t = s"
  "io_panic m s = (r, t) \<longleftrightarrow> r = Panic m \<and> t = s"
  "io_hang s = (r, t) \<longleftrightarrow> r = Hang \<and> t = s"
  by (auto simp: io_ret_def io_panic_def io_hang_def)

lemma io_pure_proj [simp]:
  "fst (io_ret x s) = Ret x" "snd (io_ret x s) = s"
  "fst (io_panic m s) = Panic m" "snd (io_panic m s) = s"
  "fst (io_hang s) = Hang" "snd (io_hang s) = s"
  by (simp_all add: io_ret_def io_panic_def io_hang_def)

lemma io_bind_assoc: "io_bind (io_bind m f) g = io_bind m (\<lambda>x. io_bind (f x) g)"
  by (rule ext) (simp add: io_bind_def split: prod.splits outcome.splits)

lemma io_bind_Ret: "m s = (Ret x, s') \<Longrightarrow> io_bind m f s = f x s'"
  by (simp add: io_bind_def)

lemma io_bind_eq_Ret:
  "io_bind m f s = (Ret y, t) \<longleftrightarrow> (\<exists>x s'. m s = (Ret x, s') \<and> f x s' = (Ret y, t))"
  by (simp add: io_bind_def split: prod.splits outcome.splits)

lemma io_bind_RetE:
  assumes "io_bind m f s = (Ret y, t)"
  obtains x s' where "m s = (Ret x, s')" and "f x s' = (Ret y, t)"
  using assms by (auto simp: io_bind_eq_Ret)

lemma io_bind_cong:
  assumes "\<And>s. m s = m' s" and "\<And>x s. f x s = f' x s"
  shows "io_bind m f = io_bind m' f'"
proof -
  have "m = m'" using assms(1) by (rule ext)
  moreover have "f = f'" using assms(2) by (intro ext)
  ultimately show ?thesis by simp
qed

text \<open>
  \<open>v, err := m; if err != nil { h err }; k v\<close>. A Go call that returns a value and an error, of which
  the code reads only one, returns a sum. \<open>io_wrap\<close> is the common case of returning the error with
  more context.
\<close>

definition io_try ::
  "('s, goerr + 'a) io \<Rightarrow> (goerr \<Rightarrow> ('s, 'b) io) \<Rightarrow> ('a \<Rightarrow> ('s, 'b) io) \<Rightarrow> ('s, 'b) io" where
  "io_try m h k = io_bind m (\<lambda>r. case r of Inl e \<Rightarrow> h e | Inr v \<Rightarrow> k v)"

definition io_wrap ::
  "('s, goerr + 'a) io \<Rightarrow> string \<Rightarrow> ('a \<Rightarrow> ('s, goerr + 'b) io) \<Rightarrow> ('s, goerr + 'b) io" where
  "io_wrap m msg k = io_try m (\<lambda>e. io_ret (Inl (wrapf msg e))) k"

text \<open>A call that returns only an error: \<open>if err := m; err != nil { return wrapped }; k\<close>.\<close>

definition io_check ::
  "('s, goerr option) io \<Rightarrow> string \<Rightarrow> ('s, goerr + 'b) io \<Rightarrow> ('s, goerr + 'b) io" where
  "io_check m msg k = io_bind m (\<lambda>e. case e of Some err \<Rightarrow> io_ret (Inl (wrapf msg err)) | None \<Rightarrow> k)"

lemma io_try_eq_Ret:
  "io_try m h k s = (Ret y, t) \<longleftrightarrow>
     (\<exists>e s'. m s = (Ret (Inl e), s') \<and> h e s' = (Ret y, t))
   \<or> (\<exists>v s'. m s = (Ret (Inr v), s') \<and> k v s' = (Ret y, t))"
  unfolding io_try_def io_bind_eq_Ret
  by (metis (no_types, lifting) obj_sumE old.sum.simps(5,6))

lemma io_wrap_Inr:
  "io_wrap m msg k s = (Ret (Inr y), t) \<longleftrightarrow>
     (\<exists>v s'. m s = (Ret (Inr v), s') \<and> k v s' = (Ret (Inr y), t))"
  by (auto simp: io_wrap_def io_try_eq_Ret)

lemma io_check_Inr:
  "io_check m msg k s = (Ret (Inr y), t) \<longleftrightarrow>
     (\<exists>s'. m s = (Ret None, s') \<and> k s' = (Ret (Inr y), t))"
  by (auto simp: io_check_def io_bind_eq_Ret split: option.splits)

subsection \<open>What an effect keeps, and that it returns\<close>

text \<open>\<open>keeps I m\<close>: running \<open>m\<close> from a world where \<open>I\<close> holds ends in one where \<open>I\<close> holds.\<close>

definition keeps :: "('s \<Rightarrow> bool) \<Rightarrow> ('s, 'a) io \<Rightarrow> bool" where
  "keeps I m \<longleftrightarrow> (\<forall>s. I s \<longrightarrow> I (snd (m s)))"

lemma keepsD: "keeps I m \<Longrightarrow> I s \<Longrightarrow> I (snd (m s))"
  by (simp add: keeps_def)

lemma keeps_pure [keeps_intros, simp]:
  "keeps I (io_ret x)" "keeps I (io_panic msg)" "keeps I io_hang"
  by (simp_all add: keeps_def)

lemma keeps_bind [keeps_intros]:
  assumes m: "keeps I m" and f: "\<And>x. keeps I (f x)"
  shows "keeps I (io_bind m f)"
proof -
  have "I (snd (io_bind m f s))" if s: "I s" for s
  proof (cases "m s")
    case (Pair r s')
    with keepsD [OF m s] have "I s'" by simp
    with Pair keepsD [OF f] show ?thesis
      by (cases r) (simp_all add: io_bind_def)
  qed
  then show ?thesis by (simp add: keeps_def)
qed

lemma keeps_if [keeps_intros]: "keeps I m \<Longrightarrow> keeps I n \<Longrightarrow> keeps I (if b then m else n)"
  by simp

lemma keeps_case_sum [keeps_intros]:
  "(\<And>e. keeps I (f e)) \<Longrightarrow> (\<And>v. keeps I (g v)) \<Longrightarrow> keeps I (case x of Inl e \<Rightarrow> f e | Inr v \<Rightarrow> g v)"
  by (cases x) simp_all

lemma keeps_case_option [keeps_intros]:
  "keeps I f \<Longrightarrow> (\<And>v. keeps I (g v)) \<Longrightarrow> keeps I (case x of None \<Rightarrow> f | Some v \<Rightarrow> g v)"
  by (cases x) simp_all

lemma keeps_case_prod [keeps_intros]:
  "(\<And>a b. keeps I (f a b)) \<Longrightarrow> keeps I (case p of (a, b) \<Rightarrow> f a b)"
  by (cases p) simp

lemma keeps_try [keeps_intros]:
  "keeps I m \<Longrightarrow> (\<And>e. keeps I (h e)) \<Longrightarrow> (\<And>v. keeps I (k v)) \<Longrightarrow> keeps I (io_try m h k)"
  unfolding io_try_def by (intro keeps_bind keeps_case_sum)

lemma keeps_wrap [keeps_intros]:
  "keeps I m \<Longrightarrow> (\<And>v. keeps I (k v)) \<Longrightarrow> keeps I (io_wrap m msg k)"
  unfolding io_wrap_def by (intro keeps_try keeps_pure)

lemma keeps_check [keeps_intros]:
  "keeps I m \<Longrightarrow> keeps I k \<Longrightarrow> keeps I (io_check m msg k)"
  unfolding io_check_def by (intro keeps_bind keeps_case_option keeps_pure)

text \<open>The same from one world, where what ran first may say something of its result.\<close>

lemma try_keeps_at:
  assumes "keeps I m" and "\<And>e. keeps I (h e)" and s: "I s"
    and "\<And>v s'. m s = (Ret (Inr v), s') \<Longrightarrow> I s' \<Longrightarrow> I (snd (k v s'))"
  shows "I (snd (io_try m h k s))"
proof -
  obtain r s' where r: "m s = (r, s')" by (cases "m s")
  with keepsD [OF assms(1) s] have s': "I s'" by simp
  show ?thesis
  proof (cases r)
    case (Ret x)
    with r s' keepsD [OF assms(2) s'] assms(4) show ?thesis
      by (cases x) (auto simp: io_try_def io_bind_def)
  qed (simp_all add: r s' io_try_def io_bind_def)
qed

lemma wrap_keeps_at:
  "\<lbrakk>keeps I m; I s; \<And>v s'. m s = (Ret (Inr v), s') \<Longrightarrow> I s' \<Longrightarrow> I (snd (k v s'))\<rbrakk> \<Longrightarrow> I (snd (io_wrap m msg k s))"
  unfolding io_wrap_def by (rule try_keeps_at) auto

lemma keeps_try_from:
  "\<lbrakk>keeps I m; \<And>e. keeps I (h e); \<And>s v s'. I s \<Longrightarrow> m s = (Ret (Inr v), s') \<Longrightarrow> I s' \<Longrightarrow> I (snd (k v s'))\<rbrakk>
   \<Longrightarrow> keeps I (io_try m h k)"
  using try_keeps_at [of I m h _ k] by (simp add: keeps_def)

lemma keeps_call: "(\<And>s. I s \<Longrightarrow> I (snd (f s))) \<Longrightarrow> keeps I (io_call f)"
  by (simp add: keeps_def io_call_def split: prod.splits) (metis snd_conv)

text \<open>\<open>returns m\<close>: the effect ends with a value from every world: no panic, no endless poll.\<close>

definition returns :: "('s, 'a) io \<Rightarrow> bool" where
  "returns m \<longleftrightarrow> (\<forall>s. \<exists>x s'. m s = (Ret x, s'))"

lemma returnsE:
  assumes "returns m"
  obtains x s' where "m s = (Ret x, s')"
  using assms unfolding returns_def by blast

lemma returns_pure [total_intros, simp]: "returns (io_ret x)"
  by (simp add: returns_def)

lemma returns_call [total_intros, simp]: "returns (io_call f)"
  by (simp add: returns_def io_call_def split: prod.splits)

lemma returns_bind [total_intros]:
  "returns m \<Longrightarrow> (\<And>x. returns (f x)) \<Longrightarrow> returns (io_bind m f)"
  by (fastforce simp: returns_def io_bind_eq_Ret)

lemma returns_if [total_intros]: "returns m \<Longrightarrow> returns n \<Longrightarrow> returns (if b then m else n)"
  by simp

lemma returns_case_sum [total_intros]:
  "(\<And>e. returns (f e)) \<Longrightarrow> (\<And>v. returns (g v)) \<Longrightarrow> returns (case x of Inl e \<Rightarrow> f e | Inr v \<Rightarrow> g v)"
  by (cases x) simp_all

lemma returns_case_option [total_intros]:
  "returns f \<Longrightarrow> (\<And>v. returns (g v)) \<Longrightarrow> returns (case x of None \<Rightarrow> f | Some v \<Rightarrow> g v)"
  by (cases x) simp_all

lemma returns_case_prod [total_intros]:
  "(\<And>a b. returns (f a b)) \<Longrightarrow> returns (case p of (a, b) \<Rightarrow> f a b)"
  by (cases p) simp

lemma returns_try [total_intros]:
  "returns m \<Longrightarrow> (\<And>e. returns (h e)) \<Longrightarrow> (\<And>v. returns (k v)) \<Longrightarrow> returns (io_try m h k)"
  unfolding io_try_def by (intro returns_bind returns_case_sum)

lemma returns_wrap [total_intros]:
  "returns m \<Longrightarrow> (\<And>v. returns (k v)) \<Longrightarrow> returns (io_wrap m msg k)"
  unfolding io_wrap_def by (intro returns_try returns_pure)

lemma returns_check [total_intros]: "returns m \<Longrightarrow> returns k \<Longrightarrow> returns (io_check m msg k)"
  unfolding io_check_def by (intro returns_bind returns_case_option returns_pure)

section \<open>Text\<close>

text \<open>The UTF-8 bytes of the non-ASCII characters the code's messages use.\<close>

definition a_acute :: string where "a_acute = [CHR 0xC3, CHR 0xA1]"
definition a_tilde :: string where "a_tilde = [CHR 0xC3, CHR 0xA3]"
definition a_circ :: string where "a_circ = [CHR 0xC3, CHR 0xA2]"
definition a_grave :: string where "a_grave = [CHR 0xC3, CHR 0xA0]"
definition c_cedil :: string where "c_cedil = [CHR 0xC3, CHR 0xA7]"
definition e_acute :: string where "e_acute = [CHR 0xC3, CHR 0xA9]"
definition e_circ :: string where "e_circ = [CHR 0xC3, CHR 0xAA]"
definition i_acute :: string where "i_acute = [CHR 0xC3, CHR 0xAD]"
definition o_acute :: string where "o_acute = [CHR 0xC3, CHR 0xB3]"
definition o_circ :: string where "o_circ = [CHR 0xC3, CHR 0xB4]"
definition o_tilde :: string where "o_tilde = [CHR 0xC3, CHR 0xB5]"
definition u_acute :: string where "u_acute = [CHR 0xC3, CHR 0xBA]"
definition em_dash :: string where "em_dash = [CHR 0xE2, CHR 0x80, CHR 0x94]"

lemmas utf8_defs = a_acute_def a_tilde_def a_circ_def a_grave_def c_cedil_def e_acute_def
  o_circ_def e_circ_def i_acute_def o_acute_def o_tilde_def u_acute_def em_dash_def

definition newline :: string where "newline = [CHR 0x0A]"

subsection \<open>fmt and strconv\<close>

definition digit_char :: "nat \<Rightarrow> char" where
  "digit_char n = char_of (48 + n)"

fun dec_nat :: "nat \<Rightarrow> string" where
  "dec_nat n = (if n < 10 then [digit_char n] else dec_nat (n div 10) @ [digit_char (n mod 10)])"

declare dec_nat.simps [simp del]

text \<open>\<open>%d\<close>.\<close>

definition fmt_d :: "int \<Rightarrow> string" where
  "fmt_d i = (if i < 0 then ''-'' @ dec_nat (nat (- i)) else dec_nat (nat i))"

text \<open>\<open>%v\<close> of a bool.\<close>

definition fmt_bool :: "bool \<Rightarrow> string" where
  "fmt_bool b = (if b then ''true'' else ''false'')"

definition hex_char :: "nat \<Rightarrow> char" where
  "hex_char n = (if n < 10 then char_of (48 + n) else char_of (87 + n))"

text \<open>\<open>hex.EncodeToString\<close>: two digits per byte, so different bytes have different texts.\<close>

definition hex_byte :: "char \<Rightarrow> string" where
  "hex_byte b = [hex_char (of_char b div 16), hex_char (of_char b mod 16)]"

definition hex_encode :: "string \<Rightarrow> string" where
  "hex_encode bytes = concat (map hex_byte bytes)"

lemma hex_char_inj: "m < 16 \<Longrightarrow> n < 16 \<Longrightarrow> hex_char m = hex_char n \<Longrightarrow> m = n"
proof -
  assume m: "m < 16" and n: "n < 16" and eq: "hex_char m = hex_char n"
  have "(of_char (hex_char k) :: nat) = (if k < 10 then 48 + k else 87 + k)" if "k < 16" for k
    using that by (simp add: hex_char_def)
  with m n eq have "(if m < 10 then 48 + m else 87 + m) = (if n < 10 then 48 + n else 87 + n)" by metis
  then show "m = n" using m n by (auto split: if_splits)
qed

lemma hex_byte_inj: "hex_byte a = hex_byte b \<Longrightarrow> a = b"
proof -
  assume eq: "hex_byte a = hex_byte b"
  let ?n = "\<lambda>c :: char. of_char c :: nat"
  have lt: "?n c div 16 < 16" "?n c mod 16 < 16" for c
    using nat_of_char_less_256 [of c] by (simp_all add: less_mult_imp_div_less)
  have "?n a div 16 = ?n b div 16" "?n a mod 16 = ?n b mod 16"
    using eq lt hex_char_inj by (simp_all add: hex_byte_def)
  then have "?n a = ?n b" by (metis div_mult_mod_eq)
  then show "a = b" by simp
qed

lemma hex_encode_inj: "hex_encode xs = hex_encode ys \<Longrightarrow> xs = ys"
proof (induction xs arbitrary: ys)
  case Nil
  then show ?case by (cases ys) (simp_all add: hex_encode_def hex_byte_def)
next
  case (Cons x xs)
  then obtain y ys' where ys: "ys = y # ys'" by (cases ys) (simp_all add: hex_encode_def hex_byte_def)
  with Cons.prems have "hex_byte x = hex_byte y \<and> hex_encode xs = hex_encode ys'" by (simp add: hex_encode_def hex_byte_def)
  with Cons.IH ys show ?case by (blast dest: hex_byte_inj)
qed

text \<open>
  \<open>%q\<close> (\<open>strconv.Quote\<close>), for strings whose non-ASCII characters are printable, as they are in
  the names this code quotes: those bytes are copied.
\<close>

definition quote_char :: "char \<Rightarrow> string" where
  "quote_char c =
    (let n = (of_char c :: nat) in
     if n = 34 then [CHR 0x5C, CHR 0x22]
     else if n = 92 then [CHR 0x5C, CHR 0x5C]
     else if n = 7 then [CHR 0x5C, CHR ''a'']
     else if n = 8 then [CHR 0x5C, CHR ''b'']
     else if n = 9 then [CHR 0x5C, CHR ''t'']
     else if n = 10 then [CHR 0x5C, CHR ''n'']
     else if n = 11 then [CHR 0x5C, CHR ''v'']
     else if n = 12 then [CHR 0x5C, CHR ''f'']
     else if n = 13 then [CHR 0x5C, CHR ''r'']
     else if n < 32 \<or> n = 127 then [CHR 0x5C, CHR ''x'', hex_char (n div 16), hex_char (n mod 16)]
     else [c])"

definition fmt_q :: "string \<Rightarrow> string" where
  "fmt_q s = [CHR 0x22] @ concat (map quote_char s) @ [CHR 0x22]"

subsection \<open>strings\<close>

fun has_prefix :: "string \<Rightarrow> string \<Rightarrow> bool" where
  "has_prefix [] s = True"
| "has_prefix (c # p) [] = False"
| "has_prefix (c # p) (d # s) = (c = d \<and> has_prefix p s)"

lemma has_prefix_iff: "has_prefix p s \<longleftrightarrow> (\<exists>t. s = p @ t)"
  by (induction p s rule: has_prefix.induct) auto

lemma has_prefix_refl [simp]: "has_prefix p (p @ s)"
  by (auto simp: has_prefix_iff)

definition trim_prefix :: "string \<Rightarrow> string \<Rightarrow> string" where
  "trim_prefix s p = (if has_prefix p s then drop (length p) s else s)"

definition has_suffix :: "string \<Rightarrow> string \<Rightarrow> bool" where
  "has_suffix p s = has_prefix (rev p) (rev s)"

definition trim_suffix :: "string \<Rightarrow> string \<Rightarrow> string" where
  "trim_suffix s p = (if has_suffix p s then take (length s - length p) s else s)"

fun contains :: "string \<Rightarrow> string \<Rightarrow> bool" where
  "contains sub [] = has_prefix sub []"
| "contains sub (c # s) = (has_prefix sub (c # s) \<or> contains sub s)"

lemma contains_prefix: "has_prefix sub s \<Longrightarrow> contains sub s"
  by (cases s) simp_all

lemma contains_iff: "contains sub s \<longleftrightarrow> (\<exists>a b. s = a @ sub @ b)"
proof (induction s)
  case Nil
  show ?case by (auto simp: has_prefix_iff)
next
  case (Cons c s)
  show ?case
  proof
    assume "contains sub (c # s)"
    then show "\<exists>a b. c # s = a @ sub @ b"
      using Cons by (auto simp: has_prefix_iff intro: exI [of _ "[]"] exI [of _ "c # _"])
        (metis append_Cons append_Nil)+
  next
    assume "\<exists>a b. c # s = a @ sub @ b"
    then obtain a b where ab: "c # s = a @ sub @ b" by blast
    show "contains sub (c # s)"
    proof (cases a)
      case Nil
      with ab have "has_prefix sub (c # s)" by (auto simp: has_prefix_iff)
      then show ?thesis by (rule contains_prefix)
    next
      case (Cons x a')
      with ab have "s = a' @ sub @ b" by simp
      with Cons.IH show ?thesis by auto
    qed
  qed
qed

text \<open>\<open>strings.Cut(s, sep)\<close> and \<open>strings.Split(s, sep)\<close> for a non-empty separator.\<close>

fun str_cut :: "string \<Rightarrow> string \<Rightarrow> (string \<times> string) option" where
  "str_cut sep [] = (if has_prefix sep [] then Some ([], []) else None)"
| "str_cut sep (c # s) =
    (if has_prefix sep (c # s) then Some ([], drop (length sep) (c # s))
     else map_option (\<lambda>(a, b). (c # a, b)) (str_cut sep s))"

lemma str_cut_Some: "str_cut sep s = Some (a, b) \<Longrightarrow> s = a @ sep @ b"
proof (induction s arbitrary: a b)
  case Nil
  then show ?case by (auto simp: has_prefix_iff split: if_splits)
next
  case (Cons c s)
  then show ?case
    by (auto simp: has_prefix_iff split: if_splits)
qed

lemma str_cut_None: "str_cut sep s = None \<longleftrightarrow> \<not> contains sep s"
  by (induction s) auto

function str_split :: "string \<Rightarrow> string \<Rightarrow> string list" where
  "str_split sep s =
    (if sep = [] then [s]
     else case str_cut sep s of None \<Rightarrow> [s] | Some (a, b) \<Rightarrow> a # str_split sep b)"
  by pat_completeness auto
termination
proof (relation "measure (\<lambda>(sep, s). length s)")
  show "wf (measure (\<lambda>(sep :: string, s :: string). length s))" by simp
next
  fix sep s :: string and y x b
  assume "sep \<noteq> []" and "str_cut sep s = Some y" and "(x, b) = y"
  then have "s = x @ sep @ b" by (auto dest: str_cut_Some)
  with \<open>sep \<noteq> []\<close> show "((sep, b), (sep, s)) \<in> measure (\<lambda>(sep, s). length s)" by simp
qed

declare str_split.simps [simp del]

fun str_join :: "string \<Rightarrow> string list \<Rightarrow> string" where
  "str_join sep [] = []"
| "str_join sep [x] = x"
| "str_join sep (x # y # xs) = x @ sep @ str_join sep (y # xs)"

lemma str_split_nonempty [simp]: "str_split sep s \<noteq> []"
  by (subst str_split.simps) (simp split: option.splits)

lemma str_join_Cons: "xs \<noteq> [] \<Longrightarrow> str_join sep (x # xs) = x @ sep @ str_join sep xs"
  by (cases xs) simp_all

lemma str_join_split: "str_join sep (str_split sep s) = s"
proof (induction sep s rule: str_split.induct)
  case (1 sep s)
  show ?case
  proof (cases "sep = [] \<or> str_cut sep s = None")
    case True
    then show ?thesis by (subst str_split.simps) auto
  next
    case False
    then obtain a b where ab: "str_cut sep s = Some (a, b)" by auto
    with False 1 have "str_join sep (str_split sep b) = b" by auto
    with False ab str_cut_Some [OF ab] show ?thesis
      by (subst str_split.simps) (simp add: str_join_Cons)
  qed
qed

text \<open>
  \<open>strings.TrimSpace\<close>: the white space of \<open>unicode.IsSpace\<close>, as UTF-8 byte sequences. \<open>space_len\<close>
  is the length of the white-space character a string starts with, 0 when it starts with none.
\<close>

definition ascii_space :: "char \<Rightarrow> bool" where
  "ascii_space c = (c \<in> {CHR 0x09, CHR 0x0A, CHR 0x0B, CHR 0x0C, CHR 0x0D, CHR 0x20})"

definition wide_spaces :: "string list" where
  "wide_spaces =
    [[CHR 0xC2, CHR 0x85], [CHR 0xC2, CHR 0xA0], [CHR 0xE1, CHR 0x9A, CHR 0x80],
     [CHR 0xE2, CHR 0x80, CHR 0x80], [CHR 0xE2, CHR 0x80, CHR 0x81], [CHR 0xE2, CHR 0x80, CHR 0x82],
     [CHR 0xE2, CHR 0x80, CHR 0x83], [CHR 0xE2, CHR 0x80, CHR 0x84], [CHR 0xE2, CHR 0x80, CHR 0x85],
     [CHR 0xE2, CHR 0x80, CHR 0x86], [CHR 0xE2, CHR 0x80, CHR 0x87], [CHR 0xE2, CHR 0x80, CHR 0x88],
     [CHR 0xE2, CHR 0x80, CHR 0x89], [CHR 0xE2, CHR 0x80, CHR 0x8A], [CHR 0xE2, CHR 0x80, CHR 0xA8],
     [CHR 0xE2, CHR 0x80, CHR 0xA9], [CHR 0xE2, CHR 0x80, CHR 0xAF], [CHR 0xE2, CHR 0x81, CHR 0x9F],
     [CHR 0xE3, CHR 0x80, CHR 0x80]]"

fun space_len :: "string list \<Rightarrow> string \<Rightarrow> nat" where
  "space_len ws [] = 0"
| "space_len ws (c # s) =
    (if ascii_space c then 1
     else case find (\<lambda>w. has_prefix w (c # s)) ws of None \<Rightarrow> 0 | Some w \<Rightarrow> length w)"

function trim_start :: "string list \<Rightarrow> string \<Rightarrow> string" where
  "trim_start ws s =
    (if s = [] \<or> space_len ws s = 0 then s else trim_start ws (drop (space_len ws s) s))"
  by pat_completeness auto
termination
  by (relation "measure (\<lambda>(ws, s). length s)") auto

declare trim_start.simps [simp del]

definition trim_left :: "string \<Rightarrow> string" where
  "trim_left s = trim_start wide_spaces s"

definition trim_right :: "string \<Rightarrow> string" where
  "trim_right s = rev (trim_start (map rev wide_spaces) (rev s))"

definition trim_space :: "string \<Rightarrow> string" where
  "trim_space s = trim_right (trim_left s)"

text \<open>
  Case mapping. Go's \<open>strings.ToUpper\<close> and \<open>ToLower\<close> map ASCII strings byte by byte and other
  strings through the Unicode tables; the tables are the parameter \<open>tab\<close>.
\<close>

definition is_ascii :: "string \<Rightarrow> bool" where
  "is_ascii s = list_all (\<lambda>c. (of_char c :: nat) < 128) s"

definition upper_char :: "char \<Rightarrow> char" where
  "upper_char c = (let n = (of_char c :: nat) in if 97 \<le> n \<and> n \<le> 122 then char_of (n - 32) else c)"

definition lower_char :: "char \<Rightarrow> char" where
  "lower_char c = (let n = (of_char c :: nat) in if 65 \<le> n \<and> n \<le> 90 then char_of (n + 32) else c)"

definition to_upper :: "(string \<Rightarrow> string) \<Rightarrow> string \<Rightarrow> string" where
  "to_upper tab s = (if is_ascii s then map upper_char s else tab s)"

definition to_lower :: "(string \<Rightarrow> string) \<Rightarrow> string \<Rightarrow> string" where
  "to_lower tab s = (if is_ascii s then map lower_char s else tab s)"

text \<open>
  \<open>strings.ToLower\<close> as far as a comparison with an ASCII string can tell: besides the ASCII capitals
  the only runes with an ASCII lower case are U+0130 and U+212A. Every other byte is kept, where Go
  may put another non-ASCII byte.
\<close>

function lower_ascii :: "string \<Rightarrow> string" where
  "lower_ascii s =
    (if has_prefix [CHR 0xC4, CHR 0xB0] s then CHR ''i'' # lower_ascii (drop 2 s)
     else if has_prefix [CHR 0xE2, CHR 0x84, CHR 0xAA] s then CHR ''k'' # lower_ascii (drop 3 s)
     else case s of [] \<Rightarrow> [] | c # s' \<Rightarrow> lower_char c # lower_ascii s')"
  by pat_completeness auto
termination
  by (relation "measure length") (auto simp: has_prefix_iff)

declare lower_ascii.simps [simp del]

section \<open>Lists and maps\<close>

lemma case_sum_Some:
  "Some y = (case x of Inl e \<Rightarrow> None | Inr v \<Rightarrow> f v) \<longleftrightarrow> (\<exists>v. x = Inr v \<and> f v = Some y)"
  by (cases x) auto

lemma case_sum_Inr:
  "Inr y = (case x of Inl e \<Rightarrow> Inl (g e) | Inr v \<Rightarrow> Inr (f v)) \<longleftrightarrow> (\<exists>v. x = Inr v \<and> y = f v)"
  by (cases x) auto

text \<open>The first element that satisfies a test, as the code's \<open>for ... break\<close> loops find it.\<close>

lemma find_append: "find P (xs @ ys) = (case find P xs of None \<Rightarrow> find P ys | Some x \<Rightarrow> Some x)"
  by (induction xs) auto

lemma find_SomeD: "find P xs = Some x \<Longrightarrow> x \<in> set xs \<and> P x"
  by (induction xs) (auto split: if_splits)

text \<open>A Go map built by assignments in a loop: a later entry replaces an earlier one.\<close>

fun map_build :: "('k \<times> 'v) list \<Rightarrow> ('k \<rightharpoonup> 'v)" where
  "map_build kvs = fold (\<lambda>(k, v) m. m(k \<mapsto> v)) kvs Map.empty"

declare map_build.simps [simp del]

lemma fold_upd_map_of:
  "fold (\<lambda>(k, v) m. m(k \<mapsto> v)) kvs m = m ++ map_of (rev kvs)"
  by (induction kvs arbitrary: m) (auto simp: map_add_def fun_eq_iff split: option.splits)

lemma map_build_map_of: "map_build kvs = map_of (rev kvs)"
  by (simp add: map_build.simps fold_upd_map_of)

end
