(* ===== verification/Policy.thy ===== *)
theory Policy imports Prelude begin

text \<open>
  internal/policy: the AD-group-to-tier mapping (types.go), the rules of policy.rego and the
  engine that evaluates them (engine.go). A tier, a risk level and a cluster environment are
  strings, as in the code, where they come from YAML, from playbooks and over the wire; the
  constants below are the values the code knows. The rules of policy.rego are a list of guarded
  results; \<open>rego_complete\<close> is what OPA documents for a complete rule with several bodies: no body
  holds, the default; the bodies that hold agree, their value; they disagree, an evaluation error.
  OPA's evaluation may also be stopped from outside, by the context it is given (a cancelled call);
  the error it then returns is the first argument of \<open>decide\<close>, \<open>None\<close> when it is not stopped.
\<close>

section \<open>Types\<close>

type_synonym tier = string
type_synonym risk = string
type_synonym cluster_env = string
type_synonym group_mapping = "string \<rightharpoonup> tier"

definition tier_read_only :: tier where "tier_read_only = ''readonly''"
definition tier_nonprod_admin :: tier where "tier_nonprod_admin = ''nonprod-admin''"
definition tier_prod_admin :: tier where "tier_prod_admin = ''prod-admin''"

definition risk_safe :: risk where "risk_safe = ''safe''"
definition risk_medium :: risk where "risk_medium = ''medium''"
definition risk_high :: risk where "risk_high = ''high''"

definition env_prod :: cluster_env where "env_prod = ''prod''"
definition env_nonprod :: cluster_env where "env_nonprod = ''nonprod''"

lemmas tier_defs = tier_read_only_def tier_nonprod_admin_def tier_prod_admin_def
lemmas risk_defs = risk_safe_def risk_medium_def risk_high_def
lemmas env_defs = env_prod_def env_nonprod_def

lemma risk_distinct [simp]:
  "risk_safe \<noteq> risk_high" "risk_high \<noteq> risk_safe" "risk_medium \<noteq> risk_high"
  "risk_high \<noteq> risk_medium" "risk_safe \<noteq> risk_medium" "risk_medium \<noteq> risk_safe"
  by (simp_all add: risk_defs)

record request =
  rq_groups :: "string list"
  rq_cluster_env :: cluster_env
  rq_action_risk :: risk
  rq_execution_flag :: bool

record decision =
  allow :: bool
  dry_run :: bool
  reason :: string
  dec_tier :: tier

section \<open>Tier resolution\<close>

text \<open>Reading a missing key of \<open>tierRank\<close> gives 0, the rank of \<open>readonly\<close>.\<close>

definition tier_rank :: "tier \<Rightarrow> int" where
  "tier_rank t =
    (if t = tier_read_only then 0 else if t = tier_nonprod_admin then 1
     else if t = tier_prod_admin then 2 else 0)"

fun highest_tier_loop :: "group_mapping \<Rightarrow> string list \<Rightarrow> int \<Rightarrow> tier \<Rightarrow> bool \<Rightarrow> tier \<times> bool" where
  "highest_tier_loop m [] best tier ok = (tier, ok)"
| "highest_tier_loop m (g # gs) best tier ok =
    (case m g of
       None \<Rightarrow> highest_tier_loop m gs best tier ok
     | Some t \<Rightarrow>
         if tier_rank t > best then highest_tier_loop m gs (tier_rank t) t True
         else highest_tier_loop m gs best tier ok)"

definition highest_tier :: "group_mapping \<Rightarrow> string list \<Rightarrow> tier \<times> bool" where
  "highest_tier m gs = highest_tier_loop m gs (-1) [] False"

text \<open>\<open>NewEngine\<close> keeps the mapping; \<open>CallerTier\<close> is the lookup \<open>Decide\<close> starts with.\<close>

record engine =
  eng_groups :: group_mapping

definition new_engine :: "group_mapping \<Rightarrow> engine" where
  "new_engine m = \<lparr>eng_groups = m\<rparr>"

definition caller_tier :: "engine \<Rightarrow> string list \<Rightarrow> tier \<times> bool" where
  "caller_tier e gs = highest_tier (eng_groups e) gs"

section \<open>The rules\<close>

record rego_input =
  in_tier :: string
  in_cluster_env :: string
  in_action_risk :: string
  in_execution_flag :: bool

record rego_result =
  rr_allow :: bool
  rr_dry_run :: bool
  rr_reason :: string

definition rego_default :: rego_result where
  "rego_default = \<lparr>rr_allow = False, rr_dry_run = True,
     rr_reason = ''negado por padr'' @ a_tilde @ ''o: nenhuma regra de pol'' @ i_acute
       @ ''tica corresponde''\<rparr>"

definition msg_flag_off :: string where
  "msg_flag_off = '', mas flag de execu'' @ c_cedil @ a_tilde @ ''o est'' @ a_acute @ '' desligada''"

definition msg_safe :: string where
  "msg_safe = ''a'' @ c_cedil @ a_tilde @ ''o segura, dentro do tier do chamador''"

definition msg_medium_nonprod :: string where
  "msg_medium_nonprod = ''a'' @ c_cedil @ a_tilde @ ''o de risco m'' @ e_acute @ ''dio em n'' @ a_tilde
     @ ''o-prod, tier compat'' @ i_acute @ ''vel''"

definition msg_medium_prod :: string where
  "msg_medium_prod = ''a'' @ c_cedil @ a_tilde @ ''o de risco m'' @ e_acute
     @ ''dio em prod, tier compat'' @ i_acute @ ''vel''"

definition rule_high :: "rego_input \<Rightarrow> rego_result option" where
  "rule_high i = (if in_action_risk i = ''high''
     then Some \<lparr>rr_allow = True, rr_dry_run = True,
       rr_reason = ''a'' @ c_cedil @ a_tilde @ ''o de alto risco: sempre requer aprova'' @ c_cedil
         @ a_tilde @ ''o humana''\<rparr> else None)"

definition rule_readonly :: "rego_input \<Rightarrow> rego_result option" where
  "rule_readonly i = (if in_action_risk i \<noteq> ''high'' \<and> in_tier i = ''readonly''
     then Some \<lparr>rr_allow = True, rr_dry_run = True,
       rr_reason = ''tier readonly: apenas diagn'' @ o_acute @ ''stico''\<rparr> else None)"

definition rule_safe :: "rego_input \<Rightarrow> rego_result option" where
  "rule_safe i = (if in_action_risk i = ''safe'' \<and> in_tier i \<noteq> ''readonly'' \<and> in_execution_flag i
     then Some \<lparr>rr_allow = True, rr_dry_run = False, rr_reason = msg_safe\<rparr> else None)"

definition rule_safe_off :: "rego_input \<Rightarrow> rego_result option" where
  "rule_safe_off i = (if in_action_risk i = ''safe'' \<and> in_tier i \<noteq> ''readonly'' \<and> \<not> in_execution_flag i
     then Some \<lparr>rr_allow = True, rr_dry_run = True, rr_reason = msg_safe @ msg_flag_off\<rparr> else None)"

definition rule_medium_nonprod :: "rego_input \<Rightarrow> rego_result option" where
  "rule_medium_nonprod i = (if in_action_risk i = ''medium'' \<and> in_cluster_env i = ''nonprod''
       \<and> in_tier i \<in> {''nonprod-admin'', ''prod-admin''} \<and> in_execution_flag i
     then Some \<lparr>rr_allow = True, rr_dry_run = False, rr_reason = msg_medium_nonprod\<rparr> else None)"

definition rule_medium_nonprod_off :: "rego_input \<Rightarrow> rego_result option" where
  "rule_medium_nonprod_off i = (if in_action_risk i = ''medium'' \<and> in_cluster_env i = ''nonprod''
       \<and> in_tier i \<in> {''nonprod-admin'', ''prod-admin''} \<and> \<not> in_execution_flag i
     then Some \<lparr>rr_allow = True, rr_dry_run = True,
       rr_reason = msg_medium_nonprod @ msg_flag_off\<rparr> else None)"

definition rule_medium_prod :: "rego_input \<Rightarrow> rego_result option" where
  "rule_medium_prod i = (if in_action_risk i = ''medium'' \<and> in_cluster_env i = ''prod''
       \<and> in_tier i = ''prod-admin'' \<and> in_execution_flag i
     then Some \<lparr>rr_allow = True, rr_dry_run = False, rr_reason = msg_medium_prod\<rparr> else None)"

definition rule_medium_prod_off :: "rego_input \<Rightarrow> rego_result option" where
  "rule_medium_prod_off i = (if in_action_risk i = ''medium'' \<and> in_cluster_env i = ''prod''
       \<and> in_tier i = ''prod-admin'' \<and> \<not> in_execution_flag i
     then Some \<lparr>rr_allow = True, rr_dry_run = True,
       rr_reason = msg_medium_prod @ msg_flag_off\<rparr> else None)"

definition policy_rules :: "(rego_input \<Rightarrow> rego_result option) list" where
  "policy_rules = [rule_high, rule_readonly, rule_safe, rule_safe_off, rule_medium_nonprod,
     rule_medium_nonprod_off, rule_medium_prod, rule_medium_prod_off]"

lemmas rule_defs = rule_high_def rule_readonly_def rule_safe_def rule_safe_off_def
  rule_medium_nonprod_def rule_medium_nonprod_off_def rule_medium_prod_def rule_medium_prod_off_def

definition rego_complete ::
  "'r \<Rightarrow> ('i \<Rightarrow> 'r option) list \<Rightarrow> 'i \<Rightarrow> goerr + 'r" where
  "rego_complete dflt rules i =
    (case List.map_filter (\<lambda>r. r i) rules of
       [] \<Rightarrow> Inr dflt
     | v # vs \<Rightarrow> if list_all (\<lambda>w. w = v) vs then Inr v
                  else Inl (errorf ''eval_conflict_error: complete rules must not produce multiple outputs''))"

definition no_group_decision :: decision where
  "no_group_decision = \<lparr>allow = False, dry_run = True,
     reason = ''chamador n'' @ a_tilde @ ''o pertence a nenhum grupo AD mapeado para um tier de acesso'',
     dec_tier = []\<rparr>"

text \<open>\<open>Eval\<close> on the prepared query, and \<open>Decide\<close>: \<open>stopped\<close> is the error of an evaluation the context stopped.\<close>

definition opa_eval :: "goerr option \<Rightarrow> rego_input \<Rightarrow> goerr + rego_result" where
  "opa_eval stopped i =
    (case stopped of Some err \<Rightarrow> Inl err | None \<Rightarrow> rego_complete rego_default policy_rules i)"

definition decide :: "goerr option \<Rightarrow> engine \<Rightarrow> request \<Rightarrow> goerr + decision" where
  "decide stopped e req =
    (case highest_tier (eng_groups e) (rq_groups req) of (tier, ok) \<Rightarrow>
     if \<not> ok then Inr no_group_decision
     else
       let inp = \<lparr>in_tier = tier, in_cluster_env = rq_cluster_env req,
                  in_action_risk = rq_action_risk req, in_execution_flag = rq_execution_flag req\<rparr> in
       case opa_eval stopped inp of
         Inl err \<Rightarrow> Inl (wrapf ''evaluating policy: '' err)
       | Inr r \<Rightarrow> Inr \<lparr>allow = rr_allow r, dry_run = rr_dry_run r, reason = rr_reason r,
                        dec_tier = tier\<rparr>)"

section \<open>Tier resolution picks a mapped tier of the highest rank\<close>

lemma tier_rank_nonneg: "0 \<le> tier_rank t"
  by (simp add: tier_rank_def)

lemma tier_rank_le2: "tier_rank t \<le> 2"
  by (simp add: tier_rank_def)

text \<open>The loop's invariant: \<open>best\<close> is the rank of \<open>tier\<close> once a group has matched, -1 before.\<close>

lemma highest_tier_loop_spec:
  assumes "highest_tier_loop m gs best t ok = (t', ok')"
    and "ok \<longrightarrow> best = tier_rank t" and "\<not> ok \<longrightarrow> best = -1"
  shows "(ok' \<longleftrightarrow> ok \<or> (\<exists>g \<in> set gs. m g \<noteq> None))
    \<and> (ok' \<longrightarrow> (t' = t \<and> ok \<or> (\<exists>g \<in> set gs. m g = Some t'))
         \<and> (\<forall>g \<in> set gs. \<forall>u. m g = Some u \<longrightarrow> tier_rank u \<le> tier_rank t')
         \<and> best \<le> tier_rank t')
    \<and> (\<not> ok' \<longrightarrow> t' = t)"
  using assms
proof (induction m gs best t ok rule: highest_tier_loop.induct)
  case (1 m best tier ok)
  then show ?case using tier_rank_nonneg [of tier] by auto
next
  case (2 m g gs best tier ok)
  show ?case
  proof (cases "m g")
    case None
    with "2.IH"(1) [OF None] "2.prems" show ?thesis by simp
  next
    case (Some u)
    show ?thesis
    proof (cases "tier_rank u > best")
      case True
      with "2.prems"(1) Some have step: "highest_tier_loop m gs (tier_rank u) u True = (t', ok')"
        by simp
      from "2.IH"(2) [OF Some True step]
      have "ok'" and pick: "t' = u \<or> (\<exists>g \<in> set gs. m g = Some t')"
        and max: "\<forall>g \<in> set gs. \<forall>v. m g = Some v \<longrightarrow> tier_rank v \<le> tier_rank t'"
        and le: "tier_rank u \<le> tier_rank t'"
        by simp_all
      from le True have "best \<le> tier_rank t'" by simp
      with \<open>ok'\<close> pick max le Some show ?thesis by auto
    next
      case False
      with tier_rank_nonneg [of u] "2.prems"(3) have ok by auto
      with "2.prems"(2) False have u_le: "tier_rank u \<le> tier_rank tier" and best: "best = tier_rank tier"
        by simp_all
      from False "2.prems"(1) Some have step: "highest_tier_loop m gs best tier ok = (t', ok')"
        by simp
      from "2.IH"(3) [OF Some False step "2.prems"(2,3)] \<open>ok\<close>
      have "ok'" and pick: "t' = tier \<or> (\<exists>g \<in> set gs. m g = Some t')"
        and max: "\<forall>g \<in> set gs. \<forall>v. m g = Some v \<longrightarrow> tier_rank v \<le> tier_rank t'"
        and le: "best \<le> tier_rank t'"
        by auto
      from le best u_le have "tier_rank u \<le> tier_rank t'" by simp
      with \<open>ok'\<close> \<open>ok\<close> pick max le Some show ?thesis by auto
    qed
  qed
qed

lemma highest_tier_ok:
  "snd (highest_tier m gs) \<longleftrightarrow> (\<exists>g \<in> set gs. m g \<noteq> None)"
  using highest_tier_loop_spec [of m gs "-1" "[]" False]
  by (cases "highest_tier_loop m gs (-1) [] False") (simp add: highest_tier_def)

lemma highest_tier_max:
  assumes "highest_tier m gs = (t, True)"
  shows "(\<exists>g \<in> set gs. m g = Some t)
    \<and> (\<forall>g \<in> set gs. \<forall>u. m g = Some u \<longrightarrow> tier_rank u \<le> tier_rank t)"
  using highest_tier_loop_spec [of m gs "-1" "[]" False t True] assms
  by (simp add: highest_tier_def)

section \<open>The rules never conflict\<close>

lemma rule_case:
  "List.map_filter (\<lambda>r. r i) policy_rules =
    (if in_action_risk i = ''high'' then [the (rule_high i)]
     else if in_tier i = ''readonly'' then [the (rule_readonly i)]
     else if in_action_risk i = ''safe'' then
       (if in_execution_flag i then [the (rule_safe i)] else [the (rule_safe_off i)])
     else if in_action_risk i = ''medium'' \<and> in_cluster_env i = ''nonprod''
          \<and> in_tier i \<in> {''nonprod-admin'', ''prod-admin''} then
       (if in_execution_flag i then [the (rule_medium_nonprod i)] else [the (rule_medium_nonprod_off i)])
     else if in_action_risk i = ''medium'' \<and> in_cluster_env i = ''prod'' \<and> in_tier i = ''prod-admin'' then
       (if in_execution_flag i then [the (rule_medium_prod i)] else [the (rule_medium_prod_off i)])
     else [])"
proof (cases "in_action_risk i = ''high''")
  case True
  then show ?thesis by (simp add: policy_rules_def rule_defs List.map_filter_simps)
next
  case not_high: False
  show ?thesis
  proof (cases "in_tier i = ''readonly''")
    case True
    with not_high show ?thesis by (simp add: policy_rules_def rule_defs List.map_filter_simps)
  next
    case False
    with not_high show ?thesis
      by (cases "in_execution_flag i"; cases "in_action_risk i = ''safe''";
          cases "in_cluster_env i = ''prod''"; cases "in_tier i = ''prod-admin''")
        (simp_all add: policy_rules_def rule_defs List.map_filter_simps)
  qed
qed

text \<open>At most one body of the rule holds for any input, so OPA never reports a conflict.\<close>

lemma policy_rules_exclusive: "length (List.map_filter (\<lambda>r. r i) policy_rules) \<le> 1"
  by (subst rule_case) simp

lemma policy_eval_total: "\<exists>r. rego_complete rego_default policy_rules i = Inr r"
  using policy_rules_exclusive [of i]
  by (auto simp: rego_complete_def split: list.splits)

lemma decide_total: "\<exists>d. decide None e req = Inr d"
proof (cases "highest_tier (eng_groups e) (rq_groups req)")
  case (Pair t ok)
  obtain r where "rego_complete rego_default policy_rules
      \<lparr>in_tier = t, in_cluster_env = rq_cluster_env req,
       in_action_risk = rq_action_risk req, in_execution_flag = rq_execution_flag req\<rparr> = Inr r"
    using policy_eval_total by blast
  with Pair show ?thesis by (simp add: decide_def opa_eval_def Let_def)
qed

text \<open>A stopped evaluation decides nothing; who maps to no tier is denied before OPA is asked.\<close>

lemma decide_stopped:
  "decide (Some err) e req =
    (if snd (highest_tier (eng_groups e) (rq_groups req)) then Inl (wrapf ''evaluating policy: '' err)
     else Inr no_group_decision)"
  by (cases "highest_tier (eng_groups e) (rq_groups req)") (simp add: decide_def opa_eval_def Let_def)

lemma decide_stopped_executes_nothing: "decide (Some err) e req = Inr d \<Longrightarrow> \<not> (allow d \<and> \<not> dry_run d)"
  by (auto simp: decide_stopped no_group_decision_def split: if_splits)

text \<open>The decision as a table, for a caller with a tier.\<close>

lemma decide_table:
  assumes "highest_tier (eng_groups e) (rq_groups req) = (t, True)"
  shows "\<exists>d. decide None e req = Inr d \<and> dec_tier d = t
    \<and> (allow d \<longleftrightarrow> rq_action_risk req = ''high'' \<or> t = ''readonly'' \<or> rq_action_risk req = ''safe''
         \<or> rq_action_risk req = ''medium'' \<and>
           (rq_cluster_env req = ''nonprod'' \<and> t \<in> {''nonprod-admin'', ''prod-admin''}
            \<or> rq_cluster_env req = ''prod'' \<and> t = ''prod-admin''))
    \<and> (\<not> dry_run d \<longleftrightarrow> rq_execution_flag req \<and> t \<noteq> ''readonly'' \<and>
         (rq_action_risk req = ''safe''
         \<or> rq_action_risk req = ''medium'' \<and>
           (rq_cluster_env req = ''nonprod'' \<and> t \<in> {''nonprod-admin'', ''prod-admin''}
            \<or> rq_cluster_env req = ''prod'' \<and> t = ''prod-admin'')))"
  using assms
  by (simp add: decide_def opa_eval_def Let_def rego_complete_def rule_case rule_defs rego_default_def)

section \<open>Properties\<close>

text \<open>A mapping with the tiers the code knows only, and the tiers a caller's groups map to.\<close>

definition known_tiers :: "group_mapping \<Rightarrow> bool" where
  "known_tiers m \<longleftrightarrow> ran m \<subseteq> {tier_read_only, tier_nonprod_admin, tier_prod_admin}"

definition holds_tier :: "engine \<Rightarrow> request \<Rightarrow> tier \<Rightarrow> bool" where
  "holds_tier e req t \<longleftrightarrow> list_ex (\<lambda>g. eng_groups e g = Some t) (rq_groups req)"

text \<open>With known tiers, the tier resolved is an administrator's exactly when a group of the caller says so.\<close>

lemma highest_known_tier:
  assumes "known_tiers (eng_groups e)"
  shows "highest_tier (eng_groups e) (rq_groups req) = (tier_prod_admin, True) \<longleftrightarrow> holds_tier e req tier_prod_admin"
    and "highest_tier (eng_groups e) (rq_groups req) = (tier_nonprod_admin, True)
      \<longleftrightarrow> holds_tier e req tier_nonprod_admin \<and> \<not> holds_tier e req tier_prod_admin"
proof -
  let ?m = "eng_groups e" and ?gs = "rq_groups req"
  obtain t ok where h: "highest_tier ?m ?gs = (t, ok)" by (cases "highest_tier ?m ?gs")
  have ok: "ok \<longleftrightarrow> (\<exists>g \<in> set ?gs. ?m g \<noteq> None)" using highest_tier_ok [of ?m ?gs] h by simp
  have known: "u \<in> {tier_read_only, tier_nonprod_admin, tier_prod_admin}" if "?m g = Some u" for g u
    using assms that by (auto simp: known_tiers_def ran_def)
  have max: "(\<exists>g \<in> set ?gs. ?m g = Some t) \<and> (\<forall>g \<in> set ?gs. \<forall>u. ?m g = Some u \<longrightarrow> tier_rank u \<le> tier_rank t)"
    if ok using highest_tier_max [of ?m ?gs t] h that by simp
  have holds: "holds_tier e req u \<longleftrightarrow> (\<exists>g \<in> set ?gs. ?m g = Some u)" for u
    by (simp add: holds_tier_def list_ex_iff)
  have up: "ok" "tier_rank u \<le> tier_rank t" if "holds_tier e req u" for u
    using that ok max by (auto simp: holds)
  have here: "holds_tier e req t" "t = tier_read_only \<or> t = tier_nonprod_admin \<or> t = tier_prod_admin" if ok
    using max [OF that] known by (auto simp: holds)
  have ranks: "tier_rank tier_read_only = 0" "tier_rank tier_nonprod_admin = 1" "tier_rank tier_prod_admin = 2"
    by (simp_all add: tier_rank_def tier_defs)
  have prod: "holds_tier e req tier_prod_admin \<longleftrightarrow> ok \<and> t = tier_prod_admin"
    using up [of tier_prod_admin] here ranks by auto
  show "highest_tier ?m ?gs = (tier_prod_admin, True) \<longleftrightarrow> holds_tier e req tier_prod_admin"
    unfolding h prod by auto
  have "holds_tier e req tier_nonprod_admin \<and> \<not> holds_tier e req tier_prod_admin \<longleftrightarrow> ok \<and> t = tier_nonprod_admin"
    using up [of tier_nonprod_admin] here ranks unfolding prod by auto
  then show "highest_tier ?m ?gs = (tier_nonprod_admin, True)
      \<longleftrightarrow> holds_tier e req tier_nonprod_admin \<and> \<not> holds_tier e req tier_prod_admin"
    unfolding h by auto
qed

lemma decide_known_tier:
  assumes "highest_tier (eng_groups e) (rq_groups req) = (t, True)"
    and "t \<in> {tier_read_only, tier_nonprod_admin, tier_prod_admin}"
  shows "\<exists>d. decide None e req = Inr d
    \<and> (allow d \<and> \<not> dry_run d \<longleftrightarrow> rq_execution_flag req
          \<and> (rq_action_risk req = risk_safe \<and> t \<noteq> tier_read_only
             \<or> rq_action_risk req = risk_medium
               \<and> (rq_cluster_env req = env_nonprod \<and> t \<noteq> tier_read_only
                  \<or> rq_cluster_env req = env_prod \<and> t = tier_prod_admin)))"
proof -
  note table = decide_table [OF assms(1), folded tier_defs risk_defs env_defs]
  have distinct: "tier_prod_admin \<noteq> tier_read_only"
    "t \<in> {tier_nonprod_admin, tier_prod_admin} \<longleftrightarrow> t \<noteq> tier_read_only"
    using assms(2) by (auto simp: tier_defs)
  from table obtain d where d: "decide None e req = Inr d"
    and al: "allow d \<longleftrightarrow> rq_action_risk req = risk_high \<or> t = tier_read_only \<or> rq_action_risk req = risk_safe
       \<or> rq_action_risk req = risk_medium \<and>
         (rq_cluster_env req = env_nonprod \<and> t \<in> {tier_nonprod_admin, tier_prod_admin}
          \<or> rq_cluster_env req = env_prod \<and> t = tier_prod_admin)"
    and dry: "\<not> dry_run d \<longleftrightarrow> rq_execution_flag req \<and> t \<noteq> tier_read_only \<and> (rq_action_risk req = risk_safe
       \<or> rq_action_risk req = risk_medium \<and>
         (rq_cluster_env req = env_nonprod \<and> t \<in> {tier_nonprod_admin, tier_prod_admin}
          \<or> rq_cluster_env req = env_prod \<and> t = tier_prod_admin))"
    by (elim exE conjE) (rule that)
  show ?thesis
    using d unfolding distinct(2) by (intro exI [of _ d]) (use al dry distinct in argo)
qed

text \<open>C1: for a mapping whose tiers are the three the code knows, \<open>Decide\<close> lets a real execution through
  exactly when the execution flag is on and the action is safe and a group of the caller maps to an
  administrator's tier, or it is medium and a group maps to a tier that administers the environment
  (prod-admin on prod, either administrator on nonprod); a high-risk action is never let through, a
  caller without a mapped group is denied, and an evaluation that the context stops is answered by its
  error, or by that denial, and lets nothing through.\<close>

theorem decide_executes_iff:
  assumes "known_tiers (eng_groups e)"
  shows "(\<exists>d. decide None e req = Inr d
      \<and> (allow d \<and> \<not> dry_run d \<longleftrightarrow> rq_execution_flag req
          \<and> (rq_action_risk req = risk_safe \<and> (holds_tier e req tier_nonprod_admin \<or> holds_tier e req tier_prod_admin)
             \<or> rq_action_risk req = risk_medium
               \<and> (rq_cluster_env req = env_nonprod \<and> (holds_tier e req tier_nonprod_admin \<or> holds_tier e req tier_prod_admin)
                  \<or> rq_cluster_env req = env_prod \<and> holds_tier e req tier_prod_admin)))
      \<and> (list_all (\<lambda>g. eng_groups e g = None) (rq_groups req) \<longrightarrow> \<not> allow d))
    \<and> (\<forall>err. decide (Some err) e req =
        (if list_all (\<lambda>g. eng_groups e g = None) (rq_groups req) then Inr no_group_decision
         else Inl (wrapf ''evaluating policy: '' err)))
    \<and> \<not> allow no_group_decision"
proof -
  let ?m = "eng_groups e" and ?gs = "rq_groups req"
  obtain t ok where h: "highest_tier ?m ?gs = (t, ok)" by (cases "highest_tier ?m ?gs")
  have ok: "ok \<longleftrightarrow> \<not> list_all (\<lambda>g. ?m g = None) ?gs"
    using highest_tier_ok [of ?m ?gs] h by (auto simp: list_all_iff)
  have stopped: "\<forall>err. decide (Some err) e req =
        (if list_all (\<lambda>g. ?m g = None) ?gs then Inr no_group_decision else Inl (wrapf ''evaluating policy: '' err))"
    using ok by (simp add: decide_stopped h)
  note tiers = highest_known_tier [OF assms, of req, unfolded h, simplified]
  show ?thesis
  proof (cases ok)
    case True
    then have t: "t \<in> {tier_read_only, tier_nonprod_admin, tier_prod_admin}"
      using highest_tier_max [of ?m ?gs t] h assms by (auto simp: known_tiers_def ran_def)
    from True tiers t have held: "holds_tier e req tier_prod_admin \<longleftrightarrow> t = tier_prod_admin"
      "holds_tier e req tier_nonprod_admin \<or> holds_tier e req tier_prod_admin \<longleftrightarrow> t \<noteq> tier_read_only"
      by (auto simp: tier_defs)
    from True ok have "\<not> list_all (\<lambda>g. ?m g = None) ?gs" by simp
    moreover from h True have "highest_tier ?m ?gs = (t, True)" by simp
    ultimately show ?thesis
      using decide_known_tier [OF _ t] stopped unfolding held(2) unfolding held(1) by (simp add: no_group_decision_def)
  next
    case False
    then have "decide None e req = Inr no_group_decision" by (simp add: decide_def h)
    with False stopped tiers show ?thesis
      using ok by (auto simp: no_group_decision_def holds_tier_def list_all_iff list_ex_iff)
  qed
qed

theorem decide_executes_iff_witness:
  "\<exists>d. decide None (new_engine [''ops'' \<mapsto> tier_nonprod_admin, ''sre'' \<mapsto> tier_prod_admin])
      \<lparr>rq_groups = [''ops'', ''sre''], rq_cluster_env = env_prod, rq_action_risk = risk_medium, rq_execution_flag = True\<rparr>
      = Inr d \<and> allow d \<and> \<not> dry_run d"
  using decide_executes_iff [of "new_engine [''ops'' \<mapsto> tier_nonprod_admin, ''sre'' \<mapsto> tier_prod_admin]"
    "\<lparr>rq_groups = [''ops'', ''sre''], rq_cluster_env = env_prod, rq_action_risk = risk_medium, rq_execution_flag = True\<rparr>"]
  by (auto simp: known_tiers_def new_engine_def holds_tier_def)

text \<open>The tier \<open>HighestTier\<close> resolves is the tier of one of the caller's groups and no group of the
  caller maps to a tier of higher rank; it reports false exactly when no group is mapped.\<close>

theorem highest_tier_correct:
  assumes "highest_tier m gs = (t, ok)"
  shows "(ok \<longleftrightarrow> (\<exists>g \<in> set gs. m g \<noteq> None))
    \<and> (ok \<longrightarrow> (\<exists>g \<in> set gs. m g = Some t) \<and> (\<forall>g \<in> set gs. \<forall>u. m g = Some u \<longrightarrow> tier_rank u \<le> tier_rank t))"
  using highest_tier_ok [of m gs] highest_tier_max [of m gs t] assms by (cases ok) auto

theorem highest_tier_correct_witness:
  "(\<exists>g \<in> set [''a'', ''b'', ''c'']. [''a'' \<mapsto> tier_read_only, ''b'' \<mapsto> tier_prod_admin] g = Some tier_prod_admin)"
  using highest_tier_correct [of "[''a'' \<mapsto> tier_read_only, ''b'' \<mapsto> tier_prod_admin]" "[''a'', ''b'', ''c'']"
    tier_prod_admin True]
  by (simp add: highest_tier_def tier_rank_def tier_defs)

text \<open>A caller whose only group maps to a tier string the code does not know is let through to execute
  safe actions when the flag is on, although the engine documents that a caller with no known tier is
  always denied.\<close>

theorem decide_unknown_tier_executes:
  "decide None (new_engine [''g'' \<mapsto> ''superuser''])
     \<lparr>rq_groups = [''g''], rq_cluster_env = env_prod, rq_action_risk = risk_safe, rq_execution_flag = True\<rparr>
   = Inr \<lparr>allow = True, dry_run = False, reason = msg_safe, dec_tier = ''superuser''\<rparr>"
  by (simp add: decide_def opa_eval_def new_engine_def highest_tier_def tier_rank_def tier_defs risk_defs env_defs
      rego_complete_def rule_case rule_defs rego_default_def)

end
