(* ===== verification/GoRegexp.thy ===== *)
theory GoRegexp imports Prelude begin

text \<open>
  The part of Go's \<open>regexp\<close> package the code uses: Perl-like matching over bytes and
  \<open>ReplaceAllString\<close>/\<open>MatchString\<close>. A regexp matches at a position given by the character before it
  (for \<open>\b\<close> and \<open>^\<close>) and the text from it on; \<open>rmatch\<close> lists the ways it matches there, in the
  order a backtracking engine tries them, each as the last character read and the text left. The
  first entry is the match Go reports ("leftmost-first"). All patterns of the code are over ASCII
  and over negated classes that take every non-ASCII byte, so reading bytes for runes does not
  change what matches.
\<close>

datatype re =
    Cls "char \<Rightarrow> bool"
  | Emp
  | Cat re re
  | Alt re re
  | Star re
  | LStar re
  | WordB
  | Bol

text \<open>\<open>\b\<close> is Go's ASCII word boundary.\<close>

definition word_char :: "char \<Rightarrow> bool" where
  "word_char c = (let n = (of_char c :: nat) in
     48 \<le> n \<and> n \<le> 57 \<or> 65 \<le> n \<and> n \<le> 90 \<or> n = 95 \<or> 97 \<le> n \<and> n \<le> 122)"

definition word_at :: "char option \<Rightarrow> bool" where
  "word_at p = (case p of None \<Rightarrow> False | Some c \<Rightarrow> word_char c)"

fun first_char :: "string \<Rightarrow> char option" where
  "first_char [] = None"
| "first_char (c # s) = Some c"

function rmatch :: "re \<Rightarrow> char option \<Rightarrow> string \<Rightarrow> (char option \<times> string) list" where
  "rmatch (Cls P) prev s = (case s of [] \<Rightarrow> [] | c # s' \<Rightarrow> if P c then [(Some c, s')] else [])"
| "rmatch Emp prev s = [(prev, s)]"
| "rmatch (Cat a b) prev s =
    concat (map (\<lambda>(p, r). if length r \<le> length s then rmatch b p r else []) (rmatch a prev s))"
| "rmatch (Alt a b) prev s = rmatch a prev s @ rmatch b prev s"
| "rmatch (Star a) prev s =
    concat (map (\<lambda>(p, r). if length r < length s then rmatch (Star a) p r else []) (rmatch a prev s))
      @ [(prev, s)]"
| "rmatch (LStar a) prev s =
    (prev, s) #
    concat (map (\<lambda>(p, r). if length r < length s then rmatch (LStar a) p r else []) (rmatch a prev s))"
| "rmatch WordB prev s = (if word_at prev \<noteq> word_at (first_char s) then [(prev, s)] else [])"
| "rmatch Bol prev s = (if prev = None then [(prev, s)] else [])"
  by pat_completeness auto
termination
  by (relation "measures [\<lambda>(r, p, s). length s, \<lambda>(r, p, s). size r]") auto

declare rmatch.simps [simp del]

text \<open>Building blocks: literals, \<open>(?i)\<close> literals, repetition, the classes of the code's patterns.\<close>

fun lit :: "string \<Rightarrow> re" where
  "lit [] = Emp"
| "lit (c # s) = Cat (Cls (\<lambda>d. d = c)) (lit s)"

text \<open>
  Under \<open>(?i)\<close> a letter also stands for the runes Unicode folds to it: for \<open>s\<close> the long s
  (U+017F), for \<open>k\<close> the Kelvin sign (U+212A), both multi-byte.
\<close>

definition long_s :: string where "long_s = [CHR 0xC5, CHR 0xBF]"
definition kelvin :: string where "kelvin = [CHR 0xE2, CHR 0x84, CHR 0xAA]"

definition fold_char :: "char \<Rightarrow> re" where
  "fold_char c =
    (let base = Cls (\<lambda>d. lower_char d = lower_char c) in
     if lower_char c = CHR ''s'' then Alt base (lit long_s)
     else if lower_char c = CHR ''k'' then Alt base (lit kelvin)
     else base)"

fun lit_fold :: "string \<Rightarrow> re" where
  "lit_fold [] = Emp"
| "lit_fold (c # s) = Cat (fold_char c) (lit_fold s)"

fun rep :: "nat \<Rightarrow> re \<Rightarrow> re" where
  "rep 0 r = Emp"
| "rep (Suc n) r = Cat r (rep n r)"

definition plus :: "re \<Rightarrow> re" where "plus r = Cat r (Star r)"
definition opt :: "re \<Rightarrow> re" where "opt r = Alt r Emp"

definition is_upper :: "char \<Rightarrow> bool" where
  "is_upper c = (let n = (of_char c :: nat) in 65 \<le> n \<and> n \<le> 90)"
definition is_lower :: "char \<Rightarrow> bool" where
  "is_lower c = (let n = (of_char c :: nat) in 97 \<le> n \<and> n \<le> 122)"
definition is_digit :: "char \<Rightarrow> bool" where
  "is_digit c = (let n = (of_char c :: nat) in 48 \<le> n \<and> n \<le> 57)"
text \<open>\<open>\s\<close> is \<open>[\t\n\f\r ]\<close>, without the vertical tab.\<close>
definition re_space :: "char \<Rightarrow> bool" where
  "re_space c = (c \<in> {CHR 0x09, CHR 0x0A, CHR 0x0C, CHR 0x0D, CHR 0x20})"

text \<open>
  \<open>ReplaceAllString(s, repl)\<close> from a position on, for a replacement without \<open>$\<close>: the leftmost
  non-empty match is replaced and the scan goes on after it.
\<close>

function replace_all :: "re \<Rightarrow> string \<Rightarrow> char option \<Rightarrow> string \<Rightarrow> string" where
  "replace_all r repl prev s =
    (let skip = (case s of [] \<Rightarrow> [] | c # s' \<Rightarrow> c # replace_all r repl (Some c) s') in
     case rmatch r prev s of
       [] \<Rightarrow> skip
     | (p, rest) # _ \<Rightarrow>
         if length rest < length s then repl @ replace_all r repl p rest else skip)"
  by pat_completeness auto
termination
  by (relation "measure (\<lambda>(r, repl, p, s). length s)") auto

declare replace_all.simps [simp del]

text \<open>\<open>MatchString\<close>: some position matches.\<close>

fun re_find :: "re \<Rightarrow> char option \<Rightarrow> string \<Rightarrow> bool" where
  "re_find r prev [] = (rmatch r prev [] \<noteq> [])"
| "re_find r prev (c # s) = (rmatch r prev (c # s) \<noteq> [] \<or> re_find r (Some c) s)"

definition match_string :: "re \<Rightarrow> string \<Rightarrow> bool" where
  "match_string r s = re_find r None s"

section \<open>What a match consumes\<close>

text \<open>Every result is a suffix of the text, with the last character read as its context.\<close>

definition ctx :: "char option \<Rightarrow> string \<Rightarrow> char option" where
  "ctx prev m = (if m = [] then prev else Some (last m))"

lemma ctx_Nil [simp]: "ctx prev [] = prev"
  by (simp add: ctx_def)

lemma ctx_append: "ctx (ctx prev m) n = ctx prev (m @ n)"
  by (simp add: ctx_def)

lemma rmatch_suffix:
  "(p, t) \<in> set (rmatch r prev s) \<Longrightarrow> \<exists>m. s = m @ t \<and> p = ctx prev m"
proof (induction r prev s arbitrary: p t rule: rmatch.induct)
  case (1 P prev s)
  then show ?case
    by (cases s) (auto simp: rmatch.simps ctx_def split: if_splits intro: exI [of _ "[_]"])
next
  case (2 prev s)
  then show ?case by (simp add: rmatch.simps)
next
  case (3 a b prev s)
  then obtain p1 r1 where one: "(p1, r1) \<in> set (rmatch a prev s)"
    and two: "length r1 \<le> length s" "(p, t) \<in> set (rmatch b p1 r1)"
    by (auto simp: rmatch.simps split: if_splits)
  from "3.IH"(1) [OF one] obtain m1 where m1: "s = m1 @ r1" "p1 = ctx prev m1" by blast
  from "3.IH"(2) [OF one refl two] obtain m2 where "r1 = m2 @ t" "p = ctx p1 m2" by blast
  with m1 show ?case by (intro exI [of _ "m1 @ m2"]) (simp add: ctx_append)
next
  case (4 a b prev s)
  then show ?case by (auto simp: rmatch.simps)
next
  case (5 a prev s)
  show ?case
  proof (cases "(p, t) = (prev, s)")
    case True
    then show ?thesis by (intro exI [of _ "[]"]) simp
  next
    case False
    with "5.prems" obtain p1 r1 where one: "(p1, r1) \<in> set (rmatch a prev s)"
      and two: "length r1 < length s" "(p, t) \<in> set (rmatch (Star a) p1 r1)"
      by (subst (asm) rmatch.simps) (auto split: if_splits)
    from "5.IH"(1) [OF one] obtain m1 where m1: "s = m1 @ r1" "p1 = ctx prev m1" by blast
    from "5.IH"(2) [OF one refl two] obtain m2 where "r1 = m2 @ t" "p = ctx p1 m2" by blast
    with m1 show ?thesis by (intro exI [of _ "m1 @ m2"]) (simp add: ctx_append)
  qed
next
  case (6 a prev s)
  show ?case
  proof (cases "(p, t) = (prev, s)")
    case True
    then show ?thesis by (intro exI [of _ "[]"]) simp
  next
    case False
    with "6.prems" obtain p1 r1 where one: "(p1, r1) \<in> set (rmatch a prev s)"
      and two: "length r1 < length s" "(p, t) \<in> set (rmatch (LStar a) p1 r1)"
      by (subst (asm) rmatch.simps) (auto split: if_splits)
    from "6.IH"(1) [OF one] obtain m1 where m1: "s = m1 @ r1" "p1 = ctx prev m1" by blast
    from "6.IH"(2) [OF one refl two] obtain m2 where "r1 = m2 @ t" "p = ctx p1 m2" by blast
    with m1 show ?thesis by (intro exI [of _ "m1 @ m2"]) (simp add: ctx_append)
  qed
next
  case (7 prev s)
  then show ?case by (auto simp: rmatch.simps split: if_splits)
next
  case (8 prev s)
  then show ?case by (auto simp: rmatch.simps split: if_splits)
qed

lemma rmatch_length: "(p, t) \<in> set (rmatch r prev s) \<Longrightarrow> length t \<le> length s"
  using rmatch_suffix by fastforce

lemma rmatch_Cat: "rmatch (Cat a b) prev s = concat (map (\<lambda>(p, t). rmatch b p t) (rmatch a prev s))"
proof -
  have "map (\<lambda>(p, t). if length t \<le> length s then rmatch b p t else []) (rmatch a prev s)
      = map (\<lambda>(p, t). rmatch b p t) (rmatch a prev s)"
    by (rule map_cong) (auto dest: rmatch_length)
  then show ?thesis by (simp only: rmatch.simps)
qed

lemmas rmatch_prims = rmatch.simps(1,2,4,7,8) rmatch_Cat

section \<open>The first match\<close>

text \<open>\<open>first_sat r P\<close>: the match Go reports for \<open>r\<close>, wherever there is one, satisfies \<open>P\<close>.\<close>

definition first_sat :: "re \<Rightarrow> (char option \<times> string \<Rightarrow> bool) \<Rightarrow> bool" where
  "first_sat r P \<longleftrightarrow> (\<forall>prev s. rmatch r prev s \<noteq> [] \<longrightarrow> P (hd (rmatch r prev s)))"

lemma hd_concat:
  "\<lbrakk>\<And>x. x \<in> set xs \<Longrightarrow> f x \<noteq> [] \<Longrightarrow> P (hd (f x)); concat (map f xs) \<noteq> []\<rbrakk> \<Longrightarrow> P (hd (concat (map f xs)))"
proof (induction xs)
  case Nil
  then show ?case by simp
next
  case (Cons x xs)
  show ?case
  proof (cases "f x")
    case Nil
    with Cons.IH Cons.prems show ?thesis by auto
  next
    case (Cons y ys)
    with Cons.prems(1) [of x] show ?thesis by simp
  qed
qed

lemma first_sat_Cat: "first_sat b P \<Longrightarrow> first_sat (Cat a b) P"
  unfolding first_sat_def rmatch_Cat
  by (intro allI impI, rule hd_concat) auto

lemma first_sat_WordB: "first_sat WordB (\<lambda>(p, t). word_at p \<noteq> word_at (first_char t))"
  by (auto simp: first_sat_def rmatch.simps split: if_splits)

text \<open>A greedy star over a class stops only at a character outside the class or at the end.\<close>

lemma rmatch_Star_Cls_hd:
  "hd (rmatch (Star (Cls P)) prev s) = (ctx prev (takeWhile P s), dropWhile P s)"
proof (induction s arbitrary: prev)
  case Nil
  show ?case by (subst rmatch.simps) (simp add: rmatch.simps(1))
next
  case (Cons c s)
  show ?case
  proof (cases "P c")
    case True
    have "rmatch (Star (Cls P)) (Some c) s \<noteq> []" by (subst rmatch.simps) simp
    with True Cons [of "Some c"] show ?thesis
      by (subst rmatch.simps) (simp add: rmatch.simps(1) ctx_def)
  next
    case False
    then show ?thesis by (subst rmatch.simps) (simp add: rmatch.simps(1))
  qed
qed

lemma first_sat_Star_Cls:
  "first_sat (Star (Cls P)) (\<lambda>(p, t). \<forall>c. first_char t = Some c \<longrightarrow> \<not> P c)"
proof -
  have "\<not> P c" if "first_char (dropWhile P s) = Some c" for s c
    using that hd_dropWhile [of P s] by (cases "dropWhile P s") auto
  then show ?thesis by (simp add: first_sat_def rmatch_Star_Cls_hd)
qed

lemma first_sat_mono: "first_sat r P \<Longrightarrow> (\<And>x. P x \<Longrightarrow> Q x) \<Longrightarrow> first_sat r Q"
  by (auto simp: first_sat_def)

text \<open>How a match can begin.\<close>

definition starts_sat :: "re \<Rightarrow> (char option \<Rightarrow> string \<Rightarrow> bool) \<Rightarrow> bool" where
  "starts_sat r P \<longleftrightarrow> (\<forall>prev s. rmatch r prev s \<noteq> [] \<longrightarrow> P prev s)"

lemma starts_sat_Cat: "starts_sat a P \<Longrightarrow> starts_sat (Cat a b) P"
  unfolding starts_sat_def rmatch_Cat by (metis concat.simps(1) list.simps(8))

lemma starts_sat_WordB: "starts_sat WordB (\<lambda>prev s. word_at prev \<noteq> word_at (first_char s))"
  by (simp add: starts_sat_def rmatch.simps)

lemma starts_sat_Cls: "starts_sat (Cls P) (\<lambda>prev s. \<exists>c s'. s = c # s' \<and> P c)"
  by (auto simp: starts_sat_def rmatch.simps split: list.splits if_splits)

section \<open>Word runs\<close>

text \<open>
  A pattern cuts a text at word boundaries only when neither end of a match lies inside a run of
  word characters. Replacing such matches then leaves every other run as it was.
\<close>

definition cut_safe :: "re \<Rightarrow> bool" where
  "cut_safe r \<longleftrightarrow>
     starts_sat r (\<lambda>prev s. \<not> (word_at prev \<and> word_at (first_char s)))
   \<and> first_sat r (\<lambda>(p, t). \<not> (word_at p \<and> word_at (first_char t)))"

text \<open>The runs of word characters of a text, from inside the run \<open>rev cur\<close> on.\<close>

fun runs_from :: "string \<Rightarrow> string \<Rightarrow> string set" where
  "runs_from cur [] = (if cur = [] then {} else {rev cur})"
| "runs_from cur (c # s) =
    (if word_char c then runs_from (c # cur) s
     else (if cur = [] then {} else {rev cur}) \<union> runs_from [] s)"

definition runs :: "string \<Rightarrow> string set" where
  "runs s = runs_from [] s"

lemma runs_from_suffix:
  assumes "u \<noteq> []" and "\<not> (word_char (last u) \<and> word_at (first_char v))"
  shows "runs_from [] v \<subseteq> runs_from cur (u @ v)"
  using assms
proof (induction u arbitrary: cur)
  case Nil
  then show ?case by simp
next
  case (Cons c u)
  show ?case
  proof (cases "u = []")
    case True
    show ?thesis
    proof (cases "word_char c")
      case True
      with Cons.prems \<open>u = []\<close> have "\<not> word_at (first_char v)" by simp
      with True \<open>u = []\<close> show ?thesis by (cases v) (auto simp: word_at_def)
    next
      case False
      with \<open>u = []\<close> show ?thesis by auto
    qed
  next
    case False
    with Cons.prems Cons.IH show ?thesis by (simp add: subset_iff)
  qed
qed

lemma runs_from_nonword:
  "\<not> word_at (first_char s) \<Longrightarrow> cur \<noteq> [] \<Longrightarrow> runs_from cur s = insert (rev cur) (runs_from [] s)"
  by (cases s) (auto simp: word_at_def)

text \<open>A replacement of the form [word], as [REDACTED] is.\<close>

definition bracketed :: "string \<Rightarrow> string \<Rightarrow> bool" where
  "bracketed repl w \<longleftrightarrow> (\<exists>a b. repl = a # w @ [b] \<and> w \<noteq> [] \<and> \<not> word_char a \<and> \<not> word_char b
     \<and> list_all word_char w)"

lemma runs_from_word: "list_all word_char w \<Longrightarrow> runs_from cur (w @ s) = runs_from (rev w @ cur) s"
  by (induction w arbitrary: cur) auto

lemma runs_from_bracketed:
  assumes "bracketed repl w"
  shows "runs_from cur (repl @ s) = (if cur = [] then {} else {rev cur}) \<union> insert w (runs_from [] s)"
proof -
  from assms obtain a b where r: "repl = a # w @ [b]" "w \<noteq> []" "\<not> word_char a" "\<not> word_char b"
    "list_all word_char w" by (auto simp: bracketed_def)
  then show ?thesis by (simp add: runs_from_word)
qed

text \<open>
  The state of a scan: \<open>cur\<close> is the run being read; between runs the text that follows starts no
  run in the middle.
\<close>

definition scan_ok :: "string \<Rightarrow> char option \<Rightarrow> string \<Rightarrow> bool" where
  "scan_ok cur prev s \<longleftrightarrow>
     (cur \<noteq> [] \<longrightarrow> word_at prev) \<and> (cur = [] \<and> word_at prev \<longrightarrow> \<not> word_at (first_char s))"

lemma scan_ok_start [simp]: "scan_ok [] None s"
  by (simp add: scan_ok_def word_at_def)

lemma scan_ok_word: "word_char c \<Longrightarrow> scan_ok (c # cur) (Some c) s"
  by (simp add: scan_ok_def word_at_def)

lemma scan_ok_nonword: "\<not> word_char c \<Longrightarrow> scan_ok [] (Some c) s"
  by (simp add: scan_ok_def word_at_def)

text \<open>One step of the replacement, as a case split on what happens at the current position.\<close>

lemma replace_all_cases [case_names Match End Skip]:
  assumes "\<And>p rest m. rmatch r prev s \<noteq> [] \<Longrightarrow> hd (rmatch r prev s) = (p, rest) \<Longrightarrow> s = m @ rest
      \<Longrightarrow> m \<noteq> [] \<Longrightarrow> p = Some (last m)
      \<Longrightarrow> replace_all r repl prev s = repl @ replace_all r repl p rest \<Longrightarrow> P"
    and "s = [] \<Longrightarrow> replace_all r repl prev s = [] \<Longrightarrow> P"
    and "\<And>c s'. s = c # s' \<Longrightarrow> replace_all r repl prev s = c # replace_all r repl (Some c) s'
      \<Longrightarrow> (\<And>p t ms. rmatch r prev s = (p, t) # ms \<Longrightarrow> length s \<le> length t) \<Longrightarrow> P"
  shows P
proof (cases "\<exists>p rest ms. rmatch r prev s = (p, rest) # ms \<and> length rest < length s")
  case True
  then obtain p rest ms where m: "rmatch r prev s = (p, rest) # ms" "length rest < length s"
    by blast
  then have "(p, rest) \<in> set (rmatch r prev s)" by simp
  then obtain u where u: "s = u @ rest" "p = ctx prev u" using rmatch_suffix by blast
  with m have "u \<noteq> []" by auto
  with u have "p = Some (last u)" by (simp add: ctx_def)
  moreover from m have "replace_all r repl prev s = repl @ replace_all r repl p rest"
    by (subst replace_all.simps) (simp add: Let_def)
  ultimately show P using assms(1) [of p rest u] m u(1) \<open>u \<noteq> []\<close> by simp
next
  case False
  then have skip: "replace_all r repl prev s =
      (case s of [] \<Rightarrow> [] | c # s' \<Rightarrow> c # replace_all r repl (Some c) s')"
    by (subst replace_all.simps) (auto simp: Let_def split: list.splits)
  show P
  proof (cases s)
    case Nil
    with skip assms(2) show P by simp
  next
    case (Cons c s')
    with skip False assms(3) show P by (auto simp: not_less)
  qed
qed

lemma replace_all_runs:
  assumes safe: "cut_safe r" and br: "bracketed repl w" and ok: "scan_ok cur prev s"
  shows "runs_from cur (replace_all r repl prev s) \<subseteq> insert w (runs_from cur s)"
  using ok
proof (induction "length s" arbitrary: s cur prev rule: less_induct)
  case less
  show ?case
  proof (rule replace_all_cases [of r prev s repl])
    fix p rest m
    assume m: "rmatch r prev s \<noteq> []" "hd (rmatch r prev s) = (p, rest)" "s = m @ rest" "m \<noteq> []"
      "p = Some (last m)" "replace_all r repl prev s = repl @ replace_all r repl p rest"
    from safe m(1) have start: "\<not> (word_at prev \<and> word_at (first_char s))"
      by (auto simp: cut_safe_def starts_sat_def)
    from safe m(1,2) have stop: "\<not> (word_at p \<and> word_at (first_char rest))"
      by (fastforce simp: cut_safe_def first_sat_def)
    then have "scan_ok [] p rest" by (auto simp: scan_ok_def)
    with less(1) [of rest "[]" p] m(3,4)
    have rest: "runs_from [] (replace_all r repl p rest) \<subseteq> insert w (runs_from [] rest)" by simp
    from stop m(5) have "\<not> (word_char (last m) \<and> word_at (first_char rest))"
      by (simp add: word_at_def)
    with m(4) have suffix: "runs_from [] rest \<subseteq> runs_from cur s"
      unfolding m(3) by (rule runs_from_suffix)
    have "rev cur \<in> runs_from cur s" if "cur \<noteq> []"
    proof -
      from that less.prems start have "\<not> word_at (first_char s)" by (simp add: scan_ok_def)
      from runs_from_nonword [OF this that] show ?thesis by simp
    qed
    with rest suffix show ?thesis
      unfolding m(6) runs_from_bracketed [OF br] by auto
  next
    assume "s = []" and "replace_all r repl prev s = []"
    then show ?thesis by auto
  next
    fix c s'
    assume s: "s = c # s'" and out: "replace_all r repl prev s = c # replace_all r repl (Some c) s'"
    show ?thesis
    proof (cases "word_char c")
      case True
      with less(1) [of s' "c # cur" "Some c"] s
      show ?thesis unfolding out by (simp add: scan_ok_word)
    next
      case False
      with less(1) [of s' "[]" "Some c"] s
      show ?thesis unfolding out by (auto simp: scan_ok_nonword)
    qed
  qed
qed

end
