(* ===== verification/RegexpSpec.thy ===== *)
theory RegexpSpec imports GoRegexp begin

text \<open>
  What the regexps of theory GoRegexp mean, without an order or a way to search: \<open>matches r prev m t\<close> says that
  \<open>r\<close> matches the text \<open>m\<close> between the character \<open>prev\<close> before it and the text \<open>t\<close> after it. The backtracking
  matcher finds exactly these matches (\<open>rmatch_iff\<close>), so what \<open>MatchString\<close> and \<open>ReplaceAllString\<close> do can be
  read off the relation.
\<close>

section \<open>The meaning of a regexp\<close>

inductive matches :: "re \<Rightarrow> char option \<Rightarrow> string \<Rightarrow> string \<Rightarrow> bool" where
  cls: "P c \<Longrightarrow> matches (Cls P) prev [c] t"
| emp: "matches Emp prev [] t"
| cat: "matches a prev m (n @ t) \<Longrightarrow> matches b (ctx prev m) n t \<Longrightarrow> matches (Cat a b) prev (m @ n) t"
| alt_left: "matches a prev m t \<Longrightarrow> matches (Alt a b) prev m t"
| alt_right: "matches b prev m t \<Longrightarrow> matches (Alt a b) prev m t"
| star_none: "matches (Star a) prev [] t"
| star_more: "matches a prev m (n @ t) \<Longrightarrow> matches (Star a) (ctx prev m) n t \<Longrightarrow> matches (Star a) prev (m @ n) t"
| lazy_none: "matches (LStar a) prev [] t"
| lazy_more: "matches a prev m (n @ t) \<Longrightarrow> matches (LStar a) (ctx prev m) n t \<Longrightarrow> matches (LStar a) prev (m @ n) t"
| word_boundary: "word_at prev \<noteq> word_at (first_char t) \<Longrightarrow> matches WordB prev [] t"
| beginning: "matches Bol None [] t"

inductive_simps matches_simps [simp]:
  "matches (Cls P) prev m t" "matches Emp prev m t" "matches (Alt a b) prev m t"
  "matches WordB prev m t" "matches Bol prev m t"
inductive_simps matches_Cat: "matches (Cat a b) prev m t"

lemma rmatch_complete: "matches r prev m t \<Longrightarrow> (ctx prev m, t) \<in> set (rmatch r prev (m @ t))"
proof (induction rule: matches.induct)
  case (cls P c prev t)
  then show ?case by (simp add: rmatch.simps ctx_def)
next
  case (cat a prev m n t b)
  then show ?case by (force simp: rmatch_Cat ctx_append)
next
  case (star_more a prev m n t)
  show ?case
  proof (cases "m = []")
    case True
    with star_more.IH(2) show ?thesis by simp
  next
    case False
    with star_more.IH show ?thesis by (subst rmatch.simps) (force simp: ctx_append)
  qed
next
  case (lazy_more a prev m n t)
  show ?case
  proof (cases "m = []")
    case True
    with lazy_more.IH(2) show ?thesis by simp
  next
    case False
    with lazy_more.IH show ?thesis by (subst rmatch.simps) (force simp: ctx_append)
  qed
next
  case (star_none a prev t)
  show ?case by (subst rmatch.simps) simp
next
  case (lazy_none a prev t)
  show ?case by (subst rmatch.simps) simp
qed (simp_all add: rmatch_prims)

lemma rmatch_sound:
  "(p, t) \<in> set (rmatch r prev s) \<Longrightarrow> \<exists>m. s = m @ t \<and> p = ctx prev m \<and> matches r prev m t"
proof (induction r prev s arbitrary: p t rule: rmatch.induct)
  case (1 P prev s)
  then show ?case by (cases s) (auto simp: rmatch.simps ctx_def split: if_splits)
next
  case (2 prev s)
  then show ?case by (simp add: rmatch.simps)
next
  case (3 a b prev s)
  then obtain p1 r1 where one: "(p1, r1) \<in> set (rmatch a prev s)"
    and two: "length r1 \<le> length s" "(p, t) \<in> set (rmatch b p1 r1)"
    by (auto simp: rmatch.simps split: if_splits)
  from "3.IH"(1) [OF one] obtain m1 where m1: "s = m1 @ r1" "p1 = ctx prev m1" "matches a prev m1 r1" by blast
  from "3.IH"(2) [OF one refl two] obtain m2 where "r1 = m2 @ t" "p = ctx p1 m2" "matches b p1 m2 t" by blast
  with m1 show ?case by (intro exI [of _ "m1 @ m2"]) (auto simp: ctx_append intro: matches.cat)
next
  case (4 a b prev s)
  then consider "(p, t) \<in> set (rmatch a prev s)" | "(p, t) \<in> set (rmatch b prev s)" by (auto simp: rmatch.simps)
  then show ?case using "4.IH" by cases (blast intro: matches.alt_left matches.alt_right)+
next
  case (5 a prev s)
  show ?case
  proof (cases "(p, t) = (prev, s)")
    case True
    then show ?thesis by (auto intro: matches.star_none)
  next
    case False
    with "5.prems" obtain p1 r1 where one: "(p1, r1) \<in> set (rmatch a prev s)"
      and two: "length r1 < length s" "(p, t) \<in> set (rmatch (Star a) p1 r1)"
      by (subst (asm) rmatch.simps) (auto split: if_splits)
    from "5.IH"(1) [OF one] obtain m1 where m1: "s = m1 @ r1" "p1 = ctx prev m1" "matches a prev m1 r1" by blast
    from "5.IH"(2) [OF one refl two] obtain m2 where "r1 = m2 @ t" "p = ctx p1 m2" "matches (Star a) p1 m2 t" by blast
    with m1 show ?thesis by (intro exI [of _ "m1 @ m2"]) (auto simp: ctx_append intro: matches.star_more)
  qed
next
  case (6 a prev s)
  show ?case
  proof (cases "(p, t) = (prev, s)")
    case True
    then show ?thesis by (auto intro: matches.lazy_none)
  next
    case False
    with "6.prems" obtain p1 r1 where one: "(p1, r1) \<in> set (rmatch a prev s)"
      and two: "length r1 < length s" "(p, t) \<in> set (rmatch (LStar a) p1 r1)"
      by (subst (asm) rmatch.simps) (auto split: if_splits)
    from "6.IH"(1) [OF one] obtain m1 where m1: "s = m1 @ r1" "p1 = ctx prev m1" "matches a prev m1 r1" by blast
    from "6.IH"(2) [OF one refl two] obtain m2 where "r1 = m2 @ t" "p = ctx p1 m2" "matches (LStar a) p1 m2 t" by blast
    with m1 show ?thesis by (intro exI [of _ "m1 @ m2"]) (auto simp: ctx_append intro: matches.lazy_more)
  qed
next
  case (7 prev s)
  then show ?case by (auto simp: rmatch.simps split: if_splits)
next
  case (8 prev s)
  then show ?case by (auto simp: rmatch.simps split: if_splits)
qed

lemma rmatch_iff:
  "(p, t) \<in> set (rmatch r prev s) \<longleftrightarrow> (\<exists>m. s = m @ t \<and> p = ctx prev m \<and> matches r prev m t)"
  using rmatch_sound rmatch_complete by blast

text \<open>Whether there is a match at a position, and anywhere in a text.\<close>

lemma rmatch_some: "rmatch r prev s \<noteq> [] \<longleftrightarrow> (\<exists>m t. s = m @ t \<and> matches r prev m t)"
proof -
  have "rmatch r prev s \<noteq> [] \<longleftrightarrow> (\<exists>p t. (p, t) \<in> set (rmatch r prev s))"
    by (cases "rmatch r prev s") auto
  then show ?thesis by (auto simp: rmatch_iff)
qed

lemma re_find_iff:
  "re_find r prev s \<longleftrightarrow> (\<exists>a m b. s = a @ m @ b \<and> matches r (ctx prev a) m b)"
proof (induction r prev s rule: re_find.induct)
  case (1 r prev)
  then show ?case by (auto simp: rmatch_some)
next
  case (2 r prev c s)
  have "(\<exists>a m b. c # s = a @ m @ b \<and> matches r (ctx prev a) m b)
      \<longleftrightarrow> (\<exists>m b. c # s = m @ b \<and> matches r prev m b) \<or> (\<exists>a m b. s = a @ m @ b \<and> matches r (ctx (Some c) a) m b)"
    (is "?l \<longleftrightarrow> ?r")
  proof
    assume ?l
    then obtain a m b where e: "c # s = a @ m @ b" "matches r (ctx prev a) m b" by blast
    show ?r
    proof (cases a)
      case Nil
      with e show ?thesis by auto
    next
      case (Cons x a')
      with e have "s = a' @ m @ b" "matches r (ctx (Some c) a') m b" by (auto simp: ctx_def split: if_splits)
      then show ?thesis by blast
    qed
  next
    assume ?r
    then show ?l
    proof
      assume "\<exists>m b. c # s = m @ b \<and> matches r prev m b"
      then show ?l by (metis append_Nil ctx_Nil)
    next
      assume "\<exists>a m b. s = a @ m @ b \<and> matches r (ctx (Some c) a) m b"
      then obtain a m b where "s = a @ m @ b" "matches r (ctx (Some c) a) m b" by blast
      then show ?l by (intro exI [of _ "c # a"] exI [of _ m] exI [of _ b]) (auto simp: ctx_def split: if_splits)
    qed
  qed
  with 2 show ?case by (simp add: rmatch_some)
qed

section \<open>What the building blocks match\<close>

lemma matches_lit [simp]: "matches (lit w) prev m t \<longleftrightarrow> m = w"
  by (induction w arbitrary: prev m) (auto simp: matches_Cat)

lemma matches_Star_Cls [simp]: "matches (Star (Cls P)) prev m t \<longleftrightarrow> list_all P m"
proof
  show "matches (Star (Cls P)) prev m t \<Longrightarrow> list_all P m"
    by (induction "Star (Cls P)" prev m t rule: matches.induct) auto
next
  show "list_all P m \<Longrightarrow> matches (Star (Cls P)) prev m t"
  proof (induction m arbitrary: prev)
    case Nil
    show ?case by (rule matches.star_none)
  next
    case (Cons c m)
    then show ?case using matches.star_more [of "Cls P" prev "[c]" m t] by simp
  qed
qed

lemma matches_LStar_any [simp]: "matches (LStar (Cls (\<lambda>c. True))) prev m t"
proof (induction m arbitrary: prev)
  case Nil
  show ?case by (rule matches.lazy_none)
next
  case (Cons c m)
  then show ?case using matches.lazy_more [of "Cls (\<lambda>c. True)" prev "[c]" m t] by simp
qed

lemma matches_plus_Cls [simp]: "matches (plus (Cls P)) prev m t \<longleftrightarrow> m \<noteq> [] \<and> list_all P m"
  by (cases m) (auto simp: plus_def matches_Cat intro: exI [of _ "[_]"])

lemma matches_rep_Cls [simp]: "matches (rep n (Cls P)) prev m t \<longleftrightarrow> length m = n \<and> list_all P m"
  by (induction n arbitrary: prev m)
    (auto simp: matches_Cat length_Suc_conv, rule exI [of _ "[_]"], auto)

text \<open>A regexp without \<open>\b\<close> and \<open>^\<close> matches the same texts everywhere.\<close>

fun plain :: "re \<Rightarrow> bool" where
  "plain (Cat a b) = (plain a \<and> plain b)"
| "plain (Alt a b) = (plain a \<and> plain b)"
| "plain (Star a) = plain a"
| "plain (LStar a) = plain a"
| "plain WordB = False"
| "plain Bol = False"
| "plain _ = True"

lemma matches_plain: "matches r prev m t \<Longrightarrow> plain r \<Longrightarrow> matches r prev' m t'"
  by (induction arbitrary: prev' t' rule: matches.induct) (auto intro: matches.intros)

text \<open>A character a regexp never reads, and a regexp that always reads something.\<close>

fun avoids :: "char \<Rightarrow> re \<Rightarrow> bool" where
  "avoids c (Cls P) = (\<not> P c)"
| "avoids c (Cat a b) = (avoids c a \<and> avoids c b)"
| "avoids c (Alt a b) = (avoids c a \<and> avoids c b)"
| "avoids c (Star a) = avoids c a"
| "avoids c (LStar a) = avoids c a"
| "avoids c _ = True"

lemma matches_avoids: "matches r prev m t \<Longrightarrow> avoids c r \<Longrightarrow> c \<notin> set m"
  by (induction rule: matches.induct) auto

fun reads :: "re \<Rightarrow> bool" where
  "reads (Cls P) = True"
| "reads (Cat a b) = (reads a \<or> reads b)"
| "reads (Alt a b) = (reads a \<and> reads b)"
| "reads _ = False"

lemma matches_reads: "matches r prev m t \<Longrightarrow> reads r \<Longrightarrow> m \<noteq> []"
  by (induction rule: matches.induct) auto

lemma avoids_lit: "avoids c (lit w) \<longleftrightarrow> c \<notin> set w"
  by (induction w) auto

lemma avoids_rep: "avoids c r \<Longrightarrow> avoids c (rep n r)"
  by (induction n) auto

lemma matches_Cat_assoc: "matches (Cat (Cat a b) c) prev m t \<longleftrightarrow> matches (Cat a (Cat b c)) prev m t"
proof
  assume "matches (Cat (Cat a b) c) prev m t"
  then obtain u v w where "m = (u @ v) @ w" "matches a prev u ((v @ w) @ t)" "matches b (ctx prev u) v (w @ t)"
    "matches c (ctx prev (u @ v)) w t" by (force simp: matches_Cat)
  then show "matches (Cat a (Cat b c)) prev m t"
    using matches.cat [of a prev u "v @ w" t] matches.cat [of b "ctx prev u" v w t] by (simp add: ctx_append)
next
  assume "matches (Cat a (Cat b c)) prev m t"
  then obtain u v w where "m = u @ v @ w" "matches a prev u (v @ w @ t)" "matches b (ctx prev u) v (w @ t)"
    "matches c (ctx (ctx prev u) v) w t" by (force simp: matches_Cat)
  then show "matches (Cat (Cat a b) c) prev m t"
    using matches.cat [of "Cat a b" prev "u @ v" w t] matches.cat [of a prev u v "w @ t"] by (simp add: ctx_append)
qed

lemma matches_Cat_cong:
  "(\<And>prev m t. matches b prev m t \<longleftrightarrow> matches b' prev m t) \<Longrightarrow> matches (Cat a b) prev m t \<longleftrightarrow> matches (Cat a b') prev m t"
  by (simp add: matches_Cat)

text \<open>Every match begins with a character of a class.\<close>

fun leads :: "(char \<Rightarrow> bool) \<Rightarrow> re \<Rightarrow> bool" where
  "leads P (Cls Q) = (\<forall>c. Q c \<longrightarrow> P c)"
| "leads P (Cat a b) = leads P a"
| "leads P (Alt a b) = (leads P a \<and> leads P b)"
| "leads P _ = False"

lemma matches_leads: "matches r prev m t \<Longrightarrow> leads P r \<Longrightarrow> \<exists>c m'. m = c # m' \<and> P c"
  by (induction rule: matches.induct) auto

text \<open>A character every match has.\<close>

fun needs :: "(char \<Rightarrow> bool) \<Rightarrow> re \<Rightarrow> bool" where
  "needs P (Cls Q) = (\<forall>c. Q c \<longrightarrow> P c)"
| "needs P (Cat a b) = (needs P a \<or> needs P b)"
| "needs P (Alt a b) = (needs P a \<and> needs P b)"
| "needs P _ = False"

lemma matches_needs: "matches r prev m t \<Longrightarrow> needs P r \<Longrightarrow> \<exists>c \<in> set m. P c"
  by (induction rule: matches.induct) auto

lemma plain_parts [simp]:
  "plain (lit w)" "plain (fold_char c)" "plain (lit_fold w)" "plain r \<Longrightarrow> plain (rep n r)"
  "plain (plus r) = plain r" "plain (opt r) = plain r"
proof -
  show lit: "plain (lit w)" for w by (induction w) auto
  show fc: "plain (fold_char c)" for c by (simp add: fold_char_def Let_def lit)
  show "plain (lit_fold w)" by (induction w) (auto simp: fc)
  show "plain r \<Longrightarrow> plain (rep n r)" by (induction n) auto
qed (simp_all add: plus_def opt_def)

lemma avoids_parts [simp]:
  "avoids d (plus r) = avoids d r" "avoids d (opt r) = avoids d r"
  by (auto simp: plus_def opt_def)

lemma reads_lit_fold: "reads (lit_fold (c # w))"
  by (simp add: fold_char_def Let_def long_s_def kelvin_def)

end
