(* ===== verification/RedactSpec.thy ===== *)
theory RedactSpec imports RegexpSpec Redact begin

text \<open>
  What a replacement by [REDACTED] does to the matches of another regexp. A shape is a regexp that starts at a word
  boundary with a word character, reads a text without brackets, and ends by a condition on the next character, as
  every pattern of internal/redact but the last does. A replacement can neither hold such a text nor complete one:
  a match of a shape in the output is one of the input, at a place where nothing was replaced.
\<close>

section \<open>Texts left alone by a replacement\<close>

text \<open>Matches anywhere in a text, by position.\<close>

lemma re_find_pos: "re_find r prev s \<longleftrightarrow> (\<exists>a b. s = a @ b \<and> rmatch r (ctx prev a) b \<noteq> [])"
  by (auto simp: re_find_iff rmatch_some)

lemma placeholder_head: "placeholder = CHR ''['' # ''REDACTED]''"
  by (simp add: placeholder_def)

text \<open>A beginning of the output without a bracket is one of the input, which was read character by character.\<close>

lemma replaced_prefix:
  assumes "replace_all r placeholder prev s = w @ t" and "CHR ''['' \<notin> set w"
  shows "\<exists>t'. s = w @ t' \<and> t = replace_all r placeholder (ctx prev w) t'"
  using assms
proof (induction w arbitrary: prev s)
  case Nil
  then show ?case by simp
next
  case (Cons c w)
  show ?case
  proof (rule replace_all_cases [of r prev s placeholder])
    fix p rest m
    assume "replace_all r placeholder prev s = placeholder @ replace_all r placeholder p rest"
    with Cons.prems show ?thesis by (auto simp: placeholder_head)
  next
    assume "replace_all r placeholder prev s = []"
    with Cons.prems show ?thesis by simp
  next
    fix d s'
    assume s: "s = d # s'" and out: "replace_all r placeholder prev s = d # replace_all r placeholder (Some d) s'"
    with Cons.prems have d: "d = c" "replace_all r placeholder (Some c) s' = w @ t" "CHR ''['' \<notin> set w" by auto
    from Cons.IH [OF d(2,3)] s d(1) show ?thesis by (auto simp: ctx_def split: if_splits)
  qed
qed

text \<open>The next character of the output is that of the input, or a bracket for a match that starts here.\<close>

lemma replaced_next:
  "first_char (replace_all r placeholder prev s) = first_char s
   \<or> first_char (replace_all r placeholder prev s) = Some (CHR ''['') \<and> rmatch r prev s \<noteq> []"
  by (rule replace_all_cases [of r prev s placeholder]) (auto simp: placeholder_head)

text \<open>Where the output has a word without brackets that does not start in a placeholder, so has the input, at a
  position where nothing was replaced.\<close>

definition left_alone :: "re \<Rightarrow> char option \<Rightarrow> string \<Rightarrow> bool" where
  "left_alone r prev s \<longleftrightarrow> (\<forall>p t ms. rmatch r prev s = (p, t) # ms \<longrightarrow> length s \<le> length t)"

lemma inside_placeholder:
  assumes "placeholder @ v = a @ c # u" and "length a < length placeholder"
  shows "c \<in> set placeholder" and "word_char c \<Longrightarrow> c \<noteq> CHR ''R'' \<Longrightarrow> word_at (ctx prev a)"
proof -
  have n: "length a < 10" using assms(2) by (simp add: placeholder_def)
  have "(placeholder @ v) ! length a = (a @ c # u) ! length a" using assms(1) by simp
  then have c: "placeholder ! length a = c" using assms(2) by (simp add: nth_append)
  then show "c \<in> set placeholder" using assms(2) nth_mem by blast
  have "take (length a) (placeholder @ v) = take (length a) (a @ c # u)" using assms(1) by simp
  then have a: "a = take (length a) placeholder" using assms(2) by simp
  show "word_at (ctx prev a)" if w: "word_char c" "c \<noteq> CHR ''R''"
  proof -
  have br: "\<not> word_char (CHR ''['')" "\<not> word_char (CHR '']'')" by code_simp+
  from n consider "length a = 0" | "length a = 1" | "length a = 9"
    | "length a \<in> {2, 3, 4, 5, 6, 7, 8}" by (auto simp: less_Suc_eq numeral_eq_Suc)
  then show ?thesis
  proof cases
    case 1
    with c w br show ?thesis by (auto simp: placeholder_def)
  next
    case 2
    with c w show ?thesis by (simp add: placeholder_def)
  next
    case 3
    with c w br show ?thesis by (auto simp: placeholder_def)
  next
    case 4
    then show ?thesis
      by (subst a) (auto simp: placeholder_def ctx_def word_at_def word_char_def take_Cons')
  qed
  qed
qed

lemma replaced_word:
  assumes "cut_safe r" and "replace_all r placeholder prev s = a @ w @ t"
    and "w = c # w'" and "CHR ''['' \<notin> set w"
    and "c \<notin> set placeholder \<or> word_char c \<and> c \<noteq> CHR ''R'' \<and> \<not> word_at (ctx oprev a)"
    and "oprev = prev \<or> oprev = Some (CHR '']'') \<and> \<not> (word_at prev \<and> word_at (first_char s))"
  shows "\<exists>a' t'. s = a' @ w @ t' \<and> (word_char c \<and> \<not> word_at (ctx oprev a) \<longrightarrow> \<not> word_at (ctx prev a'))
    \<and> left_alone r (ctx prev a') (w @ t') \<and> t = replace_all r placeholder (ctx (ctx prev a') w) t'"
  using assms(2,5,6)
proof (induction "length s" arbitrary: s a prev oprev rule: less_induct)
  case less
  show ?case
  proof (rule replace_all_cases [of r prev s placeholder])
    fix p rest m
    assume m: "rmatch r prev s \<noteq> []" "hd (rmatch r prev s) = (p, rest)" "s = m @ rest" "m \<noteq> []" "p = Some (last m)"
      and out: "replace_all r placeholder prev s = placeholder @ replace_all r placeholder p rest"
    from out less.prems(1) have eq: "placeholder @ replace_all r placeholder p rest = a @ w @ t" by simp
    show ?thesis
    proof (cases "length placeholder \<le> length a")
      case True
      define a2 where "a2 = drop (length placeholder) a"
      from eq True have a: "a = placeholder @ a2" "replace_all r placeholder p rest = a2 @ w @ t"
        by (simp_all add: append_eq_append_conv_if a2_def) (metis append_take_drop_id)
      have o: "ctx oprev a = ctx (Some (CHR '']'')) a2" unfolding a(1) by (simp add: ctx_def placeholder_def)
      from assms(1) m(1,2) have "\<not> (word_at p \<and> word_at (first_char rest))"
        by (fastforce simp: cut_safe_def first_sat_def)
      moreover have "length rest < length s" using m(3,4) by simp
      ultimately obtain a' t' where "rest = a' @ w @ t'"
        "word_char c \<and> \<not> word_at (ctx oprev a) \<longrightarrow> \<not> word_at (ctx p a')"
        "left_alone r (ctx p a') (w @ t')" "t = replace_all r placeholder (ctx (ctx p a') w) t'"
        using less.hyps [of rest p a2 "Some (CHR '']'')"] a(2) less.prems(2) unfolding o by blast
      moreover have "ctx p a' = ctx prev (m @ a')" using m(4,5) by (simp add: ctx_def)
      ultimately show ?thesis unfolding m(3) by (intro exI [of _ "m @ a'"] exI [of _ t']) simp
    next
      case False
      with eq inside_placeholder [of "replace_all r placeholder p rest" a c "w' @ t"] assms(3) less.prems(2)
      show ?thesis by auto
    qed
  next
    assume "replace_all r placeholder prev s = []"
    with less.prems(1) assms(3) show ?thesis by simp
  next
    fix d s'
    assume s: "s = d # s'" and out: "replace_all r placeholder prev s = d # replace_all r placeholder (Some d) s'"
      and skip: "\<And>p t ms. rmatch r prev s = (p, t) # ms \<Longrightarrow> length s \<le> length t"
    show ?thesis
    proof (cases a)
      case Nil
      with less.prems(1) obtain t' where t': "s = w @ t'" "t = replace_all r placeholder (ctx prev w) t'"
        using replaced_prefix [of r prev s w t] assms(4) by auto
      have "word_char c \<and> \<not> word_at (ctx oprev a) \<longrightarrow> \<not> word_at prev"
        using less.prems(3) Nil t'(1) assms(3) by (auto simp: word_at_def)
      with t' skip show ?thesis by (intro exI [of _ "[]"] exI [of _ t']) (auto simp: left_alone_def)
    next
      case (Cons x a2)
      with out less.prems(1) have x: "x = d" "replace_all r placeholder (Some d) s' = a2 @ w @ t" by simp_all
      have o: "ctx oprev a = ctx (Some d) a2" using Cons x(1) by (simp add: ctx_def)
      obtain a' t' where "s' = a' @ w @ t'"
        "word_char c \<and> \<not> word_at (ctx oprev a) \<longrightarrow> \<not> word_at (ctx (Some d) a')"
        "left_alone r (ctx (Some d) a') (w @ t')"
        "t = replace_all r placeholder (ctx (ctx (Some d) a') w) t'"
        using less.hyps [of s' "Some d" a2 "Some d"] x(2) s less.prems(2) unfolding o by auto
      moreover have "ctx (Some d) a' = ctx prev (d # a')" by (simp add: ctx_def)
      ultimately show ?thesis unfolding s by (intro exI [of _ "d # a'"] exI [of _ t']) simp
    qed
  qed
qed

section \<open>Shapes\<close>

text \<open>
  A shape: it matches where no word character precedes a text of its core, if the last character of that text and
  the next one agree with \<open>fin\<close>. A bracket ends it no better than any character a match can start with.
\<close>

definition shaped :: "re \<Rightarrow> (string \<Rightarrow> bool) \<Rightarrow> (char option \<Rightarrow> char option \<Rightarrow> bool) \<Rightarrow> bool" where
  "shaped r core fin \<longleftrightarrow>
     (\<forall>prev s. rmatch r prev s \<noteq> [] \<longleftrightarrow>
        \<not> word_at prev \<and> (\<exists>w t. s = w @ t \<and> core w \<and> fin (ctx None w) (first_char t)))
   \<and> (\<forall>w. core w \<longrightarrow> CHR ''['' \<notin> set w \<and> (\<exists>c w'. w = c # w' \<and> word_char c \<and> c \<noteq> CHR ''R''))
   \<and> (\<forall>l x. fin l (Some (CHR ''['')) \<and> \<not> re_space x \<and> \<not> (word_at l \<and> word_char x) \<longrightarrow> fin l (Some x))"

text \<open>A match of a shape in the output of a replacement is one of the input, where nothing was replaced.\<close>

lemma shape_in_output:
  assumes r: "cut_safe r" "starts_sat r (\<lambda>prev s. \<exists>c s'. s = c # s' \<and> \<not> re_space c)"
    and q: "shaped q core fin" and find: "re_find q None (replace_all r placeholder None s)"
  shows "\<exists>a b. s = a @ b \<and> rmatch q (ctx None a) b \<noteq> [] \<and> left_alone r (ctx None a) b"
proof -
  from find obtain a b where ab: "replace_all r placeholder None s = a @ b" "rmatch q (ctx None a) b \<noteq> []"
    unfolding re_find_pos by blast
  with q obtain w t where w: "b = w @ t" "core w" "fin (ctx None w) (first_char t)" "\<not> word_at (ctx None a)"
    unfolding shaped_def by blast
  from q w(2) obtain c w' where c: "CHR ''['' \<notin> set w" "w = c # w'" "word_char c" "c \<noteq> CHR ''R''"
    unfolding shaped_def by blast
  from replaced_word [OF r(1) _ c(2,1), of None s a t None] ab(1) w(1,4) c(3,4) obtain a' t' where
    s: "s = a' @ w @ t'" and start: "\<not> word_at (ctx None a')" and left: "left_alone r (ctx None a') (w @ t')"
    and t: "t = replace_all r placeholder (ctx (ctx None a') w) t'"
    by auto
  let ?l = "ctx None w"
  have l: "ctx (ctx None a') w = ?l" using c(2) by (simp add: ctx_def)
  have "fin ?l (first_char t')"
  proof (cases "first_char t = first_char t'")
    case True
    with w(3) show ?thesis by simp
  next
    case False
    with replaced_next [of r ?l t'] t l have br: "first_char t = Some (CHR ''['')" and m: "rmatch r ?l t' \<noteq> []"
      by auto
    from r(2) m obtain x u where x: "t' = x # u" "\<not> re_space x" unfolding starts_sat_def by blast
    from r(1) m x(1) have "\<not> (word_at ?l \<and> word_char x)"
      unfolding cut_safe_def starts_sat_def by (auto simp: word_at_def) (metis first_char.simps(2) option.simps(5))
    with q br w(3) x show ?thesis unfolding shaped_def by auto
  qed
  with q w(2) start have "rmatch q (ctx None a') (w @ t') \<noteq> []" unfolding shaped_def by blast
  with s left show ?thesis by blast
qed

lemma left_alone_reads:
  assumes "left_alone r prev s" and "reads r"
  shows "rmatch r prev s = []"
proof (cases "rmatch r prev s")
  case (Cons x ms)
  obtain p t where x: "x = (p, t)" by force
  with Cons rmatch_sound [of p t r prev s] obtain m where m: "s = m @ t" "matches r prev m t" by auto
  from matches_reads [OF m(2) assms(2)] m(1) have "length t < length s" by simp
  with assms(1) Cons x show ?thesis by (auto simp: left_alone_def)
qed

end
