(* ===== verification/CleanText.thy ===== *)
theory CleanText imports RedactSpec begin

text \<open>
  What internal/redact's \<open>Text\<close> and \<open>Object\<close> achieve for all six patterns: the first five are shapes (theory
  RedactSpec), the last is looked at by its header and footer; so a redacted text has no match of any of them and
  redacting it again changes nothing.
\<close>

section \<open>The five shapes\<close>

lemma shaped_cong:
  "shaped r core fin \<Longrightarrow> (\<And>prev m t. matches q prev m t \<longleftrightarrow> matches r prev m t) \<Longrightarrow> shaped q core fin"
  by (simp add: shaped_def rmatch_some)

definition word_start :: "char \<Rightarrow> bool" where
  "word_start c \<longleftrightarrow> word_char c \<and> c \<noteq> CHR ''R''"

text \<open>A word boundary, a regexp without conditions on its context, and an end.\<close>

lemma matches_body: "plain b \<Longrightarrow> matches b prev m t \<longleftrightarrow> matches b None m []"
  using matches_plain by blast

lemma first_char_append: "w \<noteq> [] \<Longrightarrow> first_char (w @ t) = Some (hd w)"
  by (cases w) auto

lemma shaped_body:
  assumes b: "plain b" "avoids (CHR ''['') b" "leads word_start b"
    and e: "\<And>l t. (\<exists>m t'. t = m @ t' \<and> matches e l m t') \<longleftrightarrow> fin l (first_char t)"
    and f: "\<And>l x. fin l (Some (CHR ''['')) \<Longrightarrow> \<not> re_space x \<Longrightarrow> \<not> (word_at l \<and> word_char x) \<Longrightarrow> fin l (Some x)"
  shows "shaped (Cat WordB (Cat b e)) (\<lambda>w. matches b None w []) fin"
proof -
  have core: "CHR ''['' \<notin> set w \<and> (\<exists>c w'. w = c # w' \<and> word_char c \<and> c \<noteq> CHR ''R'')" if "matches b None w []" for w
    using matches_avoids [OF that b(2)] matches_leads [OF that b(3)] by (auto simp: word_start_def)
  have cw: "ctx prev w = ctx None w" "word_at (first_char (w @ t))" if "matches b None w []" for prev w t
    using core [OF that] by (auto simp: ctx_def word_at_def)
  have "rmatch (Cat WordB (Cat b e)) prev s \<noteq> [] \<longleftrightarrow>
    \<not> word_at prev \<and> (\<exists>w t. s = w @ t \<and> matches b None w [] \<and> fin (ctx None w) (first_char t))" for prev s
  proof -
    have "rmatch (Cat WordB (Cat b e)) prev s \<noteq> [] \<longleftrightarrow>
      word_at prev \<noteq> word_at (first_char s) \<and>
      (\<exists>w t. s = w @ t \<and> matches b None w [] \<and> (\<exists>m t'. t = m @ t' \<and> matches e (ctx prev w) m t'))"
    proof -
      have "(\<exists>m t. s = m @ t \<and> matches (Cat WordB (Cat b e)) prev m t) \<longleftrightarrow>
        (\<exists>w m t'. s = w @ m @ t' \<and> word_at prev \<noteq> word_at (first_char s)
          \<and> matches b None w [] \<and> matches e (ctx prev w) m t')"
        using matches_body [OF b(1)] by (auto simp: matches_Cat) (metis append.assoc)+
      then show ?thesis by (auto simp: rmatch_some)
    qed
    also have "\<dots> \<longleftrightarrow> word_at prev \<noteq> word_at (first_char s) \<and>
      (\<exists>w t. s = w @ t \<and> matches b None w [] \<and> fin (ctx None w) (first_char t))"
      unfolding e using cw(1) [where prev = prev] by (intro conj_cong refl ex_cong1) auto
    also have "\<dots> \<longleftrightarrow> \<not> word_at prev \<and> (\<exists>w t. s = w @ t \<and> matches b None w [] \<and> fin (ctx None w) (first_char t))"
      using cw(2) by auto
    finally show ?thesis .
  qed
  with core f show ?thesis unfolding shaped_def by blast
qed

lemma shaped_word:
  assumes "plain b" "avoids (CHR ''['') b" "leads word_start b"
  shows "shaped (Cat WordB (Cat b WordB)) (\<lambda>w. matches b None w []) (\<lambda>l x. word_at l \<noteq> word_at x)"
proof (rule shaped_body [OF assms])
  have "\<not> word_char (CHR ''['')" by code_simp
  then show "word_at l \<noteq> word_at (Some (CHR ''['')) \<Longrightarrow> \<not> re_space x \<Longrightarrow> \<not> (word_at l \<and> word_char x)
    \<Longrightarrow> word_at l \<noteq> word_at (Some x)" for l x
    by (simp add: word_at_def)
qed auto

definition not_space_at :: "char option \<Rightarrow> bool" where
  "not_space_at x \<longleftrightarrow> (\<exists>c. x = Some c \<and> \<not> re_space c)"

lemma shaped_assignment:
  assumes "plain b" "avoids (CHR ''['') b" "leads word_start b"
  shows "shaped (Cat WordB (Cat b non_spaces)) (\<lambda>w. matches b None w []) (\<lambda>l x. not_space_at x)"
proof (rule shaped_body [OF assms])
  show "(\<exists>m t'. t = m @ t' \<and> matches non_spaces l m t') \<longleftrightarrow> not_space_at (first_char t)" for l t
  proof
    assume "not_space_at (first_char t)"
    then obtain c u where "t = [c] @ u" "\<not> re_space c" by (cases t) (auto simp: not_space_at_def)
    then show "\<exists>m t'. t = m @ t' \<and> matches non_spaces l m t'"
      unfolding non_spaces_def by (intro exI [of _ "[c]"] exI [of _ u]) simp
  next
    assume "\<exists>m t'. t = m @ t' \<and> matches non_spaces l m t'"
    then show "not_space_at (first_char t)"
      unfolding non_spaces_def by (auto simp: not_space_at_def neq_Nil_conv)
  qed
qed (simp add: not_space_at_def)

lemma avoids_fold: "CHR ''['' \<notin> set (map lower_char w) \<Longrightarrow> avoids (CHR ''['') (lit_fold w)"
proof (induction w)
  case (Cons c w)
  have "lower_char (CHR ''['') = CHR ''[''" by code_simp
  with Cons show ?case
    by (auto simp: fold_char_def Let_def avoids_lit long_s_def kelvin_def)
qed simp

lemma word_start_fold:
  assumes "is_lower c" and "c \<noteq> CHR ''r''" and "lower_char d = c"
  shows "word_start d"
proof -
  have "lower_char (CHR ''R'') = CHR ''r''" by code_simp
  with assms(2,3) have "d \<noteq> CHR ''R''" by metis
  moreover have "word_char d"
    using assms(1,3) by (auto simp: lower_char_def word_char_def is_lower_def Let_def split: if_splits)
  ultimately show ?thesis by (simp add: word_start_def)
qed

lemma leads_fold:
  assumes "is_lower c" and "c \<notin> {CHR ''r'', CHR ''s'', CHR ''k''}"
  shows "leads word_start (lit_fold (c # w))"
proof -
  have "lower_char c = c" using assms(1) by (simp add: lower_char_def is_lower_def Let_def)
  with assms word_start_fold [of c] show ?thesis by (auto simp: fold_char_def Let_def)
qed

lemma leads_parts: "leads P (lit (c # w)) = P c" "leads P (opt r) = False"
  by (auto simp: opt_def)

definition body_aws_key_id :: re where "body_aws_key_id = Cat (lit ''AKIA'') (rep 16 (Cls key_id_char))"
definition body_aws_secret :: re where
  "body_aws_secret = Cat (Cat (Cat (lit_fold ''aws_secret_access_key'') spaces) assign_sep) spaces"
definition body_jwt :: re where
  "body_jwt = Cat (Cat (Cat (Cat (Cat (lit ''eyJ'') jwt_part) re_dot) jwt_part) re_dot) jwt_part"
definition body_bearer :: re where
  "body_bearer = Cat (Cat (lit_fold ''Bearer'') (plus (Cls re_space))) (plus bearer_char)"
definition body_api_key :: re where
  "body_api_key = Cat (Cat (Cat (Alt (lit_fold ''x-api-key'')
       (Cat (lit_fold ''api'') (Cat (opt (Cls (\<lambda>c. c = CHR ''_'' \<or> c = CHR ''-''))) (lit_fold ''key''))))
     spaces) assign_sep) spaces"

lemmas body_defs = body_aws_key_id_def body_aws_secret_def body_jwt_def body_bearer_def body_api_key_def
lemmas part_defs = spaces_def assign_sep_def jwt_part_def re_dot_def bearer_char_def

lemma plain_bodies:
  "plain body_aws_key_id" "plain body_aws_secret" "plain body_jwt" "plain body_bearer" "plain body_api_key"
  by (simp_all add: body_defs part_defs del: lit.simps lit_fold.simps rep.simps)

lemma classes_avoid:
  "\<not> key_id_char (CHR ''['')" "\<not> re_space (CHR ''['')" "\<not> jwt_char (CHR ''['')"
  "\<not> is_upper (CHR ''['')" "\<not> is_lower (CHR ''['')" "\<not> is_digit (CHR ''['')"
  by code_simp+

lemma lower_words:
  "CHR ''['' \<notin> set (map lower_char ''aws_secret_access_key'')" "CHR ''['' \<notin> set (map lower_char ''Bearer'')"
  "CHR ''['' \<notin> set (map lower_char ''x-api-key'')" "CHR ''['' \<notin> set (map lower_char ''api'')"
  "CHR ''['' \<notin> set (map lower_char ''key'')"
  by code_simp+

lemma avoid_bodies:
  "avoids (CHR ''['') body_aws_key_id" "avoids (CHR ''['') body_aws_secret" "avoids (CHR ''['') body_jwt"
  "avoids (CHR ''['') body_bearer" "avoids (CHR ''['') body_api_key"
  by (simp_all add: body_defs part_defs avoids_lit avoids_rep classes_avoid lower_words [THEN avoids_fold]
      long_s_def kelvin_def del: lit.simps lit_fold.simps rep.simps)

lemma lead_bodies:
  "leads word_start body_aws_key_id" "leads word_start body_aws_secret" "leads word_start body_jwt"
  "leads word_start body_bearer" "leads word_start body_api_key"
proof -
  have "word_start (CHR ''A'')" "word_start (CHR ''e'')" by code_simp+
  then show "leads word_start body_aws_key_id" "leads word_start body_jwt"
    by (simp_all add: body_defs leads_parts del: lit.simps)
  have low: "is_lower (CHR ''a'')" "is_lower (CHR ''x'')" by code_simp+
  show "leads word_start body_aws_secret" "leads word_start body_api_key"
    by (simp_all add: body_defs leads_fold low del: lit_fold.simps)
  have "lower_char (CHR ''B'') = CHR ''b''" "is_lower (CHR ''b'')" by code_simp+
  then show "leads word_start body_bearer"
    using word_start_fold [of "CHR ''b''"] by (simp add: body_defs fold_char_def Let_def)
qed

abbreviation word_end :: "char option \<Rightarrow> char option \<Rightarrow> bool" where
  "word_end l x \<equiv> word_at l \<noteq> word_at x"

lemma shaped_word_pattern:
  "\<lbrakk>plain b; avoids (CHR ''['') b; leads word_start b;
    \<And>prev m t. matches r prev m t \<longleftrightarrow> matches (Cat b WordB) prev m t\<rbrakk>
   \<Longrightarrow> shaped (Cat WordB r) (\<lambda>w. matches b None w []) word_end"
  by (rule shaped_cong [OF shaped_word matches_Cat_cong])

lemma shaped_assignment_pattern:
  "\<lbrakk>plain b; avoids (CHR ''['') b; leads word_start b;
    \<And>prev m t. matches r prev m t \<longleftrightarrow> matches (Cat b non_spaces) prev m t\<rbrakk>
   \<Longrightarrow> shaped (Cat WordB r) (\<lambda>w. matches b None w []) (\<lambda>l. not_space_at)"
  by (rule shaped_cong [OF shaped_assignment matches_Cat_cong])

lemma shaped_aws_key_id: "shaped pat_aws_key_id (\<lambda>w. matches body_aws_key_id None w []) word_end"
  unfolding pat_aws_key_id_def
  by (rule shaped_word_pattern [OF plain_bodies(1) avoid_bodies(1) lead_bodies(1)])
    (simp only: body_defs matches_Cat_assoc)

lemma shaped_aws_secret: "shaped pat_aws_secret (\<lambda>w. matches body_aws_secret None w []) (\<lambda>l. not_space_at)"
  unfolding pat_aws_secret_def
  by (rule shaped_assignment_pattern [OF plain_bodies(2) avoid_bodies(2) lead_bodies(2)])
    (simp only: body_defs matches_Cat_assoc)

lemma shaped_jwt: "shaped pat_jwt (\<lambda>w. matches body_jwt None w []) word_end"
  unfolding pat_jwt_def
  by (rule shaped_word_pattern [OF plain_bodies(3) avoid_bodies(3) lead_bodies(3)])
    (simp only: body_defs matches_Cat_assoc)

lemma shaped_bearer: "shaped pat_bearer (\<lambda>w. matches body_bearer None w []) word_end"
  unfolding pat_bearer_def
  by (rule shaped_word_pattern [OF plain_bodies(4) avoid_bodies(4) lead_bodies(4)])
    (simp only: body_defs matches_Cat_assoc)

lemma shaped_api_key: "shaped pat_api_key (\<lambda>w. matches body_api_key None w []) (\<lambda>l. not_space_at)"
  unfolding pat_api_key_def
  by (rule shaped_assignment_pattern [OF plain_bodies(5) avoid_bodies(5) lead_bodies(5)])
    (simp only: body_defs matches_Cat_assoc)

section \<open>No match survives\<close>

definition starts_non_space :: "re \<Rightarrow> bool" where
  "starts_non_space r \<longleftrightarrow> starts_sat r (\<lambda>prev s. \<exists>c s'. s = c # s' \<and> \<not> re_space c)"

lemma shaped_starts:
  assumes "shaped r core fin"
  shows "starts_non_space r"
  unfolding starts_non_space_def starts_sat_def
proof (intro allI impI)
  fix prev s
  assume "rmatch r prev s \<noteq> []"
  with assms obtain w t where s: "s = w @ t" "core w" unfolding shaped_def by blast
  with assms obtain c w' where "w = c # w'" "word_char c" unfolding shaped_def by blast
  with s(1) show "\<exists>c s'. s = c # s' \<and> \<not> re_space c" using space_not_word [of c] by auto
qed

lemma pem_starts: "starts_non_space pat_pem"
proof -
  have "\<not> re_space (CHR ''-'')" by code_simp
  then have "starts_sat (lit ''-----BEGIN '') (\<lambda>prev s. \<exists>c s'. s = c # s' \<and> \<not> re_space c)"
    by (auto simp: starts_sat_def rmatch_prims split: list.splits if_splits)
  then show ?thesis unfolding starts_non_space_def pat_pem_def by (rule starts_sat_Cat)
qed

lemmas patterns_start = shaped_starts [OF shaped_aws_key_id] shaped_starts [OF shaped_aws_secret]
  shaped_starts [OF shaped_jwt] shaped_starts [OF shaped_bearer] shaped_starts [OF shaped_api_key] pem_starts

lemma patterns_safe: "list_all (\<lambda>r. cut_safe r \<and> starts_non_space r) text_patterns"
  by (simp add: text_patterns_def cut_safe_patterns patterns_start)

text \<open>A replacement creates no match of a shape, and leaves none of its own.\<close>

lemma shape_not_created:
  assumes "cut_safe r" and "starts_non_space r" and "shaped q core fin" and "\<not> re_find q None s"
  shows "\<not> re_find q None (replace_all r placeholder None s)"
  using shape_in_output [OF assms(1) assms(2) [unfolded starts_non_space_def] assms(3), of s] assms(4)
  by (auto simp: re_find_pos)

lemma shape_replaced:
  assumes "cut_safe q" and "shaped q core fin" and "reads q"
  shows "\<not> re_find q None (replace_all q placeholder None s)"
  using shape_in_output [OF assms(1) shaped_starts [OF assms(2), unfolded starts_non_space_def] assms(2), of s]
    left_alone_reads [OF _ assms(3)] by blast

lemma shape_redacted:
  assumes "list_all (\<lambda>r. cut_safe r \<and> starts_non_space r) ps" and "shaped q core fin" and "reads q"
    and "q \<in> set ps \<or> \<not> re_find q None s"
  shows "\<not> re_find q None (fold (\<lambda>p t. replace_all p placeholder None t) ps s)"
  using assms(1,4)
proof (induction ps arbitrary: s)
  case (Cons p ps)
  have "q \<in> set ps \<or> \<not> re_find q None (replace_all p placeholder None s)"
    using Cons.prems shape_not_created [OF _ _ assms(2), of p s] shape_replaced [OF _ assms(2,3), of s] by auto
  with Cons show ?case by simp
qed simp

section \<open>PEM private keys\<close>

text \<open>
  A header or footer of a private key in the output is one of the input; a footer after a header that was left
  alone would have completed a match there.
\<close>

definition marked :: "string \<Rightarrow> string \<Rightarrow> (char \<Rightarrow> bool) \<Rightarrow> string \<Rightarrow> bool" where
  "marked x y P w \<longleftrightarrow> (\<exists>l. w = x @ l @ y \<and> list_all P l)"

lemma matches_marked:
  "matches (Cat (lit x) (Cat (Star (Cls P)) (Cat (lit y) (Cat (LStar (Cls (\<lambda>c. True)))
     (Cat (lit z) (Cat (Star (Cls P)) (lit y))))))) prev m t
   \<longleftrightarrow> (\<exists>h b f. m = h @ b @ f \<and> marked x y P h \<and> marked z y P f)"
proof
  assume "\<exists>h b f. m = h @ b @ f \<and> marked x y P h \<and> marked z y P f"
  then obtain l b k where m: "m = x @ l @ y @ b @ z @ k @ y" and lk: "list_all P l" "list_all P k"
    by (auto simp: marked_def)
  show "matches (Cat (lit x) (Cat (Star (Cls P)) (Cat (lit y) (Cat (LStar (Cls (\<lambda>c. True)))
     (Cat (lit z) (Cat (Star (Cls P)) (lit y))))))) prev m t"
    unfolding m by (intro matches.cat) (simp_all add: lk)
next
  assume "matches (Cat (lit x) (Cat (Star (Cls P)) (Cat (lit y) (Cat (LStar (Cls (\<lambda>c. True)))
     (Cat (lit z) (Cat (Star (Cls P)) (lit y))))))) prev m t"
  then obtain l b k where "m = x @ l @ y @ b @ z @ k @ y" "list_all P l" "list_all P k"
    by (auto simp: matches_Cat)
  then show "\<exists>h b f. m = h @ b @ f \<and> marked x y P h \<and> marked z y P f"
    by (intro exI [of _ "x @ l @ y"] exI [of _ b] exI [of _ "z @ k @ y"]) (auto simp: marked_def)
qed

abbreviation pem_mark :: "string \<Rightarrow> string \<Rightarrow> bool" where
  "pem_mark x \<equiv> marked x ''PRIVATE KEY-----'' (\<lambda>c. is_upper c \<or> c = CHR '' '')"

lemma matches_pem:
  "matches pat_pem prev m t \<longleftrightarrow> (\<exists>h b f. m = h @ b @ f \<and> pem_mark ''-----BEGIN '' h \<and> pem_mark ''-----END '' f)"
  unfolding pat_pem_def pem_label_def by (rule matches_marked)

lemma marked_head: "marked (c # x) y P w \<Longrightarrow> \<exists>w'. w = c # w'"
  by (auto simp: marked_def)

lemma marked_avoids: "marked x y P w \<Longrightarrow> d \<notin> set x \<Longrightarrow> d \<notin> set y \<Longrightarrow> \<not> P d \<Longrightarrow> d \<notin> set w"
  by (auto simp: marked_def list_all_iff)

lemma pem_mark_dash:
  assumes "pem_mark (CHR ''-'' # x) w" and "CHR ''['' \<notin> set x"
  shows "\<exists>w'. w = CHR ''-'' # w'" and "CHR ''['' \<notin> set w"
  by (rule marked_head [OF assms(1)], rule marked_avoids [OF assms(1)])
    (use assms(2) classes_avoid(4) in auto)

lemma pem_mark_in_output:
  assumes "replace_all pat_pem placeholder prev s = a @ w @ t" and "pem_mark (CHR ''-'' # x) w" and "CHR ''['' \<notin> set x"
  shows "\<exists>a' t'. s = a' @ w @ t' \<and> left_alone pat_pem (ctx prev a') (w @ t')
    \<and> t = replace_all pat_pem placeholder (ctx (ctx prev a') w) t'"
proof -
  from pem_mark_dash [OF assms(2,3)] obtain w' where w: "w = CHR ''-'' # w'" "CHR ''['' \<notin> set w" by blast
  from replaced_word [OF cut_safe_pem assms(1) w, of prev] show ?thesis by (auto simp: placeholder_def)
qed

lemma pem_replaced: "\<not> re_find pat_pem None (replace_all pat_pem placeholder None s)"
proof
  assume "re_find pat_pem None (replace_all pat_pem placeholder None s)"
  then obtain a b where "replace_all pat_pem placeholder None s = a @ b" "rmatch pat_pem (ctx None a) b \<noteq> []"
    unfolding re_find_pos by blast
  then obtain h m f t where out: "replace_all pat_pem placeholder None s = a @ h @ m @ f @ t"
    and h: "pem_mark ''-----BEGIN '' h" and f: "pem_mark ''-----END '' f"
    by (auto simp: rmatch_some matches_pem)
  from pem_mark_in_output [OF out h] obtain a' t' where
    left: "left_alone pat_pem (ctx None a') (h @ t')"
    and rest: "replace_all pat_pem placeholder (ctx (ctx None a') h) t' = m @ f @ t" by auto
  from pem_mark_in_output [OF rest f] obtain m' t'' where "t' = m' @ f @ t''" by auto
  with h f have "matches pat_pem (ctx None a') (h @ m' @ f) t''" by (auto simp: matches_pem)
  then have "rmatch pat_pem (ctx None a') (h @ t') \<noteq> []"
    using \<open>t' = m' @ f @ t''\<close> by (auto simp: rmatch_some intro: exI [of _ "h @ m' @ f"])
  moreover have "reads pat_pem" by (simp add: pat_pem_def)
  ultimately show False using left_alone_reads [OF left] by blast
qed

section \<open>Clean texts\<close>

text \<open>\<open>occurs p s\<close>: some part of \<open>s\<close> is a match of \<open>p\<close>, in the sense of the relation.\<close>

definition occurs :: "re \<Rightarrow> string \<Rightarrow> bool" where
  "occurs p s \<longleftrightarrow> (\<exists>a m t. s = a @ m @ t \<and> matches p (ctx None a) m t)"

definition clean_text :: "string \<Rightarrow> bool" where
  "clean_text s \<longleftrightarrow> \<not> occurs pat_aws_key_id s \<and> \<not> occurs pat_aws_secret s \<and> \<not> occurs pat_jwt s
     \<and> \<not> occurs pat_bearer s \<and> \<not> occurs pat_api_key s \<and> \<not> occurs pat_pem s"

lemma occurs_iff: "occurs p s \<longleftrightarrow> re_find p None s"
  by (simp add: occurs_def re_find_iff)

lemma patterns_read: "list_all reads text_patterns"
  by (simp add: text_patterns_def pat_aws_key_id_def pat_aws_secret_def pat_jwt_def pat_bearer_def pat_api_key_def
      pat_pem_def assign_sep_def re_dot_def reads_lit_fold
      del: lit_fold.simps)

lemma redact_text_finds_none: "p \<in> set text_patterns \<Longrightarrow> \<not> re_find p None (redact_text s)"
proof -
  assume p: "p \<in> set text_patterns"
  have shape: "\<not> re_find q None (redact_text s)" if "q \<in> set text_patterns" "shaped q core fin" for q core fin
    unfolding redact_text_def
    by (rule shape_redacted [OF patterns_safe that(2)]) (use that(1) patterns_read in \<open>auto simp: list_all_iff\<close>)
  have pem: "\<not> re_find pat_pem None (redact_text s)"
    by (simp add: redact_text_def text_patterns_def pem_replaced)
  note shapes = shape [OF _ shaped_aws_key_id] shape [OF _ shaped_aws_secret] shape [OF _ shaped_jwt]
    shape [OF _ shaped_bearer] shape [OF _ shaped_api_key]
  from p show ?thesis
    using shapes pem by (auto simp: text_patterns_def)
qed

lemma clean_text_iff: "clean_text s \<longleftrightarrow> (\<forall>p \<in> set text_patterns. \<not> re_find p None s)"
  by (auto simp: clean_text_def occurs_iff text_patterns_def)

lemma redact_text_is_clean: "clean_text (redact_text s)"
  by (simp add: clean_text_iff redact_text_finds_none)

text \<open>A clean text is left as it is.\<close>

lemma replace_all_none: "\<not> re_find r prev s \<Longrightarrow> replace_all r repl prev s = s"
proof (induction s arbitrary: prev)
  case Nil
  then show ?case by (subst replace_all.simps) simp
next
  case (Cons c s)
  then show ?case by (subst replace_all.simps) (simp add: Let_def)
qed

lemma redact_clean_text: "clean_text s \<Longrightarrow> redact_text s = s"
proof -
  assume "clean_text s"
  then have "fold (\<lambda>p t. replace_all p placeholder None t) ps s = s" if "set ps \<subseteq> set text_patterns" for ps
    using that by (induction ps) (auto simp: clean_text_iff replace_all_none)
  then show ?thesis by (simp add: redact_text_def)
qed

section \<open>Objects keep no sensitive field\<close>

fun object_clean :: "gval \<Rightarrow> bool"
  and fields_clean :: "(string \<times> gval) list \<Rightarrow> bool"
  and items_clean :: "gval list \<Rightarrow> bool" where
  "object_clean (GMap kvs) = fields_clean kvs"
| "object_clean (GArr vs) = items_clean vs"
| "object_clean (GStr s) = clean_text s"
| "object_clean (GInt32 n) = True"
| "object_clean (GOther x) = True"
| "fields_clean [] = True"
| "fields_clean ((k, v) # kvs) = (\<not> sensitive k \<and> object_clean v \<and> fields_clean kvs)"
| "items_clean [] = True"
| "items_clean (v # vs) = (object_clean v \<and> items_clean vs)"

lemma redact_object_clean_all:
  "object_clean (redact_object v)" "fields_clean (redact_fields kvs)" "items_clean (redact_items vs)"
  by (induction v and kvs and vs rule: redact_object_redact_fields_redact_items.induct)
    (auto simp: redact_text_is_clean)

lemma redact_clean_object_all:
  "object_clean v \<Longrightarrow> redact_object v = v" "fields_clean kvs \<Longrightarrow> redact_fields kvs = kvs"
  "items_clean vs \<Longrightarrow> redact_items vs = vs"
  by (induction v and kvs and vs rule: redact_object_redact_fields_redact_items.induct)
    (auto simp: redact_clean_text)

text \<open>
  A text without one of the characters a pattern cannot do without has none of its matches; so the fixed texts of
  the code are clean.
\<close>

definition unmarked_char :: "char \<Rightarrow> bool" where
  "unmarked_char c \<longleftrightarrow> c \<notin> {CHR ''K'', CHR ''.'', CHR '':'', CHR ''='', CHR ''-''} \<and> lower_char c \<noteq> CHR ''b''"

lemma unmarked_clean: "list_all unmarked_char s \<Longrightarrow> clean_text s"
proof -
  assume s: "list_all unmarked_char s"
  have none: "\<not> occurs p s" if "needs (\<lambda>c. \<not> unmarked_char c) p" for p
    using s matches_needs [OF _ that] unfolding occurs_def list_all_iff by fastforce
  have "lower_char (CHR ''B'') = CHR ''b''" by code_simp
  then show ?thesis
    unfolding clean_text_def
    by (intro conjI none)
      (simp_all add: pat_aws_key_id_def pat_aws_secret_def pat_jwt_def pat_bearer_def pat_api_key_def pat_pem_def
        assign_sep_def re_dot_def fold_char_def Let_def unmarked_char_def)
qed

text \<open>
  A quotation mark between a key and its colon, as JSON has it, hides an assignment from the patterns: what follows
  is not redacted.
\<close>

definition quoted_assignment :: string where
  "quoted_assignment = [CHR 0x22] @ ''apikey'' @ [CHR 0x22] @ '':x''"

lemma quoted_assignment_kept: "redact_text quoted_assignment = quoted_assignment" and
  unquoted_assignment_replaced: "redact_text ''apikey: x'' = ''[REDACTED]''"
  by code_simp+

section \<open>Properties\<close>

text \<open>C4: redaction is complete for its patterns and stable: no part of a redacted text is a match of any of the
  six, not even one that a replacement put together from what was around it; a redacted object has no sensitive
  field and only such texts, at any depth; and redacting either again changes nothing.\<close>

theorem redaction_complete:
  "clean_text (redact_text s) \<and> object_clean (redact_object v)
   \<and> redact_text (redact_text s) = redact_text s \<and> redact_object (redact_object v) = redact_object v"
  by (simp add: redact_text_is_clean redact_object_clean_all redact_clean_text redact_clean_object_all)

end
