(* ===== verification/ExecEngine.thy ===== *)
theory ExecEngine imports Policy CleanText begin

text \<open>
  internal/execengine: the escalation ladder. An action carries its closures as effects over the
  state \<open>'s\<close> of the outside world (the cluster, the clock); a \<open>nil\<close> closure is \<open>None\<close>. \<open>Snapshot\<close>,
  \<open>Validate\<close> and \<open>Rollback\<close> are optional in the code; \<open>Run\<close> is not documented as optional, but
  one ladder of the code (core/execformaterror) leaves it \<open>nil\<close>, and calling a nil function panics.
  A snapshot is a Go map, \<open>None\<close> for the nil map.

  The lemmas: what one attempt records on every branch; that the ladder stops at the first
  validated action or at the first high-risk one, which is recorded and never run; that everything
  recorded is redacted.
\<close>

section \<open>Types\<close>

definition max_actions :: nat where "max_actions = 3"

type_synonym gstate = "(string \<times> gval) list"

record 's action =
  act_name :: string
  act_description :: string
  act_risk :: risk
  act_snapshot :: "('s, gstate option \<times> goerr option) io option"
  act_run :: "('s, string \<times> goerr option) io option"
  act_validate :: "('s, bool \<times> goerr option) io option"
  act_rollback :: "(gstate \<Rightarrow> ('s, goerr option) io) option"

record 's ladder =
  lad_playbook_id :: string
  lad_actions :: "'s action list"

record attempt_result =
  ar_action :: string
  ar_description :: string
  ar_risk :: risk
  ar_output :: string
  ar_err :: string
  ar_snapshot :: "gstate option"
  ar_validated :: bool
  ar_rolled_back :: bool
  ar_skipped :: bool

record run_result =
  res_playbook_id :: string
  res_resolved :: bool
  res_attempts :: "attempt_result list"

text \<open>The struct literal that names only the action: every other field has its zero value.\<close>

definition new_attempt :: "'s action \<Rightarrow> attempt_result" where
  "new_attempt a = \<lparr>ar_action = act_name a, ar_description = act_description a, ar_risk = act_risk a,
     ar_output = [], ar_err = [], ar_snapshot = None, ar_validated = False,
     ar_rolled_back = False, ar_skipped = False\<rparr>"

definition msg_nil_call :: string where
  "msg_nil_call = ''invalid memory address or nil pointer dereference''"

definition msg_high_risk :: string where
  "msg_high_risk = ''a'' @ c_cedil @ a_tilde @ ''o de alto risco '' @ em_dash @ '' n'' @ a_tilde
     @ ''o executada automaticamente, requer aprova'' @ c_cedil @ a_tilde @ ''o manual''"

section \<open>One action\<close>

definition rollback :: "'s action \<Rightarrow> gstate option \<Rightarrow> attempt_result \<Rightarrow> ('s, attempt_result) io" where
  "rollback a snap at =
    (case (act_rollback a, snap) of
       (Some rb, Some st) \<Rightarrow>
         io_bind (rb st) (\<lambda>e. case e of
             Some err \<Rightarrow> io_ret (at\<lparr>ar_err := redact_text (ar_err at @ ''; rollback failed: '' @ err_text err)\<rparr>)
           | None \<Rightarrow> io_ret (at\<lparr>ar_rolled_back := True\<rparr>))
     | _ \<Rightarrow> io_ret at)"

text \<open>
  \<open>redact.Object(map[string]any(s))\<close> of any map, the nil one too, is a map: the type assertion
  on it cannot panic.
\<close>

definition redact_snapshot :: "gstate option \<Rightarrow> gstate" where
  "redact_snapshot s = (case redact_object (GMap (case s of None \<Rightarrow> [] | Some kvs \<Rightarrow> kvs)) of
      GMap kvs \<Rightarrow> kvs | _ \<Rightarrow> [])"

definition run_validate :: "'s action \<Rightarrow> gstate option \<Rightarrow> attempt_result \<Rightarrow> ('s, attempt_result) io" where
  "run_validate a snap at =
    io_bind (case act_validate a of None \<Rightarrow> io_ret (True, None) | Some v \<Rightarrow> v)
      (\<lambda>(healthy, err).
        let at1 = (case err of None \<Rightarrow> at | Some e \<Rightarrow> at\<lparr>ar_err := redact_text (err_text e)\<rparr>);
            at2 = at1\<lparr>ar_validated := healthy\<rparr>
        in if healthy then io_ret at2 else rollback a snap at2)"

definition run_body :: "'s action \<Rightarrow> gstate option \<Rightarrow> attempt_result \<Rightarrow> ('s, attempt_result) io" where
  "run_body a snap at =
    io_bind (case act_run a of None \<Rightarrow> io_panic msg_nil_call | Some r \<Rightarrow> r)
      (\<lambda>(out, err).
        let at1 = at\<lparr>ar_output := redact_text out\<rparr> in
        case err of
          Some e \<Rightarrow> rollback a snap (at1\<lparr>ar_err := redact_text (err_text e)\<rparr>)
        | None \<Rightarrow> run_validate a snap at1)"

definition run_one :: "'s action \<Rightarrow> ('s, attempt_result) io" where
  "run_one a =
    (let at = new_attempt a in
     case act_snapshot a of
       None \<Rightarrow> run_body a None at
     | Some snapf \<Rightarrow>
         io_bind snapf (\<lambda>(st, err).
           case err of
             Some e \<Rightarrow> io_ret (at\<lparr>ar_err := redact_text (''snapshot failed: '' @ err_text e)\<rparr>)
           | None \<Rightarrow> run_body a st (at\<lparr>ar_snapshot := Some (redact_snapshot st)\<rparr>)))"

definition run_approved :: "'s action \<Rightarrow> ('s, attempt_result) io" where
  "run_approved a = run_one a"

section \<open>The ladder\<close>

definition skipped_attempt :: "'s action \<Rightarrow> attempt_result" where
  "skipped_attempt a = (new_attempt a)\<lparr>ar_skipped := True, ar_err := msg_high_risk\<rparr>"

text \<open>The loop of \<open>Run\<close>, with the result built so far.\<close>

fun run_loop :: "run_result \<Rightarrow> 's action list \<Rightarrow> ('s, run_result) io" where
  "run_loop res [] = io_ret res"
| "run_loop res (a # as) =
    (if act_risk a = risk_high then
       io_ret (res\<lparr>res_attempts := res_attempts res @ [skipped_attempt a]\<rparr>)
     else io_bind (run_one a) (\<lambda>at.
       let res1 = res\<lparr>res_attempts := res_attempts res @ [at]\<rparr> in
       if ar_validated at then io_ret (res1\<lparr>res_resolved := True\<rparr>) else run_loop res1 as))"

definition run_ladder :: "'s ladder \<Rightarrow> ('s, goerr + run_result) io" where
  "run_ladder l =
    (if lad_actions l = [] then
       io_ret (Inl (errorf (''execengine: ladder '' @ fmt_q (lad_playbook_id l) @ '' has no actions'')))
     else if length (lad_actions l) > max_actions then
       io_ret (Inl (errorf (''execengine: ladder '' @ fmt_q (lad_playbook_id l) @ '' has ''
         @ fmt_d (int (length (lad_actions l))) @ '' actions, max is '' @ fmt_d (int max_actions))))
     else io_bind (run_loop \<lparr>res_playbook_id = lad_playbook_id l, res_resolved = False, res_attempts = []\<rparr>
                     (lad_actions l)) (\<lambda>r. io_ret (Inr r)))"

section \<open>One attempt\<close>

text \<open>
  What every attempt record satisfies: it is about the action, its texts are redacted, it is not
  marked as skipped, and it is rolled back only when it was not validated and a rollback exists.
\<close>

definition redacted :: "string \<Rightarrow> bool" where
  "redacted t \<longleftrightarrow> t = [] \<or> (\<exists>s. t = redact_text s)"

definition attempt_ok :: "'s action \<Rightarrow> attempt_result \<Rightarrow> bool" where
  "attempt_ok a at \<longleftrightarrow> ar_action at = act_name a \<and> ar_description at = act_description a
     \<and> ar_risk at = act_risk a \<and> \<not> ar_skipped at \<and> redacted (ar_output at) \<and> redacted (ar_err at)
     \<and> (\<forall>kvs. ar_snapshot at = Some kvs \<longrightarrow> fields_clean kvs)
     \<and> (ar_rolled_back at \<longrightarrow> \<not> ar_validated at \<and> act_rollback a \<noteq> None \<and> act_snapshot a \<noteq> None)"

lemma redacted_simps [simp]: "redacted []" "redacted (redact_text s)"
  by (auto simp: redacted_def)

lemma redacted_clean: "redacted t \<Longrightarrow> clean_text t"
  by (auto simp: redacted_def redact_text_is_clean unmarked_clean)

lemma high_risk_clean: "clean_text msg_high_risk"
  by (rule unmarked_clean) code_simp

lemma attempt_ok_new: "attempt_ok a (new_attempt a)"
  by (simp add: attempt_ok_def new_attempt_def)

lemma rollback_ok:
  assumes "rollback a snap at s = (Ret at', s')" and "attempt_ok a at" and "\<not> ar_validated at"
    and "snap \<noteq> None \<longrightarrow> act_snapshot a \<noteq> None"
  shows "attempt_ok a at' \<and> \<not> ar_validated at'"
  using assms
  by (auto simp: rollback_def attempt_ok_def io_bind_eq_Ret split: option.splits)

lemma run_validate_ok:
  assumes "run_validate a snap at s = (Ret at', s')" and "attempt_ok a at" and "\<not> ar_rolled_back at"
    and "snap \<noteq> None \<longrightarrow> act_snapshot a \<noteq> None"
  shows "attempt_ok a at'"
proof -
  from assms(1) obtain h e s1 where
    fin: "(let at1 = (case e of None \<Rightarrow> at | Some e \<Rightarrow> at\<lparr>ar_err := redact_text (err_text e)\<rparr>);
           at2 = at1\<lparr>ar_validated := h\<rparr>
         in if h then io_ret at2 else rollback a snap at2) s1 = (Ret at', s')"
    unfolding run_validate_def by (auto simp: io_bind_eq_Ret)
  define at2 where "at2 = (case e of None \<Rightarrow> at | Some e \<Rightarrow> at\<lparr>ar_err := redact_text (err_text e)\<rparr>)
    \<lparr>ar_validated := h\<rparr>"
  have ok2: "attempt_ok a at2" using assms(2,3) by (auto simp: at2_def attempt_ok_def split: option.splits)
  show ?thesis
  proof (cases h)
    case True
    with fin ok2 show ?thesis by (simp add: Let_def at2_def)
  next
    case False
    with fin have "rollback a snap at2 s1 = (Ret at', s')" by (simp add: Let_def at2_def)
    from rollback_ok [OF this ok2] False assms(4) show ?thesis by (simp add: at2_def)
  qed
qed

lemma run_body_ok:
  assumes "run_body a snap at s = (Ret at', s')" and "attempt_ok a at"
    and "\<not> ar_rolled_back at" and "\<not> ar_validated at"
    and "snap \<noteq> None \<longrightarrow> act_snapshot a \<noteq> None"
  shows "attempt_ok a at'"
proof -
  from assms(1) obtain out e s1 where
    fin: "(let at1 = at\<lparr>ar_output := redact_text out\<rparr> in
        case e of Some e \<Rightarrow> rollback a snap (at1\<lparr>ar_err := redact_text (err_text e)\<rparr>)
        | None \<Rightarrow> run_validate a snap at1) s1 = (Ret at', s')"
    unfolding run_body_def by (auto simp: io_bind_eq_Ret)
  have ok1: "attempt_ok a (at\<lparr>ar_output := redact_text out\<rparr>)"
    using assms(2) by (simp add: attempt_ok_def)
  show ?thesis
  proof (cases e)
    case None
    with fin have "run_validate a snap (at\<lparr>ar_output := redact_text out\<rparr>) s1 = (Ret at', s')"
      by (simp add: Let_def)
    from run_validate_ok [OF this ok1] assms(3,5) show ?thesis by simp
  next
    case (Some err)
    with fin have rb: "rollback a snap (at\<lparr>ar_output := redact_text out,
        ar_err := redact_text (err_text err)\<rparr>) s1 = (Ret at', s')"
      by (simp add: Let_def)
    have "attempt_ok a (at\<lparr>ar_output := redact_text out, ar_err := redact_text (err_text err)\<rparr>)"
      using ok1 by (simp add: attempt_ok_def)
    from rollback_ok [OF rb this] assms(4,5) show ?thesis by simp
  qed
qed

lemma redact_snapshot_clean: "fields_clean (redact_snapshot s)"
  by (simp add: redact_snapshot_def redact_object_clean_all)

lemma run_one_ok:
  assumes "run_one a s = (Ret at, s')"
  shows "attempt_ok a at"
proof (cases "act_snapshot a")
  case None
  with assms have "run_body a None (new_attempt a) s = (Ret at, s')" by (simp add: run_one_def)
  from run_body_ok [OF this attempt_ok_new] show ?thesis by (simp add: new_attempt_def)
next
  case (Some snapf)
  with assms have "io_bind snapf (\<lambda>(st, err). case err of
        Some e \<Rightarrow> io_ret ((new_attempt a)\<lparr>ar_err := redact_text (''snapshot failed: '' @ err_text e)\<rparr>)
      | None \<Rightarrow> run_body a st ((new_attempt a)\<lparr>ar_snapshot := Some (redact_snapshot st)\<rparr>)) s = (Ret at, s')"
    by (simp only: run_one_def Let_def option.case)
  then obtain p s1 where
    fin0: "(\<lambda>(st, err). case err of
        Some e \<Rightarrow> io_ret ((new_attempt a)\<lparr>ar_err := redact_text (''snapshot failed: '' @ err_text e)\<rparr>)
      | None \<Rightarrow> run_body a st ((new_attempt a)\<lparr>ar_snapshot := Some (redact_snapshot st)\<rparr>)) p s1 = (Ret at, s')"
    by (rule io_bind_RetE)
  obtain st e where p: "p = (st, e)" by (cases p)
  note fin = fin0 [unfolded p prod.case]
  show ?thesis
  proof (cases e)
    case None
    with fin have body: "run_body a st ((new_attempt a)\<lparr>ar_snapshot := Some (redact_snapshot st)\<rparr>) s1
        = (Ret at, s')" by simp
    have "attempt_ok a ((new_attempt a)\<lparr>ar_snapshot := Some (redact_snapshot st)\<rparr>)"
      by (simp add: attempt_ok_def new_attempt_def redact_snapshot_clean)
    from run_body_ok [OF body this] Some show ?thesis by (simp add: new_attempt_def)
  next
    case (Some err)
    with fin show ?thesis by (auto simp: attempt_ok_def new_attempt_def)
  qed
qed

section \<open>What the ladder leaves alone\<close>

text \<open>
  Frame rule: a property of the world that the closures of every action of the ladder that is not
  high-risk keep, the ladder keeps. The closures of high-risk actions may do anything: they are not
  called.
\<close>

definition action_keeps :: "('s \<Rightarrow> bool) \<Rightarrow> 's action \<Rightarrow> bool" where
  "action_keeps I a \<longleftrightarrow>
     (\<forall>m. act_snapshot a = Some m \<longrightarrow> keeps I m)
   \<and> (\<forall>m. act_run a = Some m \<longrightarrow> keeps I m)
   \<and> (\<forall>m. act_validate a = Some m \<longrightarrow> keeps I m)
   \<and> (\<forall>f st. act_rollback a = Some f \<longrightarrow> keeps I (f st))"

lemma rollback_keeps: "action_keeps I a \<Longrightarrow> keeps I (rollback a snap at)"
  by (auto simp: rollback_def action_keeps_def split: option.splits intro!: keeps_intros)

lemma run_validate_keeps:
  assumes "action_keeps I a"
  shows "keeps I (run_validate a snap at)"
  unfolding run_validate_def Let_def
  by (intro keeps_bind keeps_case_prod keeps_if keeps_pure rollback_keeps assms)
    (use assms in \<open>auto simp: action_keeps_def split: option.splits\<close>)

lemma run_body_keeps:
  assumes "action_keeps I a"
  shows "keeps I (run_body a snap at)"
proof -
  have "keeps I (case act_run a of None \<Rightarrow> io_panic msg_nil_call | Some r \<Rightarrow> r)"
    using assms by (auto simp: action_keeps_def split: option.splits)
  then show ?thesis
    unfolding run_body_def Let_def
    by (rule keeps_bind) (intro keeps_case_prod keeps_case_option rollback_keeps run_validate_keeps assms)
qed

lemma run_one_keeps:
  assumes "action_keeps I a"
  shows "keeps I (run_one a)"
proof (cases "act_snapshot a")
  case None
  then show ?thesis by (simp add: run_one_def run_body_keeps [OF assms])
next
  case (Some m)
  with assms have "keeps I m" by (simp add: action_keeps_def)
  then show ?thesis
    unfolding run_one_def Let_def Some option.case
    by (intro keeps_bind keeps_case_prod keeps_case_option keeps_pure run_body_keeps assms)
qed

lemma run_loop_keeps:
  "(\<And>a. a \<in> set as \<Longrightarrow> act_risk a \<noteq> risk_high \<Longrightarrow> action_keeps I a) \<Longrightarrow> keeps I (run_loop res as)"
proof (induction as arbitrary: res)
  case Nil
  then show ?case by simp
next
  case (Cons a as)
  then have ih: "keeps I (run_loop r as)" for r by simp
  have "keeps I (run_one a)" if "act_risk a \<noteq> risk_high"
    using that Cons.prems by (simp add: run_one_keeps)
  then show ?case by (auto simp: Let_def intro!: keeps_intros ih)
qed

lemma run_ladder_keeps:
  "(\<And>a. a \<in> set (lad_actions l) \<Longrightarrow> act_risk a \<noteq> risk_high \<Longrightarrow> action_keeps I a)
   \<Longrightarrow> keeps I (run_ladder l)"
  unfolding run_ladder_def by (auto intro!: keeps_intros run_loop_keeps)

section \<open>What the ladder records\<close>

text \<open>
  The record of a run over a list of actions, as a specification: the attempts are those of a prefix
  of the actions, all but the last not validated; the run ends because the last is validated, or is
  a skipped high-risk action, or because there is no further action.
\<close>

fun run_spec :: "'s action list \<Rightarrow> attempt_result list \<Rightarrow> bool \<Rightarrow> bool" where
  "run_spec [] ats resolved = (ats = [] \<and> \<not> resolved)"
| "run_spec (a # as) ats resolved =
    (if act_risk a = risk_high then ats = [skipped_attempt a] \<and> \<not> resolved
     else \<exists>at rest. ats = at # rest \<and> attempt_ok a at
       \<and> (if ar_validated at then rest = [] \<and> resolved else run_spec as rest resolved))"

lemma run_loop_spec:
  assumes "run_loop res as s = (Ret r, s')" and "\<not> res_resolved res"
  shows "\<exists>ats. res_attempts r = res_attempts res @ ats \<and> res_playbook_id r = res_playbook_id res
    \<and> run_spec as ats (res_resolved r)"
  using assms
proof (induction as arbitrary: res s)
  case Nil
  then show ?case by auto
next
  case (Cons a as)
  show ?case
  proof (cases "act_risk a = risk_high")
    case True
    with Cons.prems show ?thesis by auto
  next
    case False
    with Cons.prems(1) obtain at s1 where one: "run_one a s = (Ret at, s1)"
      and tail: "(let res1 = res\<lparr>res_attempts := res_attempts res @ [at]\<rparr> in
        if ar_validated at then io_ret (res1\<lparr>res_resolved := True\<rparr>) else run_loop res1 as) s1 = (Ret r, s')"
      by (auto simp: io_bind_eq_Ret)
    from one have ok: "attempt_ok a at" by (rule run_one_ok)
    show ?thesis
    proof (cases "ar_validated at")
      case True
      with tail ok False show ?thesis by (intro exI [of _ "[at]"]) (auto simp: Let_def)
    next
      case nv: False
      with tail have "run_loop (res\<lparr>res_attempts := res_attempts res @ [at]\<rparr>) as s1 = (Ret r, s')"
        by (simp add: Let_def)
      from Cons.IH [OF this] Cons.prems(2) obtain ats where
        "res_attempts r = res_attempts res @ at # ats" "res_playbook_id r = res_playbook_id res"
        "run_spec as ats (res_resolved r)" by auto
      with ok nv False show ?thesis by (intro exI [of _ "at # ats"]) simp
    qed
  qed
qed

lemma run_ladder_spec:
  assumes "run_ladder l s = (Ret (Inr r), s')"
  shows "run_spec (lad_actions l) (res_attempts r) (res_resolved r)
    \<and> res_playbook_id r = lad_playbook_id l \<and> lad_actions l \<noteq> [] \<and> length (lad_actions l) \<le> max_actions"
proof -
  from assms have ne: "lad_actions l \<noteq> []" and len: "length (lad_actions l) \<le> max_actions"
    by (auto simp: run_ladder_def split: if_splits)
  with assms have "run_loop \<lparr>res_playbook_id = lad_playbook_id l, res_resolved = False, res_attempts = []\<rparr>
      (lad_actions l) s = (Ret r, s')"
    by (auto simp: run_ladder_def io_bind_eq_Ret split: if_splits)
  from run_loop_spec [OF this] ne len show ?thesis by auto
qed

lemma run_spec_length: "run_spec as ats res \<Longrightarrow> length ats \<le> length as"
  by (induction as ats res rule: run_spec.induct) (auto split: if_splits)

lemma run_spec_names: "run_spec as ats res \<Longrightarrow>
    map ar_action ats = take (length ats) (map act_name as)"
  by (induction as ats res rule: run_spec.induct)
    (auto simp: attempt_ok_def skipped_attempt_def new_attempt_def split: if_splits)

lemma run_spec_skipped: "run_spec as ats res \<Longrightarrow> at \<in> set ats \<Longrightarrow>
    ar_skipped at \<longleftrightarrow> ar_risk at = risk_high"
  by (induction as ats res rule: run_spec.induct)
    (auto simp: attempt_ok_def skipped_attempt_def new_attempt_def split: if_splits)

lemma run_spec_resolved: "run_spec as ats res \<Longrightarrow>
    (res \<longleftrightarrow> ats \<noteq> [] \<and> ar_validated (last ats)) \<and> (\<forall>at \<in> set (butlast ats). \<not> ar_validated at \<and> \<not> ar_skipped at)"
proof (induction as arbitrary: ats)
  case Nil
  then show ?case by simp
next
  case (Cons a as)
  show ?case
  proof (cases "act_risk a = risk_high")
    case True
    with Cons.prems show ?thesis by (simp add: skipped_attempt_def new_attempt_def)
  next
    case False
    with Cons.prems obtain at rest where ats: "ats = at # rest" "\<not> ar_skipped at"
      and cont: "if ar_validated at then rest = [] \<and> res else run_spec as rest res"
      by (auto simp: attempt_ok_def)
    show ?thesis
    proof (cases "ar_validated at")
      case True
      with ats cont show ?thesis by simp
    next
      case nv: False
      with cont have "run_spec as rest res" by simp
      from Cons.IH [OF this] ats nv show ?thesis by auto
    qed
  qed
qed

section \<open>When a ladder returns\<close>

text \<open>
  An action whose closures all return, and that has a \<open>Run\<close>, yields an attempt; so does a ladder of
  such actions, high-risk ones excepted, which need no \<open>Run\<close>.
\<close>

definition action_returns :: "'s action \<Rightarrow> bool" where
  "action_returns a \<longleftrightarrow>
     (\<forall>m. act_snapshot a = Some m \<longrightarrow> returns m)
   \<and> (\<exists>m. act_run a = Some m \<and> returns m)
   \<and> (\<forall>m. act_validate a = Some m \<longrightarrow> returns m)
   \<and> (\<forall>f st. act_rollback a = Some f \<longrightarrow> returns (f st))"

lemma rollback_returns: "action_returns a \<Longrightarrow> returns (rollback a snap at)"
  by (auto simp: rollback_def action_returns_def split: option.splits intro!: total_intros)

lemma run_validate_returns:
  assumes "action_returns a"
  shows "returns (run_validate a snap at)"
  unfolding run_validate_def Let_def
  by (intro returns_bind returns_case_prod returns_if returns_pure rollback_returns assms)
    (use assms in \<open>auto simp: action_returns_def split: option.splits\<close>)

lemma run_body_returns:
  assumes "action_returns a"
  shows "returns (run_body a snap at)"
proof -
  have "returns (case act_run a of None \<Rightarrow> io_panic msg_nil_call | Some r \<Rightarrow> r)"
    using assms by (auto simp: action_returns_def split: option.splits)
  then show ?thesis
    unfolding run_body_def Let_def
    by (rule returns_bind) (intro returns_case_prod returns_case_option rollback_returns run_validate_returns assms)
qed

lemma run_one_returns:
  assumes "action_returns a"
  shows "returns (run_one a)"
proof (cases "act_snapshot a")
  case None
  then show ?thesis by (simp add: run_one_def run_body_returns [OF assms])
next
  case (Some m)
  with assms have "returns m" by (simp add: action_returns_def)
  then show ?thesis
    unfolding run_one_def Let_def Some option.case
    by (intro returns_bind returns_case_prod returns_case_option returns_pure run_body_returns assms)
qed

lemma run_loop_returns:
  "(\<And>a. a \<in> set as \<Longrightarrow> act_risk a \<noteq> risk_high \<Longrightarrow> action_returns a) \<Longrightarrow> returns (run_loop res as)"
proof (induction as arbitrary: res)
  case Nil
  then show ?case by simp
next
  case (Cons a as)
  then have ih: "returns (run_loop r as)" for r by simp
  have "returns (run_one a)" if "act_risk a \<noteq> risk_high"
    using that Cons.prems by (simp add: run_one_returns)
  then show ?case by (auto simp: Let_def intro!: total_intros ih)
qed

lemma run_ladder_returns:
  "(\<And>a. a \<in> set (lad_actions l) \<Longrightarrow> act_risk a \<noteq> risk_high \<Longrightarrow> action_returns a)
   \<Longrightarrow> returns (run_ladder l)"
  unfolding run_ladder_def by (auto intro!: total_intros run_loop_returns)

lemma run_one_nil_run:
  assumes "act_snapshot a = None" and "act_run a = None"
  shows "run_one a s = (Panic msg_nil_call, s)"
  using assms by (simp add: run_one_def run_body_def io_panic_apply)

lemma run_spec_attempt: "run_spec as ats res \<Longrightarrow> at \<in> set ats \<Longrightarrow>
    (\<exists>a \<in> set as. attempt_ok a at \<or> at = skipped_attempt a)"
proof (induction as arbitrary: ats)
  case Nil
  then show ?case by simp
next
  case (Cons a as)
  show ?case
  proof (cases "act_risk a = risk_high")
    case True
    with Cons.prems show ?thesis by simp
  next
    case False
    with Cons.prems(1) obtain at1 rest where ats: "ats = at1 # rest" "attempt_ok a at1"
      and cont: "if ar_validated at1 then rest = [] \<and> res else run_spec as rest res"
      by auto
    show ?thesis
    proof (cases "at = at1")
      case True
      with ats show ?thesis by auto
    next
      case neq: False
      with Cons.prems(2) ats have "at \<in> set rest" by simp
      with cont have "run_spec as rest res" by (cases "ar_validated at1") auto
      from Cons.IH [OF this \<open>at \<in> set rest\<close>] show ?thesis by auto
    qed
  qed
qed

text \<open>Every attempt is about an action of the ladder; its output, error and snapshot are clean.\<close>

lemma run_ladder_redacted:
  assumes "run_ladder l s = (Ret (Inr r), s')" and "at \<in> set (res_attempts r)"
  shows "clean_text (ar_err at) \<and> clean_text (ar_output at)
    \<and> (\<forall>kvs. ar_snapshot at = Some kvs \<longrightarrow> fields_clean kvs)
    \<and> (ar_rolled_back at \<longrightarrow> \<not> ar_validated at)
    \<and> (\<exists>a \<in> set (lad_actions l). ar_action at = act_name a \<and> ar_risk at = act_risk a
         \<and> ar_description at = act_description a)"
proof -
  from run_ladder_spec [OF assms(1)] have "run_spec (lad_actions l) (res_attempts r) (res_resolved r)" by simp
  from run_spec_attempt [OF this assms(2)] obtain a where
    a: "a \<in> set (lad_actions l)" "attempt_ok a at \<or> at = skipped_attempt a" ..
  then show ?thesis
    by (auto simp: attempt_ok_def skipped_attempt_def new_attempt_def redacted_clean high_risk_clean)
qed

section \<open>Properties\<close>

text \<open>C15: what a completed run records: at most three attempts, one per action in ladder order; only the
  last can be validated or skipped; it is skipped exactly when the action is high-risk; the run is
  resolved exactly when its last attempt validated. Every attempt is about an action of the ladder, whose name,
  risk and description it carries as the playbook gave them; its output and error, which come from the cluster,
  have no match of any redaction pattern, and its snapshot has no sensitive field and only such texts; and it
  is marked rolled back only if it was not validated.\<close>

theorem run_ladder_record:
  assumes "run_ladder l s = (Ret (Inr r), s')"
  shows "length (res_attempts r) \<le> 3
    \<and> map ar_action (res_attempts r) = take (length (res_attempts r)) (map act_name (lad_actions l))
    \<and> (\<forall>at \<in> set (butlast (res_attempts r)). \<not> ar_validated at \<and> \<not> ar_skipped at)
    \<and> (\<forall>at \<in> set (res_attempts r). ar_skipped at \<longleftrightarrow> ar_risk at = risk_high)
    \<and> (res_resolved r \<longleftrightarrow> res_attempts r \<noteq> [] \<and> ar_validated (last (res_attempts r)))
    \<and> (\<forall>at \<in> set (res_attempts r). clean_text (ar_err at) \<and> clean_text (ar_output at)
         \<and> (\<forall>kvs. ar_snapshot at = Some kvs \<longrightarrow> fields_clean kvs) \<and> (ar_rolled_back at \<longrightarrow> \<not> ar_validated at)
         \<and> (\<exists>a \<in> set (lad_actions l). ar_action at = act_name a \<and> ar_risk at = act_risk a
              \<and> ar_description at = act_description a))"
proof -
  note spec = run_ladder_spec [OF assms]
  then have rs: "run_spec (lad_actions l) (res_attempts r) (res_resolved r)" by simp
  from run_spec_length [OF rs] spec have "length (res_attempts r) \<le> 3" by (simp add: max_actions_def)
  with run_spec_names [OF rs] run_spec_skipped [OF rs] run_spec_resolved [OF rs] run_ladder_redacted [OF assms]
  show ?thesis by (intro conjI ballI; (elim conjE)?; blast)
qed

definition demo_action :: "string \<Rightarrow> risk \<Rightarrow> bool \<Rightarrow> unit action" where
  "demo_action n r healthy = \<lparr>act_name = n, act_description = [], act_risk = r, act_snapshot = None,
     act_run = Some (io_ret ([], None)), act_validate = Some (io_ret (healthy, None)),
     act_rollback = None\<rparr>"

definition demo_ladder :: "unit ladder" where
  "demo_ladder = \<lparr>lad_playbook_id = ''p'',
     lad_actions = [demo_action ''a'' risk_safe False, demo_action ''b'' risk_high True]\<rparr>"

lemma demo_run: "\<exists>r. run_ladder demo_ladder () = (Ret (Inr r), ())
    \<and> map ar_skipped (res_attempts r) = [False, True] \<and> \<not> res_resolved r"
  by (simp add: run_ladder_def demo_ladder_def demo_action_def max_actions_def run_one_def run_body_def
      run_validate_def rollback_def new_attempt_def skipped_attempt_def Let_def io_bind_def io_ret_apply)

theorem run_ladder_record_witness:
  "\<exists>r. run_ladder demo_ladder () = (Ret (Inr r), ()) \<and> length (res_attempts r) \<le> 3"
  using demo_run run_ladder_record [of demo_ladder "()"] by blast

text \<open>C8: a ladder never calls a closure of a high-risk action: whatever the closures of its other actions
  keep of the world, the run keeps.\<close>

theorem run_ladder_spares_high_risk:
  assumes "\<And>a. a \<in> set (lad_actions l) \<Longrightarrow> act_risk a \<noteq> risk_high \<Longrightarrow> action_keeps I a"
  shows "keeps I (run_ladder l)"
  using assms by (rule run_ladder_keeps)

definition bad_action :: "bool action" where
  "bad_action = \<lparr>act_name = ''b'', act_description = [], act_risk = risk_high, act_snapshot = None,
     act_run = Some (\<lambda>s. (Ret ([], None), True)), act_validate = None, act_rollback = None\<rparr>"

theorem run_ladder_spares_high_risk_witness:
  "\<not> snd (run_ladder \<lparr>lad_playbook_id = ''p'', lad_actions = [bad_action]\<rparr> False)"
proof -
  have "keeps (\<lambda>s. \<not> s) (run_ladder \<lparr>lad_playbook_id = ''p'', lad_actions = [bad_action]\<rparr>)"
    by (rule run_ladder_spares_high_risk) (simp add: bad_action_def)
  from keepsD [OF this, of False] show ?thesis by simp
qed

end
