(* ===== verification/K8sClient.thy ===== *)
theory K8sClient imports Prelude "HOL-Library.List_Lexorder" "HOL-Library.Char_ord" begin

text \<open>
  internal/k8sclient: the operations of k8sclient.go, diagnostics.go and nodes.go over the
  Kubernetes API. client-go and the API server are not part of the repository: they are the record
  \<open>kube\<close> of functions over the state \<open>'s\<close> of the world, one per call the code makes, together with
  the clock. The API objects are records of the fields the code reads or writes; \<open>Update\<close> takes the
  whole modified object, as the code passes it.
\<close>

section \<open>API objects\<close>

record owner_ref =
  or_kind :: string
  or_name :: string

record waiting_state =
  wt_reason :: string
  wt_message :: string

record terminated_state =
  tm_reason :: string
  tm_message :: string
  tm_exit_code :: int

text \<open>A \<open>ContainerState\<close> has three pointers, of which the API sets at most one.\<close>

record container_state =
  st_waiting :: "waiting_state option"
  st_running :: bool
  st_terminated :: "terminated_state option"

record container_status =
  cs_state :: container_state
  cs_last_state :: container_state
  cs_restart_count :: int

record condition =
  cd_type :: string
  cd_status :: string
  cd_message :: string

record pod =
  pod_namespace :: string
  pod_name :: string
  pod_owners :: "owner_ref list"
  pod_node_name :: string
  pod_phase :: string
  pod_statuses :: "container_status list"
  pod_conditions :: "condition list"

text \<open>A label selector is passed on to client-go and never looked into.\<close>

datatype selector = Selector "(string \<times> string) list"

text \<open>\<open>resource.Quantity\<close> as what the code reads of it: \<open>Value()\<close> and \<open>Format\<close>.\<close>

record quantity =
  q_value :: int
  q_format :: string

definition zero_quantity :: quantity where
  "zero_quantity = \<lparr>q_value = 0, q_format = []\<rparr>"

record container =
  ct_limits :: "(string \<rightharpoonup> quantity) option"

record deployment =
  dep_replicas :: "int option"
  dep_selector :: selector
  dep_annotations :: "(string \<rightharpoonup> string) option"
  dep_containers :: "container list"
  dep_ready_replicas :: int

record node =
  nd_name :: string
  nd_labels :: "string \<rightharpoonup> string"
  nd_architecture :: string
  nd_conditions :: "condition list"

text \<open>An unstructured object's nested value, as the dynamic client decodes it.\<close>

datatype uval = UMap "string \<rightharpoonup> uval" | UStr string | UOther

section \<open>The API and the clock\<close>

record 's kube =
  k_get_pod :: "string \<Rightarrow> string \<Rightarrow> 's \<Rightarrow> (goerr + pod) \<times> 's"
  k_list_pods :: "string \<Rightarrow> string \<Rightarrow> 's \<Rightarrow> (goerr + pod list) \<times> 's"
  k_delete_pod :: "string \<Rightarrow> string \<Rightarrow> 's \<Rightarrow> goerr option \<times> 's"
  k_pod_logs :: "string \<Rightarrow> string \<Rightarrow> bool \<Rightarrow> int \<Rightarrow> 's \<Rightarrow> (goerr + string) \<times> 's"
  k_get_deployment :: "string \<Rightarrow> string \<Rightarrow> 's \<Rightarrow> (goerr + deployment) \<times> 's"
  k_update_deployment :: "string \<Rightarrow> string \<Rightarrow> deployment \<Rightarrow> 's \<Rightarrow> goerr option \<times> 's"
  k_get_replicaset :: "string \<Rightarrow> string \<Rightarrow> 's \<Rightarrow> (goerr + owner_ref list) \<times> 's"
  k_get_daemonset :: "string \<Rightarrow> string \<Rightarrow> 's \<Rightarrow> (goerr + selector) \<times> 's"
  k_selector_string :: "selector \<Rightarrow> goerr + string"
  k_delete_hpa :: "string \<Rightarrow> string \<Rightarrow> 's \<Rightarrow> goerr option \<times> 's"
  k_get_scaled_object :: "string \<Rightarrow> string \<Rightarrow> 's \<Rightarrow> (goerr + uval) \<times> 's"
  k_nested_slice :: "uval \<Rightarrow> string list \<Rightarrow> uval list option"
  k_list_nodes :: "'s \<Rightarrow> (goerr + node list) \<times> 's"
  k_get_node :: "string \<Rightarrow> 's \<Rightarrow> (goerr + node) \<times> 's"
  k_quantity_string :: "quantity \<Rightarrow> string"
  k_now :: "'s \<Rightarrow> int \<times> 's"
  k_sleep :: "int \<Rightarrow> 's \<Rightarrow> unit \<times> 's"
  k_after :: "int \<Rightarrow> 's \<Rightarrow> goerr option \<times> 's"
  k_max_polls :: nat

text \<open>
  \<open>k_now\<close> reads the clock in nanoseconds; \<open>k_after d\<close> is the \<open>select\<close> of the poll loops: \<open>None\<close> when
  \<open>time.After(d)\<close> fires, \<open>Some\<close> of the context's error when the context ends first. \<open>k_nested_slice\<close>
  is \<open>unstructured.NestedSlice\<close>, \<open>None\<close> when it finds nothing or reports an error. \<open>k_max_polls\<close> bounds
  the model's poll loops.
\<close>

definition nanosecond :: int where "nanosecond = 1"
definition second :: int where "second = 1000000000"

definition slash :: "string \<Rightarrow> string \<Rightarrow> string" where
  "slash ns name = ns @ ''/'' @ name"

section \<open>Dates\<close>

text \<open>\<open>Time.UTC().Format(time.RFC3339)\<close> of a Unix time in nanoseconds: days to a proleptic
  Gregorian date over 400-year eras, as the calendar defines it.\<close>

definition civil_from_days :: "int \<Rightarrow> int \<times> int \<times> int" where
  "civil_from_days days =
    (let z = days + 719468;
         era = z div 146097;
         doe = z mod 146097;
         yoe = (doe - doe div 1460 + doe div 36524 - doe div 146096) div 365;
         doy = doe - (365 * yoe + yoe div 4 - yoe div 100);
         mp = (5 * doy + 2) div 153;
         d = doy - (153 * mp + 2) div 5 + 1;
         m = (if mp < 10 then mp + 3 else mp - 9);
         y = yoe + era * 400 + (if m \<le> 2 then 1 else 0)
     in (y, m, d))"

definition pad :: "nat \<Rightarrow> int \<Rightarrow> string" where
  "pad w n = (let t = fmt_d n in replicate (w - length t) (CHR ''0'') @ t)"

definition format_with :: "string \<Rightarrow> string \<Rightarrow> int \<Rightarrow> string" where
  "format_with sep zone ns =
    (let secs = ns div second; days = secs div 86400; rem = secs mod 86400 in
     case civil_from_days days of (y, m, d) \<Rightarrow>
       pad 4 y @ ''-'' @ pad 2 m @ ''-'' @ pad 2 d @ sep
       @ pad 2 (rem div 3600) @ '':'' @ pad 2 (rem mod 3600 div 60) @ '':'' @ pad 2 (rem mod 60) @ zone)"

definition format_rfc3339 :: "int \<Rightarrow> string" where
  "format_rfc3339 ns = format_with ''T'' ''Z'' ns"

section \<open>Pods\<close>

definition list_pods :: "'s kube \<Rightarrow> string \<Rightarrow> ('s, goerr + pod list) io" where
  "list_pods K ns = io_wrap (io_call (k_list_pods K ns [])) (''listing pods in '' @ fmt_q ns @ '': '')
     (\<lambda>ps. io_ret (Inr ps))"

definition restart_pod :: "'s kube \<Rightarrow> string \<Rightarrow> string \<Rightarrow> ('s, goerr + string) io" where
  "restart_pod K ns name =
    io_check (io_call (k_delete_pod K ns name)) (''deleting pod '' @ slash ns name @ '': '')
      (io_ret (Inr (''pod '' @ slash ns name @ '' deleted, controller will recreate it'')))"

definition get_pod :: "'s kube \<Rightarrow> string \<Rightarrow> string \<Rightarrow> (pod \<Rightarrow> ('s, goerr + 'b) io) \<Rightarrow> ('s, goerr + 'b) io" where
  "get_pod K ns name k =
    io_wrap (io_call (k_get_pod K ns name)) (''getting pod '' @ slash ns name @ '': '') k"

definition pod_phase_of :: "'s kube \<Rightarrow> string \<Rightarrow> string \<Rightarrow> ('s, goerr + string) io" where
  "pod_phase_of K ns name = get_pod K ns name (\<lambda>p. io_ret (Inr (pod_phase p)))"

definition wrap32 :: "int \<Rightarrow> int" where
  "wrap32 n = (n + 2 ^ 31) mod 2 ^ 32 - 2 ^ 31"

definition pod_restart_count :: "'s kube \<Rightarrow> string \<Rightarrow> string \<Rightarrow> ('s, goerr + int) io" where
  "pod_restart_count K ns name = get_pod K ns name
     (\<lambda>p. io_ret (Inr (fold (\<lambda>cs total. wrap32 (total + cs_restart_count cs)) (pod_statuses p) 0)))"

definition first_running :: "pod list \<Rightarrow> string option" where
  "first_running ps = (case find (\<lambda>p. pod_phase p = ''Running'') ps of
      Some p \<Rightarrow> Some (pod_name p)
    | None \<Rightarrow> (case ps of [] \<Rightarrow> None | p # _ \<Rightarrow> Some (pod_name p)))"

definition pod_for_deployment :: "'s kube \<Rightarrow> string \<Rightarrow> string \<Rightarrow> ('s, goerr + string) io" where
  "pod_for_deployment K ns dep =
    io_wrap (io_call (k_get_deployment K ns dep)) (''getting deployment '' @ slash ns dep @ '': '') (\<lambda>d.
    io_wrap (io_ret (k_selector_string K (dep_selector d)))
      (''deployment '' @ slash ns dep @ '' has an invalid selector: '') (\<lambda>sel.
    io_wrap (io_call (k_list_pods K ns sel)) (''listing pods for deployment '' @ slash ns dep @ '': '') (\<lambda>ps.
      case first_running ps of
        None \<Rightarrow> io_ret (Inl (errorf (''deployment '' @ slash ns dep @ '' has no pods right now'')))
      | Some name \<Rightarrow> io_ret (Inr name))))"

definition owner_of_kind :: "string \<Rightarrow> owner_ref list \<Rightarrow> string option" where
  "owner_of_kind kind refs = map_option or_name (find (\<lambda>r. or_kind r = kind) refs)"

text \<open>
  A pod whose first ReplicaSet owner has an empty name counts as not owned: the code tests the name.
\<close>

definition owning_deployment_name :: "'s kube \<Rightarrow> string \<Rightarrow> string \<Rightarrow> ('s, goerr + string) io" where
  "owning_deployment_name K ns name =
    get_pod K ns name (\<lambda>p.
      let rs = (case owner_of_kind ''ReplicaSet'' (pod_owners p) of None \<Rightarrow> [] | Some n \<Rightarrow> n) in
      if rs = [] then io_ret (Inl (errorf (''pod '' @ slash ns name @ '' is not owned by a ReplicaSet'')))
      else io_wrap (io_call (k_get_replicaset K ns rs)) (''getting replicaset '' @ slash ns rs @ '': '') (\<lambda>refs.
        case owner_of_kind ''Deployment'' refs of
          Some d \<Rightarrow> io_ret (Inr d)
        | None \<Rightarrow> io_ret (Inl (errorf (''replicaset '' @ slash ns rs @ '' is not owned by a Deployment'')))))"

section \<open>Deployments\<close>

definition get_deployment ::
  "'s kube \<Rightarrow> string \<Rightarrow> string \<Rightarrow> (deployment \<Rightarrow> ('s, goerr + 'b) io) \<Rightarrow> ('s, goerr + 'b) io" where
  "get_deployment K ns name k =
    io_wrap (io_call (k_get_deployment K ns name)) (''getting deployment '' @ slash ns name @ '': '') k"

definition deployment_replicas :: "'s kube \<Rightarrow> string \<Rightarrow> string \<Rightarrow> ('s, goerr + int) io" where
  "deployment_replicas K ns name = get_deployment K ns name
     (\<lambda>d. io_ret (Inr (case dep_replicas d of None \<Rightarrow> 1 | Some n \<Rightarrow> n)))"

definition scale_deployment :: "'s kube \<Rightarrow> string \<Rightarrow> string \<Rightarrow> int \<Rightarrow> ('s, goerr + string) io" where
  "scale_deployment K ns name n = get_deployment K ns name (\<lambda>d.
     io_check (io_call (k_update_deployment K ns name (d\<lparr>dep_replicas := Some n\<rparr>)))
       (''scaling deployment '' @ slash ns name @ '' to '' @ fmt_d n @ '': '')
       (io_ret (Inr (''deployment '' @ slash ns name @ '' scaled to '' @ fmt_d n @ '' replicas''))))"

definition deployment_ready_replicas :: "'s kube \<Rightarrow> string \<Rightarrow> string \<Rightarrow> ('s, goerr + int) io" where
  "deployment_ready_replicas K ns name = get_deployment K ns name
     (\<lambda>d. io_ret (Inr (dep_ready_replicas d)))"

definition annotate_restart :: "int \<Rightarrow> deployment \<Rightarrow> deployment" where
  "annotate_restart now d =
    (let ann = (case dep_annotations d of None \<Rightarrow> Map.empty | Some a \<Rightarrow> a) in
     d\<lparr>dep_annotations := Some (ann(''kubectl.kubernetes.io/restartedAt'' \<mapsto> format_rfc3339 now))\<rparr>)"

definition rollout_restart_deployment :: "'s kube \<Rightarrow> string \<Rightarrow> string \<Rightarrow> ('s, goerr + string) io" where
  "rollout_restart_deployment K ns name = get_deployment K ns name (\<lambda>d.
     io_bind (io_call (k_now K)) (\<lambda>now.
     io_check (io_call (k_update_deployment K ns name (annotate_restart now d)))
       (''rollout-restarting deployment '' @ slash ns name @ '': '')
       (io_ret (Inr (''deployment '' @ slash ns name @ '' rollout restarted'')))))"

section \<open>DaemonSets, HPAs, ScaledObjects\<close>

definition daemonset_pod_on_node :: "'s kube \<Rightarrow> string \<Rightarrow> string \<Rightarrow> string \<Rightarrow> ('s, goerr + pod) io" where
  "daemonset_pod_on_node K ns ds nodename =
    io_wrap (io_call (k_get_daemonset K ns ds)) (''getting daemonset '' @ slash ns ds @ '': '') (\<lambda>sel0.
    io_wrap (io_ret (k_selector_string K sel0)) (''parsing daemonset '' @ slash ns ds @ '' selector: '') (\<lambda>sel.
    io_wrap (io_call (k_list_pods K ns sel)) (''listing pods for daemonset '' @ slash ns ds @ '': '') (\<lambda>ps.
      case find (\<lambda>p. pod_node_name p = nodename) ps of
        Some p \<Rightarrow> io_ret (Inr p)
      | None \<Rightarrow> io_ret (Inl (errorf (''daemonset '' @ slash ns ds @ '' has no pod on node '' @ nodename))))))"

definition delete_hpa :: "'s kube \<Rightarrow> string \<Rightarrow> string \<Rightarrow> ('s, goerr + string) io" where
  "delete_hpa K ns name =
    io_check (io_call (k_delete_hpa K ns name)) (''deleting hpa '' @ slash ns name @ '': '')
      (io_ret (Inr (''hpa '' @ slash ns name @ '' deleted, KEDA will recreate it'')))"

definition nested_is :: "uval option \<Rightarrow> string \<Rightarrow> bool" where
  "nested_is v t = (case v of Some (UStr x) \<Rightarrow> x = t | _ \<Rightarrow> False)"

fun ready_condition :: "uval list \<Rightarrow> bool \<times> string" where
  "ready_condition [] = (False, ''no Ready condition reported yet'')"
| "ready_condition (c # cs) =
    (case c of
       UMap m \<Rightarrow>
         if \<not> nested_is (m ''type'') ''Ready'' then ready_condition cs
         else (nested_is (m ''status'') ''True'',
               case m ''message'' of Some (UStr t) \<Rightarrow> t | _ \<Rightarrow> [])
     | _ \<Rightarrow> ready_condition cs)"

definition scaled_object_ready :: "'s kube \<Rightarrow> string \<Rightarrow> string \<Rightarrow> ('s, goerr + bool \<times> string) io" where
  "scaled_object_ready K ns name =
    io_wrap (io_call (k_get_scaled_object K ns name)) (''getting scaledobject '' @ slash ns name @ '': '') (\<lambda>obj.
      case k_nested_slice K obj [''status'', ''conditions''] of
        None \<Rightarrow> io_ret (Inr (False, ''no status.conditions reported yet''))
      | Some conds \<Rightarrow> io_ret (Inr (ready_condition conds)))"

section \<open>Diagnostics\<close>

record termination_info =
  ti_found :: bool
  ti_reason :: string
  ti_message :: string
  ti_exit_code :: int

definition no_termination :: termination_info where
  "no_termination = \<lparr>ti_found = False, ti_reason = [], ti_message = [], ti_exit_code = 0\<rparr>"

definition termination_of :: "terminated_state \<Rightarrow> termination_info" where
  "termination_of t = \<lparr>ti_found = True, ti_reason = tm_reason t, ti_message = tm_message t,
     ti_exit_code = tm_exit_code t\<rparr>"

definition first_termination :: "container_status list \<Rightarrow> termination_info" where
  "first_termination css =
    (case css of
       [] \<Rightarrow> no_termination
     | cs # _ \<Rightarrow>
        (case st_terminated (cs_state cs) of
           Some t \<Rightarrow> termination_of t
         | None \<Rightarrow>
            (case st_terminated (cs_last_state cs) of
               Some t \<Rightarrow> termination_of t
             | None \<Rightarrow> no_termination)))"

definition container_termination :: "'s kube \<Rightarrow> string \<Rightarrow> string \<Rightarrow> ('s, goerr + termination_info) io" where
  "container_termination K ns name = get_pod K ns name
     (\<lambda>p. io_ret (Inr (first_termination (pod_statuses p))))"

definition container_logs :: "'s kube \<Rightarrow> string \<Rightarrow> string \<Rightarrow> bool \<Rightarrow> int \<Rightarrow> ('s, goerr + string) io" where
  "container_logs K ns name previous tail =
    io_wrap (io_call (k_pod_logs K ns name previous tail)) (''reading logs for '' @ slash ns name @ '': '')
      (\<lambda>raw. io_ret (Inr raw))"

record waiting_info =
  wi_found :: bool
  wi_reason :: string
  wi_message :: string

definition no_waiting :: waiting_info where
  "no_waiting = \<lparr>wi_found = False, wi_reason = [], wi_message = []\<rparr>"

definition container_waiting :: "'s kube \<Rightarrow> string \<Rightarrow> string \<Rightarrow> ('s, goerr + waiting_info) io" where
  "container_waiting K ns name = get_pod K ns name (\<lambda>p.
     io_ret (Inr (case pod_statuses p of
         [] \<Rightarrow> no_waiting
       | cs # _ \<Rightarrow> (case st_waiting (cs_state cs) of
           None \<Rightarrow> no_waiting
         | Some w \<Rightarrow> \<lparr>wi_found = True, wi_reason = wt_reason w, wi_message = wt_message w\<rparr>))))"

definition memory_limit :: "container \<Rightarrow> quantity" where
  "memory_limit c = (case ct_limits c of None \<Rightarrow> zero_quantity
     | Some m \<Rightarrow> (case m ''memory'' of None \<Rightarrow> zero_quantity | Some q \<Rightarrow> q))"

definition container_memory_limit :: "'s kube \<Rightarrow> string \<Rightarrow> string \<Rightarrow> ('s, goerr + quantity) io" where
  "container_memory_limit K ns dep = get_deployment K ns dep (\<lambda>d.
     case dep_containers d of
       [] \<Rightarrow> io_ret (Inl (errorf (''deployment '' @ slash ns dep @ '' has no containers'')))
     | c # _ \<Rightarrow> io_ret (Inr (memory_limit c)))"

text \<open>
  float64 as in IEEE 754: a positive value is a fraction, and an operation gives the float64 nearest to the
  exact result, 53 significant bits, ties to even. No limit or factor comes near the smallest or the largest
  exponent. A factor is the exact value \<open>num / den\<close> of its float64, 1.5 where the code leaves it unset. The
  conversion back truncates towards zero; a value that no int64 holds is left to the implementation by Go,
  and on amd64 is the smallest int64.
\<close>

type_synonym factor = "int \<times> int"

function bit_len :: "int \<Rightarrow> nat" where
  "bit_len n = (if n \<le> 0 then 0 else Suc (bit_len (n div 2)))"
  by pat_completeness auto
termination by (relation "measure nat") auto

declare bit_len.simps [simp del]

definition half_even :: "int \<Rightarrow> int \<Rightarrow> int" where
  "half_even n d =
    (let q = n div d; r = n mod d in
     if 2 * r < d \<or> 2 * r = d \<and> even q then q else q + 1)"

text \<open>The float64 nearest to \<open>n / d\<close>, as a fraction: 53 significant bits, ties to even.\<close>

definition float64_nearest :: "int \<times> int \<Rightarrow> int \<times> int" where
  "float64_nearest = (\<lambda>(n, d).
     let e = int (bit_len n) - int (bit_len d) - 53;
         e' = (if d * 2 ^ nat e * 2 ^ 53 \<le> n * 2 ^ nat (- e) then e + 1 else e)
     in (half_even (n * 2 ^ nat (- e')) (d * 2 ^ nat e') * 2 ^ nat e', 2 ^ nat (- e')))"

definition int64_of :: "int \<Rightarrow> int" where
  "int64_of i = (if - (2 ^ 63) \<le> i \<and> i < 2 ^ 63 then i else - (2 ^ 63))"

definition scale_value :: "factor \<Rightarrow> int \<Rightarrow> int" where
  "scale_value f v =
    (case float64_nearest (\<bar>v\<bar>, 1) of (vn, vd) \<Rightarrow>
     case float64_nearest (vn * \<bar>fst f\<bar>, vd * snd f) of (n, d) \<Rightarrow>
       int64_of (sgn v * sgn (fst f) * (n div d)))"

definition set_memory_limit :: "quantity \<Rightarrow> container \<Rightarrow> container" where
  "set_memory_limit q c =
    (let m = (case ct_limits c of None \<Rightarrow> Map.empty | Some m \<Rightarrow> m) in
     c\<lparr>ct_limits := Some (m(''memory'' \<mapsto> q))\<rparr>)"

definition increase_container_memory_limit ::
  "'s kube \<Rightarrow> string \<Rightarrow> string \<Rightarrow> factor \<Rightarrow> ('s, goerr + string) io" where
  "increase_container_memory_limit K ns dep f = get_deployment K ns dep (\<lambda>d.
     case dep_containers d of
       [] \<Rightarrow> io_ret (Inl (errorf (''deployment '' @ slash ns dep @ '' has no containers'')))
     | c # cs \<Rightarrow>
        let current = memory_limit c;
            new = \<lparr>q_value = scale_value f (q_value current), q_format = q_format current\<rparr> in
        io_check (io_call (k_update_deployment K ns dep (d\<lparr>dep_containers := set_memory_limit new c # cs\<rparr>)))
          (''updating memory limit on '' @ slash ns dep @ '': '')
          (io_ret (Inr (''deployment '' @ slash ns dep @ '' memory limit: '' @ k_quantity_string K current
             @ '' -> '' @ k_quantity_string K new))))"

section \<open>Nodes\<close>

record node_info =
  ni_name :: string
  ni_zone :: string
  ni_region :: string
  ni_instance_type :: string
  ni_architecture :: string
  ni_ready :: bool

definition label :: "node \<Rightarrow> string \<Rightarrow> string" where
  "label n k = (case nd_labels n k of None \<Rightarrow> [] | Some v \<Rightarrow> v)"

definition node_ready :: "node \<Rightarrow> bool" where
  "node_ready n = (case find (\<lambda>c. cd_type c = ''Ready'') (nd_conditions n) of
      None \<Rightarrow> False | Some c \<Rightarrow> cd_status c = ''True'')"

definition node_info_of :: "node \<Rightarrow> node_info" where
  "node_info_of n = \<lparr>ni_name = nd_name n, ni_zone = label n ''topology.kubernetes.io/zone'',
     ni_region = label n ''topology.kubernetes.io/region'',
     ni_instance_type = label n ''node.kubernetes.io/instance-type'',
     ni_architecture = nd_architecture n, ni_ready = node_ready n\<rparr>"

definition list_nodes :: "'s kube \<Rightarrow> ('s, goerr + node_info list) io" where
  "list_nodes K = io_wrap (io_call (k_list_nodes K)) ''listing nodes: ''
     (\<lambda>ns. io_ret (Inr (map node_info_of ns)))"

definition pod_node_name_of :: "'s kube \<Rightarrow> string \<Rightarrow> string \<Rightarrow> ('s, goerr + string) io" where
  "pod_node_name_of K ns name = get_pod K ns name (\<lambda>p. io_ret (Inr (pod_node_name p)))"

definition node_architecture :: "'s kube \<Rightarrow> string \<Rightarrow> ('s, goerr + string) io" where
  "node_architecture K name = io_wrap (io_call (k_get_node K name)) (''getting node '' @ name @ '': '')
     (\<lambda>n. io_ret (Inr (nd_architecture n)))"

text \<open>The set of architectures, a Go map whose order the caller does not rely on, without repetitions.\<close>

definition cluster_architectures :: "'s kube \<Rightarrow> ('s, goerr + string list) io" where
  "cluster_architectures K = io_wrap (io_call (k_list_nodes K)) ''listing nodes: ''
     (\<lambda>ns. io_ret (Inr (remdups (filter (\<lambda>a. a \<noteq> []) (map nd_architecture ns)))))"

section \<open>Every operation returns\<close>

lemma get_returns [total_intros]:
  "(\<And>p. returns (k p)) \<Longrightarrow> returns (get_pod K ns name k)"
  "(\<And>d. returns (k' d)) \<Longrightarrow> returns (get_deployment K ns name k')"
  by (auto simp: get_pod_def get_deployment_def intro!: total_intros)

lemmas client_defs = list_pods_def restart_pod_def pod_phase_of_def pod_restart_count_def
  pod_for_deployment_def owning_deployment_name_def deployment_replicas_def scale_deployment_def
  deployment_ready_replicas_def rollout_restart_deployment_def daemonset_pod_on_node_def
  delete_hpa_def scaled_object_ready_def container_termination_def container_logs_def
  container_waiting_def container_memory_limit_def increase_container_memory_limit_def
  list_nodes_def pod_node_name_of_def node_architecture_def cluster_architectures_def

lemma client_returns [total_intros]:
  "returns (list_pods K ns)" "returns (restart_pod K ns n)" "returns (pod_phase_of K ns n)"
  "returns (pod_restart_count K ns n)" "returns (pod_for_deployment K ns n)"
  "returns (owning_deployment_name K ns n)" "returns (deployment_replicas K ns n)"
  "returns (scale_deployment K ns n i)" "returns (deployment_ready_replicas K ns n)"
  "returns (rollout_restart_deployment K ns n)" "returns (daemonset_pod_on_node K ns n nd)"
  "returns (delete_hpa K ns n)" "returns (scaled_object_ready K ns n)"
  "returns (container_termination K ns n)" "returns (container_logs K ns n b t)"
  "returns (container_waiting K ns n)" "returns (container_memory_limit K ns n)"
  "returns (increase_container_memory_limit K ns n f)" "returns (list_nodes K)"
  "returns (pod_node_name_of K ns n)" "returns (node_architecture K n)"
  "returns (cluster_architectures K)"
  by (auto simp: client_defs Let_def split: list.splits option.splits intro!: total_intros)

section \<open>Raising a memory limit\<close>

lemma bit_len_ge: "0 < n \<Longrightarrow> 2 ^ bit_len n \<le> 2 * n"
proof (induction n rule: bit_len.induct)
  case (1 n)
  show ?case
  proof (cases "n = 1")
    case True
    then show ?thesis by (simp add: bit_len.simps)
  next
    case False
    with 1 have "2 ^ bit_len (n div 2) \<le> 2 * (n div 2)" by auto
    then show ?thesis using "1.prems" by (simp add: bit_len.simps [of n])
  qed
qed

lemma bit_len_le:
  assumes "n < 2 ^ k"
  shows "bit_len n \<le> k"
proof (cases "0 < n")
  case True
  with bit_len_ge assms have "(2::int) ^ bit_len n < 2 ^ Suc k" by fastforce
  then have "bit_len n < Suc k" by (rule power_less_imp_less_exp [rotated]) simp
  then show ?thesis by simp
qed (simp add: bit_len.simps)

lemma bit_len_power: "bit_len (2 ^ j) = Suc j"
proof (induction j)
  case (Suc j)
  then show ?case by (simp add: bit_len.simps [of "2 * 2 ^ j"] not_le)
qed (simp add: bit_len.simps)

lemma half_even_exact: "0 < d \<Longrightarrow> half_even (d * q) d = q"
  by (simp add: half_even_def Let_def)

text \<open>A value of at most 53 bits, halves included, is a float64 of its own.\<close>

lemma float64_exact:
  assumes "k \<le> 1" and "0 \<le> a" and "a < 2 ^ 53"
  shows "\<exists>M. float64_nearest (a * 2 ^ m, 2 ^ k * 2 ^ m) = (a * 2 ^ M, 2 ^ k * 2 ^ M)"
proof -
  define n and d :: int where "n = a * 2 ^ m" and "d = 2 ^ k * 2 ^ m"
  define e where "e = int (bit_len n) - int (bit_len d) - 53"
  define e' where "e' = (if d * 2 ^ nat e * 2 ^ 53 \<le> n * 2 ^ nat (- e) then e + 1 else e)"
  have "n < 2 ^ (53 + m)" using assms(3) by (simp add: n_def power_add)
  then have "bit_len n \<le> 53 + m" by (rule bit_len_le)
  moreover have "bit_len d = Suc (k + m)" unfolding d_def power_add [symmetric] by (rule bit_len_power)
  ultimately have low: "e' \<le> - int k" by (simp add: e'_def e_def)
  define M where "M = nat (- e') - k"
  have M: "nat (- e') = k + M" "nat e' = 0" using low by (simp_all add: M_def)
  have "n * 2 ^ (k + M) = d * (a * 2 ^ M)" by (simp add: n_def d_def power_add)
  then have "half_even (n * 2 ^ (k + M)) d = a * 2 ^ M"
    by (simp add: half_even_exact d_def)
  moreover have "float64_nearest (n, d) = (half_even (n * 2 ^ nat (- e')) (d * 2 ^ nat e') * 2 ^ nat e', 2 ^ nat (- e'))"
    unfolding float64_nearest_def prod.case Let_def e'_def e_def ..
  ultimately show ?thesis by (auto simp: M n_def d_def power_add)
qed

text \<open>Limits below 2^51 bytes (two pebibytes) are raised by exactly one half, truncated.\<close>

lemma scale_value_exact:
  assumes "0 \<le> v" and "v < 2 ^ 51"
  shows "scale_value (3, 2) v = v * 3 div 2"
proof -
  obtain M where M: "float64_nearest (v, 1) = (v * 2 ^ M, 2 ^ M)"
    using float64_exact [of 0 v 0] assms by auto
  obtain L where L: "float64_nearest (v * 3 * 2 ^ M, 2 * 2 ^ M) = (v * 3 * 2 ^ L, 2 * 2 ^ L)"
    using float64_exact [of 1 "v * 3" M] assms by auto
  have "v * 3 * 2 ^ L div (2 * 2 ^ L) = v * 3 div 2" by simp
  moreover have "scale_value (3, 2) v = int64_of (sgn v * (v * 3 * 2 ^ L div (2 * 2 ^ L)))"
    using L assms(1) by (simp add: scale_value_def M ac_simps)
  ultimately show ?thesis using assms by (auto simp: int64_of_def sgn_if)
qed

section \<open>Which operations write\<close>

text \<open>
  \<open>kube_reads K I\<close>: every call of the API that does not write, and the clock, keep \<open>I\<close>. The read
  operations of the client then keep it.
\<close>

definition kube_reads :: "'s kube \<Rightarrow> ('s \<Rightarrow> bool) \<Rightarrow> bool" where
  "kube_reads K I \<longleftrightarrow>
     (\<forall>ns n. keeps I (io_call (k_get_pod K ns n))) \<and> (\<forall>ns l. keeps I (io_call (k_list_pods K ns l)))
   \<and> (\<forall>ns n b t. keeps I (io_call (k_pod_logs K ns n b t)))
   \<and> (\<forall>ns n. keeps I (io_call (k_get_deployment K ns n)))
   \<and> (\<forall>ns n. keeps I (io_call (k_get_replicaset K ns n)))
   \<and> (\<forall>ns n. keeps I (io_call (k_get_daemonset K ns n)))
   \<and> (\<forall>ns n. keeps I (io_call (k_get_scaled_object K ns n)))
   \<and> keeps I (io_call (k_list_nodes K)) \<and> (\<forall>n. keeps I (io_call (k_get_node K n)))
   \<and> keeps I (io_call (k_now K)) \<and> (\<forall>d. keeps I (io_call (k_sleep K d)))
   \<and> (\<forall>d. keeps I (io_call (k_after K d)))"

lemma kube_reads_calls [keeps_intros]:
  assumes "kube_reads K I"
  shows "keeps I (io_call (k_get_pod K ns n))" "keeps I (io_call (k_list_pods K ns l))"
    "keeps I (io_call (k_pod_logs K ns n b t))" "keeps I (io_call (k_get_deployment K ns n))"
    "keeps I (io_call (k_get_replicaset K ns n))" "keeps I (io_call (k_get_daemonset K ns n))"
    "keeps I (io_call (k_get_scaled_object K ns n))" "keeps I (io_call (k_list_nodes K))"
    "keeps I (io_call (k_get_node K n))" "keeps I (io_call (k_now K))"
    "keeps I (io_call (k_sleep K d))" "keeps I (io_call (k_after K d))"
  using assms by (simp_all add: kube_reads_def)

lemma get_keeps [keeps_intros]:
  "kube_reads K I \<Longrightarrow> (\<And>p. keeps I (k p)) \<Longrightarrow> keeps I (get_pod K ns name k)"
  "kube_reads K I \<Longrightarrow> (\<And>d. keeps I (k' d)) \<Longrightarrow> keeps I (get_deployment K ns name k')"
  by (auto simp: get_pod_def get_deployment_def intro!: keeps_intros)

lemma client_reads_keep [keeps_intros]:
  assumes "kube_reads K I"
  shows "keeps I (list_pods K ns)" "keeps I (pod_phase_of K ns n)" "keeps I (pod_restart_count K ns n)"
    "keeps I (pod_for_deployment K ns n)" "keeps I (owning_deployment_name K ns n)"
    "keeps I (deployment_replicas K ns n)" "keeps I (deployment_ready_replicas K ns n)"
    "keeps I (daemonset_pod_on_node K ns n nd)" "keeps I (scaled_object_ready K ns n)"
    "keeps I (container_termination K ns n)" "keeps I (container_logs K ns n b t)"
    "keeps I (container_waiting K ns n)" "keeps I (container_memory_limit K ns n)"
    "keeps I (list_nodes K)" "keeps I (pod_node_name_of K ns n)" "keeps I (node_architecture K n)"
    "keeps I (cluster_architectures K)"
  by (auto simp: client_defs Let_def split: list.splits option.splits intro!: keeps_intros assms)

end
