(* ===== verification/Playbooks.thy ===== *)
theory Playbooks imports ExecEngine K8sClient begin

text \<open>
  internal/playbooks: the playbook interface and registry (playbooks.go), and the playbooks of
  corek8s, calico and keda. A playbook is a record of its methods, each over the client \<open>K\<close>; a
  ladder's closures are effects over the state of the world. The poll loops (\<open>waitFor\<close>) recurse on a
  bound \<open>k_max_polls\<close>, at which they end in \<open>Hang\<close>; with a clock that does not go back and a bound of
  92 polls no loop of any ladder reaches it (\<open>playbook_clock\<close>). The locale \<open>playbook\<close> is the contract
  every playbook keeps; it is interpreted on the six of the code.
\<close>

section \<open>Signals, findings, playbooks\<close>

record signal =
  sig_kind :: string
  sig_namespace :: string
  sig_name :: string
  sig_node_name :: string

text \<open>\<open>Meta\<close> is a Go map; a nil map and an empty one read alike.\<close>

type_synonym meta = "string \<rightharpoonup> string"

record finding =
  fi_signal :: signal
  fi_summary :: string
  fi_meta :: meta

text \<open>\<open>pb_recheck\<close> is \<open>None\<close> for a playbook that is not \<open>Recheckable\<close>; its result is an error, \<open>None\<close>
  for \<open>ok = false\<close>, or the finding and the ladder.\<close>

record 's playbook =
  pb_id :: string
  pb_resource :: string
  pb_detect :: "signal \<Rightarrow> bool"
  pb_diagnose :: "'s kube \<Rightarrow> signal \<Rightarrow> ('s, goerr + finding) io"
  pb_ladder :: "'s kube \<Rightarrow> finding \<Rightarrow> 's ladder"
  pb_recheck :: "('s kube \<Rightarrow> signal \<Rightarrow> meta \<Rightarrow> ('s, goerr + (finding \<times> 's ladder) option) io) option"

definition registry_find :: "'s playbook list \<Rightarrow> signal \<Rightarrow> 's playbook option" where
  "registry_find ps sig = find (\<lambda>p. pb_detect p sig) ps"

definition err_no_playbook :: "signal \<Rightarrow> goerr" where
  "err_no_playbook sig = errorf (''nenhum playbook registrado sabe lidar com o sinal '' @ fmt_q (sig_kind sig)
     @ '' (namespace='' @ sig_namespace sig @ '', name='' @ sig_name sig @ '')'')"

definition meta_get :: "meta \<Rightarrow> string \<Rightarrow> string" where
  "meta_get m k = (case m k of None \<Rightarrow> [] | Some v \<Rightarrow> v)"

text \<open>\<open>dep, hasDep := finding.Meta["deployment"]; hasDep = hasDep && dep != ""\<close>.\<close>

definition has_deployment :: "meta \<Rightarrow> bool" where
  "has_deployment m = (m ''deployment'' \<noteq> None \<and> meta_get m ''deployment'' \<noteq> [])"

section \<open>Polling\<close>

text \<open>
  The loop of \<open>waitFor\<close>, and of keda's own copy with a two-second step: check, then the deadline,
  then the \<open>select\<close>.
\<close>

fun poll_loop ::
  "'s kube \<Rightarrow> int \<Rightarrow> int \<Rightarrow> ('s, goerr + bool) io \<Rightarrow> nat \<Rightarrow> ('s, bool \<times> goerr option) io" where
  "poll_loop K step deadline check 0 = io_hang"
| "poll_loop K step deadline check (Suc n) =
    io_try check (\<lambda>e. io_ret (False, Some e)) (\<lambda>ok.
      if ok then io_ret (True, None)
      else io_bind (io_call (k_now K)) (\<lambda>now.
        if now > deadline then io_ret (False, None)
        else io_bind (io_call (k_after K step)) (\<lambda>done.
          case done of Some e \<Rightarrow> io_ret (False, Some e) | None \<Rightarrow> poll_loop K step deadline check n)))"

definition poll_for :: "'s kube \<Rightarrow> int \<Rightarrow> int \<Rightarrow> ('s, goerr + bool) io \<Rightarrow> ('s, bool \<times> goerr option) io" where
  "poll_for K step timeout check =
    io_bind (io_call (k_now K)) (\<lambda>now. poll_loop K step (now + timeout) check (k_max_polls K))"

definition wait_for :: "'s kube \<Rightarrow> int \<Rightarrow> ('s, goerr + bool) io \<Rightarrow> ('s, bool \<times> goerr option) io" where
  "wait_for K timeout check = poll_for K second timeout check"

section \<open>corek8s: common.go\<close>

definition pod_gone :: "'s kube \<Rightarrow> string \<Rightarrow> string \<Rightarrow> ('s, goerr + bool) io" where
  "pod_gone K ns pod = io_bind (pod_phase_of K ns pod) (\<lambda>r.
     io_ret (Inr (case r of Inl e \<Rightarrow> err_notfound e | Inr _ \<Rightarrow> False)))"

definition replicas_ready :: "'s kube \<Rightarrow> string \<Rightarrow> string \<Rightarrow> int \<Rightarrow> ('s, goerr + bool) io" where
  "replicas_ready K ns dep want = io_try (deployment_ready_replicas K ns dep)
     (\<lambda>e. io_ret (Inl e)) (\<lambda>ready. io_ret (Inr (ready \<ge> want)))"

definition wait_replicas :: "'s kube \<Rightarrow> string \<Rightarrow> string \<Rightarrow> int \<Rightarrow> ('s, bool \<times> goerr option) io" where
  "wait_replicas K ns dep timeout =
    io_try (deployment_replicas K ns dep) (\<lambda>e. io_ret (False, Some e)) (\<lambda>want.
      wait_for K timeout (replicas_ready K ns dep want))"

text \<open>A Go call \<open>out, err := f()\<close> as the pair the action's closure returns.\<close>

definition as_pair :: "('s, goerr + string) io \<Rightarrow> ('s, string \<times> goerr option) io" where
  "as_pair m = io_try m (\<lambda>e. io_ret ([], Some e)) (\<lambda>out. io_ret (out, None))"

definition restart_validate ::
  "'s kube \<Rightarrow> string \<Rightarrow> string \<Rightarrow> string \<Rightarrow> bool \<Rightarrow> ('s, bool \<times> goerr option) io" where
  "restart_validate K ns pod dep has_dep =
    io_bind (wait_for K (30 * second) (pod_gone K ns pod)) (\<lambda>(gone, err).
      if err \<noteq> None \<or> \<not> gone then io_ret (False, err)
      else if \<not> has_dep then io_ret (True, None)
      else wait_replicas K ns dep (60 * second))"

definition restart_pod_action :: "'s kube \<Rightarrow> string \<Rightarrow> string \<Rightarrow> string \<Rightarrow> bool \<Rightarrow> 's action" where
  "restart_pod_action K ns pod dep has_dep =
    \<lparr>act_name = ''restart pod'',
     act_description = ''kubectl delete pod '' @ pod @ '' -n '' @ ns,
     act_risk = risk_safe,
     act_snapshot = None,
     act_run = Some (as_pair (restart_pod K ns pod)),
     act_validate = Some (restart_validate K ns pod dep has_dep),
     act_rollback = None\<rparr>"

text \<open>The best-effort lookup of the owning Deployment that three \<open>Diagnose\<close> methods share.\<close>

definition with_owner ::
  "'s kube \<Rightarrow> signal \<Rightarrow> (string option \<Rightarrow> ('s, goerr + 'a) io) \<Rightarrow> ('s, goerr + 'a) io" where
  "with_owner K sig k =
    io_try (owning_deployment_name K (sig_namespace sig) (sig_name sig)) (\<lambda>_. k None) (\<lambda>dep. k (Some dep))"

definition deployment_meta :: "string option \<Rightarrow> meta" where
  "deployment_meta d = (case d of None \<Rightarrow> Map.empty | Some dep \<Rightarrow> [''deployment'' \<mapsto> dep])"

definition diagnosing :: "signal \<Rightarrow> string" where
  "diagnosing sig = ''diagnosing '' @ slash (sig_namespace sig) (sig_name sig) @ '': ''"

section \<open>corek8s: CrashLoopBackOff\<close>

definition clb_id :: string where "clb_id = ''core/crashloopbackoff''"

definition clb_diagnose :: "'s kube \<Rightarrow> signal \<Rightarrow> ('s, goerr + finding) io" where
  "clb_diagnose K sig =
    io_wrap (pod_restart_count K (sig_namespace sig) (sig_name sig)) (diagnosing sig) (\<lambda>restarts.
    with_owner K sig (\<lambda>dep.
      io_ret (Inr \<lparr>fi_signal = sig,
        fi_summary = ''pod '' @ slash (sig_namespace sig) (sig_name sig) @ '' est'' @ a_acute
          @ '' em CrashLoopBackOff, '' @ fmt_d restarts @ '' restarts registrados'',
        fi_meta = deployment_meta dep\<rparr>)))"

definition scale_run :: "'s kube \<Rightarrow> string \<Rightarrow> string \<Rightarrow> ('s, string \<times> goerr option) io" where
  "scale_run K ns dep =
    io_try (deployment_replicas K ns dep) (\<lambda>e. io_ret ([], Some e)) (\<lambda>n.
    io_try (scale_deployment K ns dep 0) (\<lambda>e. io_ret ([], Some e)) (\<lambda>_.
    io_bind (io_call (k_sleep K (2 * second))) (\<lambda>_.
    as_pair (scale_deployment K ns dep n))))"

definition scale_snapshot :: "'s kube \<Rightarrow> string \<Rightarrow> string \<Rightarrow> ('s, gstate option \<times> goerr option) io" where
  "scale_snapshot K ns dep =
    io_try (deployment_replicas K ns dep) (\<lambda>e. io_ret (Some [(''replicas'', GInt32 0)], Some e))
      (\<lambda>n. io_ret (Some [(''replicas'', GInt32 n)], None))"

definition snapshot_replicas :: "gstate \<Rightarrow> int" where
  "snapshot_replicas st = (case map_of st ''replicas'' of Some (GInt32 n) \<Rightarrow> n | _ \<Rightarrow> 0)"

definition scale_rollback :: "'s kube \<Rightarrow> string \<Rightarrow> string \<Rightarrow> gstate \<Rightarrow> ('s, goerr option) io" where
  "scale_rollback K ns dep st =
    io_try (scale_deployment K ns dep (snapshot_replicas st)) (\<lambda>e. io_ret (Some e)) (\<lambda>_. io_ret None)"

definition scale_action :: "'s kube \<Rightarrow> string \<Rightarrow> string \<Rightarrow> 's action" where
  "scale_action K ns dep =
    \<lparr>act_name = ''scale deployment down and up'',
     act_description = ''kubectl scale deployment '' @ dep @ '' -n '' @ ns
       @ '' --replicas=0 && kubectl scale deployment '' @ dep @ '' -n '' @ ns @ '' --replicas=<original>'',
     act_risk = risk_medium,
     act_snapshot = Some (scale_snapshot K ns dep),
     act_run = Some (scale_run K ns dep),
     act_validate = Some (wait_replicas K ns dep (60 * second)),
     act_rollback = Some (scale_rollback K ns dep)\<rparr>"

definition rollout_action :: "'s kube \<Rightarrow> string \<Rightarrow> string \<Rightarrow> 's action" where
  "rollout_action K ns dep =
    \<lparr>act_name = ''rollout restart deployment'',
     act_description = ''kubectl rollout restart deployment '' @ dep @ '' -n '' @ ns,
     act_risk = risk_medium,
     act_snapshot = None,
     act_run = Some (as_pair (rollout_restart_deployment K ns dep)),
     act_validate = Some (wait_replicas K ns dep (90 * second)),
     act_rollback = None\<rparr>"

definition clb_ladder :: "'s kube \<Rightarrow> finding \<Rightarrow> 's ladder" where
  "clb_ladder K f =
    (let ns = sig_namespace (fi_signal f); pod = sig_name (fi_signal f);
         dep = meta_get (fi_meta f) ''deployment''; has_dep = has_deployment (fi_meta f) in
     \<lparr>lad_playbook_id = clb_id,
      lad_actions = restart_pod_action K ns pod dep has_dep
        # (if has_dep then [scale_action K ns dep, rollout_action K ns dep] else [])\<rparr>)"

definition crash_loop_back_off :: "'s playbook" where
  "crash_loop_back_off =
    \<lparr>pb_id = clb_id, pb_resource = ''core'',
     pb_detect = (\<lambda>sig. sig_kind sig = ''PodCrashLoopBackOff''),
     pb_diagnose = clb_diagnose, pb_ladder = clb_ladder, pb_recheck = None\<rparr>"

section \<open>corek8s: OOMKilled\<close>

definition oom_id :: string where "oom_id = ''core/oomkilled''"

text \<open>\<open>LimitIncreaseFactor\<close>, a positive number or the default 1.5, as a fraction.\<close>

definition oom_factor :: "factor \<Rightarrow> factor" where
  "oom_factor f = (if fst f > 0 then f else (3, 2))"

text \<open>\<open>%.0f\<close> of the float64 \<open>factor*100\<close>: the nearest integer, ties to even.\<close>

definition fmt_percent :: "factor \<Rightarrow> string" where
  "fmt_percent f = (case float64_nearest (100 * fst f, snd f) of (n, d) \<Rightarrow> fmt_d (half_even n d))"

definition oom_diagnose :: "'s kube \<Rightarrow> signal \<Rightarrow> ('s, goerr + finding) io" where
  "oom_diagnose K sig =
    io_wrap (container_termination K (sig_namespace sig) (sig_name sig)) (diagnosing sig) (\<lambda>info.
      let summary = ''pod '' @ slash (sig_namespace sig) (sig_name sig)
            @ '' foi morto por OOM (Reason='' @ ti_reason info @ '')'' in
      with_owner K sig (\<lambda>owner.
        case owner of
          None \<Rightarrow> io_ret (Inr \<lparr>fi_signal = sig, fi_summary = summary, fi_meta = deployment_meta None\<rparr>)
        | Some dep \<Rightarrow>
            io_bind (container_memory_limit K (sig_namespace sig) dep) (\<lambda>r.
              io_ret (Inr \<lparr>fi_signal = sig,
                fi_summary = summary @ (case r of Inl _ \<Rightarrow> []
                  | Inr limit \<Rightarrow> '', limite de mem'' @ o_acute @ ''ria atual: '' @ k_quantity_string K limit),
                fi_meta = deployment_meta (Some dep)\<rparr>))))"

definition increase_run :: "'s kube \<Rightarrow> string \<Rightarrow> string \<Rightarrow> factor \<Rightarrow> ('s, string \<times> goerr option) io" where
  "increase_run K ns dep f =
    io_try (increase_container_memory_limit K ns dep f) (\<lambda>e. io_ret ([], Some e)) (\<lambda>out.
    io_try (rollout_restart_deployment K ns dep) (\<lambda>e. io_ret (out, Some e)) (\<lambda>_. io_ret (out, None)))"

definition increase_action :: "'s kube \<Rightarrow> string \<Rightarrow> string \<Rightarrow> factor \<Rightarrow> 's action" where
  "increase_action K ns dep f =
    \<lparr>act_name = ''increase memory limit'',
     act_description = ''kubectl set resources deployment/'' @ dep @ '' -n '' @ ns @ '' --limits=memory=<''
       @ fmt_percent f @ ''% do atual> && kubectl rollout restart deployment/'' @ dep @ '' -n '' @ ns,
     act_risk = risk_high,
     act_snapshot = None,
     act_run = Some (increase_run K ns dep f),
     act_validate = None,
     act_rollback = None\<rparr>"

definition oom_ladder :: "factor \<Rightarrow> 's kube \<Rightarrow> finding \<Rightarrow> 's ladder" where
  "oom_ladder lif K f =
    (let ns = sig_namespace (fi_signal f); pod = sig_name (fi_signal f);
         dep = meta_get (fi_meta f) ''deployment''; has_dep = has_deployment (fi_meta f) in
     \<lparr>lad_playbook_id = oom_id,
      lad_actions = restart_pod_action K ns pod dep has_dep
        # (if has_dep then [increase_action K ns dep (oom_factor lif)] else [])\<rparr>)"

definition msg_no_deployment :: string where
  "msg_no_deployment = ''incidente original n'' @ a_tilde @ ''o tem deployment registrado '' @ em_dash
     @ '' n'' @ a_tilde @ ''o '' @ e_acute @ '' poss'' @ i_acute
     @ ''vel reavaliar sem o pod, que j'' @ a_acute @ '' n'' @ a_tilde @ ''o existe mais''"

definition oom_recheck ::
  "factor \<Rightarrow> 's kube \<Rightarrow> signal \<Rightarrow> meta \<Rightarrow> ('s, goerr + (finding \<times> 's ladder) option) io" where
  "oom_recheck lif K sig m =
    (let dep = meta_get m ''deployment''; ns = sig_namespace sig in
     if dep = [] then io_ret (Inl (errorf msg_no_deployment))
     else io_wrap (deployment_replicas K ns dep) (''checando deployment '' @ slash ns dep @ '': '') (\<lambda>want.
       io_wrap (deployment_ready_replicas K ns dep) (''checando deployment '' @ slash ns dep @ '': '') (\<lambda>ready.
         if ready \<ge> want then io_ret (Inr None)
         else
           let f = \<lparr>fi_signal = sig,
                 fi_summary = ''deployment '' @ slash ns dep @ '' ainda n'' @ a_tilde @ ''o est'' @ a_acute
                   @ '' saud'' @ a_acute @ ''vel ('' @ fmt_d ready @ ''/'' @ fmt_d want @ '' r'' @ e_acute
                   @ ''plicas prontas) '' @ em_dash @ '' a'' @ c_cedil @ a_tilde
                   @ ''o de alto risco continua necess'' @ a_acute @ ''ria'',
                 fi_meta = m\<rparr>
           in io_ret (Inr (Some (f, oom_ladder lif K f))))))"

definition oom_killed :: "factor \<Rightarrow> 's playbook" where
  "oom_killed lif =
    \<lparr>pb_id = oom_id, pb_resource = ''core'',
     pb_detect = (\<lambda>sig. sig_kind sig = ''PodOOMKilled''),
     pb_diagnose = oom_diagnose, pb_ladder = oom_ladder lif, pb_recheck = Some (oom_recheck lif)\<rparr>"

section \<open>corek8s: ImagePullBackOff\<close>

definition ipb_id :: string where "ipb_id = ''core/imagepullbackoff''"

definition ipb_diagnose :: "'s kube \<Rightarrow> signal \<Rightarrow> ('s, goerr + finding) io" where
  "ipb_diagnose K sig =
    io_wrap (container_waiting K (sig_namespace sig) (sig_name sig)) (diagnosing sig) (\<lambda>info.
    with_owner K sig (\<lambda>dep.
      io_ret (Inr \<lparr>fi_signal = sig,
        fi_summary = ''pod '' @ slash (sig_namespace sig) (sig_name sig) @ '' n'' @ a_tilde
          @ ''o consegue baixar a imagem ('' @ wi_reason info @ ''): '' @ wi_message info,
        fi_meta = deployment_meta dep\<rparr>)))"

definition ipb_ladder :: "'s kube \<Rightarrow> finding \<Rightarrow> 's ladder" where
  "ipb_ladder K f =
    (let ns = sig_namespace (fi_signal f); pod = sig_name (fi_signal f);
         dep = meta_get (fi_meta f) ''deployment''; has_dep = has_deployment (fi_meta f) in
     \<lparr>lad_playbook_id = ipb_id, lad_actions = [restart_pod_action K ns pod dep has_dep]\<rparr>)"

definition image_pull_back_off :: "'s playbook" where
  "image_pull_back_off =
    \<lparr>pb_id = ipb_id, pb_resource = ''core'',
     pb_detect = (\<lambda>sig. sig_kind sig = ''PodImagePullBackOff''),
     pb_diagnose = ipb_diagnose, pb_ladder = ipb_ladder, pb_recheck = None\<rparr>"

section \<open>corek8s: ExecFormatError\<close>

definition efe_id :: string where "efe_id = ''core/execformaterror''"

definition msg_no_runtime_text :: string where
  "msg_no_runtime_text = '' (o runtime n'' @ a_tilde @ ''o exp'' @ o_circ @ ''s mensagem '' @ em_dash
     @ '' sem log nem texto de erro dispon'' @ i_acute @ ''vel via API; ''
     @ ''exit code consistente com falha ao executar o entrypoint, ex: exec format error por arquitetura incompat''
     @ i_acute @ ''vel ou bin'' @ a_acute @ ''rio corrompido '' @ em_dash
     @ '' verifique manualmente com `kubectl describe pod`/`docker inspect` da imagem)''"

definition efe_summary :: "signal \<Rightarrow> termination_info \<Rightarrow> string" where
  "efe_summary sig info =
    ''pod '' @ slash (sig_namespace sig) (sig_name sig) @ '' n'' @ a_tilde
    @ ''o conseguiu executar o entrypoint do container (exit code '' @ fmt_d (ti_exit_code info) @ '')''
    @ (if contains ''exec format error'' (lower_ascii (ti_message info)) then
         '': '' @ ti_message info @ '' '' @ em_dash @ '' sinal cl'' @ a_acute
         @ ''ssico de imagem buildada pra arquitetura de CPU errada''
       else if ti_message info \<noteq> [] then '': '' @ ti_message info
       else msg_no_runtime_text)"

definition efe_other :: "string \<Rightarrow> string list \<Rightarrow> string list" where
  "efe_other failed archs = sort (filter (\<lambda>a. a \<noteq> failed) archs)"

definition msg_rodou :: "string \<Rightarrow> string \<Rightarrow> string" where
  "msg_rodou nodename failed = ''. Rodou no n'' @ o_acute @ '' '' @ nodename @ '' ('' @ failed @ ''); ''"

definition efe_arch_summary :: "string \<Rightarrow> string \<Rightarrow> string list \<Rightarrow> string" where
  "efe_arch_summary nodename failed other =
    (if other \<noteq> [] then
       msg_rodou nodename failed @ ''o cluster tamb'' @ e_acute @ ''m tem n'' @ o_acute @ ''(s) ''
       @ str_join '', '' other @ '' dispon'' @ i_acute @ ''vel(is) '' @ em_dash @ '' ''
       @ ''se a imagem foi buildada pra essa outra arquitetura, um nodeAffinity resolveria sem rebuild.''
     else
       msg_rodou nodename failed @ ''todos os n'' @ o_acute @ ''s do cluster s'' @ a_tilde
       @ ''o dessa mesma arquitetura, ent'' @ a_tilde @ ''o n'' @ a_tilde @ ''o tem como s'' @ o_acute
       @ '' reagendar '' @ em_dash
       @ '' se a imagem foi buildada pra outra arquitetura, precisa rebuildar.'')"

definition efe_meta :: "string \<Rightarrow> string \<Rightarrow> string list \<Rightarrow> meta" where
  "efe_meta nodename failed other =
    (let m = [''node'' \<mapsto> nodename, ''failed_arch'' \<mapsto> failed] in
     if other \<noteq> [] then m(''other_archs'' \<mapsto> str_join '','' other) else m)"

text \<open>The best-effort part of \<open>Diagnose\<close>: an error of any of its three calls ends it silently.\<close>

definition efe_diagnose :: "'s kube \<Rightarrow> signal \<Rightarrow> ('s, goerr + finding) io" where
  "efe_diagnose K sig =
    io_wrap (container_termination K (sig_namespace sig) (sig_name sig)) (diagnosing sig) (\<lambda>info.
      let summary = efe_summary sig info;
          fin = (\<lambda>extra m. io_ret (Inr \<lparr>fi_signal = sig, fi_summary = summary @ extra, fi_meta = m\<rparr>)) in
      io_try (pod_node_name_of K (sig_namespace sig) (sig_name sig)) (\<lambda>_. fin [] Map.empty) (\<lambda>nodename.
      if nodename = [] then fin [] Map.empty
      else io_try (node_architecture K nodename) (\<lambda>_. fin [] Map.empty) (\<lambda>failed.
      if failed = [] then fin [] Map.empty
      else io_try (cluster_architectures K) (\<lambda>_. fin [] (efe_meta nodename failed [])) (\<lambda>archs.
        let other = efe_other failed archs in
        fin (efe_arch_summary nodename failed other) (efe_meta nodename failed other)))))"

definition dq :: string where "dq = [CHR 0x22]"
definition sq :: string where "sq = [CHR 0x27]"

definition json_key :: "string \<Rightarrow> string" where
  "json_key k = dq @ k @ dq @ '':''"

definition affinity_patch :: "string \<Rightarrow> string" where
  "affinity_patch archs =
    sq @ ''[{'' @ json_key ''op'' @ dq @ ''add'' @ dq @ '','' @ json_key ''path'' @ dq
    @ ''/spec/template/spec/affinity'' @ dq @ '','' @ json_key ''value'' @ ''{'' @ json_key ''nodeAffinity''
    @ ''{'' @ json_key ''requiredDuringSchedulingIgnoredDuringExecution''
    @ ''{'' @ json_key ''nodeSelectorTerms'' @ ''[{'' @ json_key ''matchExpressions'' @ ''[{''
    @ json_key ''key'' @ dq @ ''kubernetes.io/arch'' @ dq @ '','' @ json_key ''operator'' @ dq @ ''In'' @ dq
    @ '','' @ json_key ''values'' @ ''['' @ fmt_q archs @ '']}]}]}}}}]'' @ sq"

definition efe_description :: "string \<Rightarrow> string \<Rightarrow> string \<Rightarrow> string \<Rightarrow> string" where
  "efe_description ns pod failed others =
    (if others \<noteq> [] then
       ''se a imagem do pod '' @ slash ns pod @ '' foi buildada para '' @ others @ '' (n'' @ a_tilde @ ''o ''
       @ failed @ ''), adicione nodeAffinity pra agendar s'' @ o_acute @ '' nesses n'' @ o_acute @ ''s: ''
       @ ''kubectl patch deployment <nome> -n '' @ ns @ '' --type=json -p ''
       @ affinity_patch others @ ''. ''
       @ ''Se a imagem foi buildada pra '' @ failed @ '' mesmo (e o problema '' @ e_acute @ '' outro, ex: bin''
       @ a_acute @ ''rio corrompido), isso n'' @ a_tilde @ ''o resolve '' @ em_dash
       @ '' nesse caso vale rebuildar.''
     else if failed \<noteq> [] then
       ''nenhum outro n'' @ o_acute @ '' com arquitetura diferente dispon'' @ i_acute @ ''vel no cluster (s''
       @ o_acute @ '' '' @ failed @ '') '' @ em_dash @ '' rebuilde a imagem pra essa plataforma: ''
       @ ''docker buildx build --platform linux/'' @ failed @ '' --push''
     else
       ''verifique a arquitetura do n'' @ o_acute @ '' (kubectl get node -o wide) e da imagem do pod ''
       @ slash ns pod @ '', e rebuilde com a plataforma certa: ''
       @ ''docker buildx build --platform linux/amd64,linux/arm64 --push'')"

text \<open>The only action has no \<open>Run\<close>: the struct literal does not set it.\<close>

definition efe_action :: "string \<Rightarrow> 's action" where
  "efe_action description =
    \<lparr>act_name = ''corrigir incompatibilidade de arquitetura'', act_description = description,
     act_risk = risk_high, act_snapshot = None, act_run = None, act_validate = None,
     act_rollback = None\<rparr>"

definition efe_ladder :: "'s kube \<Rightarrow> finding \<Rightarrow> 's ladder" where
  "efe_ladder K f =
    \<lparr>lad_playbook_id = efe_id,
     lad_actions = [efe_action (efe_description (sig_namespace (fi_signal f)) (sig_name (fi_signal f))
       (meta_get (fi_meta f) ''failed_arch'') (meta_get (fi_meta f) ''other_archs''))]\<rparr>"

definition exec_format_error :: "'s playbook" where
  "exec_format_error =
    \<lparr>pb_id = efe_id, pb_resource = ''core'',
     pb_detect = (\<lambda>sig. sig_kind sig = ''PodExecFormatError''),
     pb_diagnose = efe_diagnose, pb_ladder = efe_ladder, pb_recheck = None\<rparr>"

section \<open>calico\<close>

definition cal_id :: string where "cal_id = ''calico/node-degraded''"

definition calico_namespace :: "string \<Rightarrow> string" where
  "calico_namespace ns = (if ns \<noteq> [] then ns else ''calico-system'')"

definition cal_diagnose :: "string \<Rightarrow> 's kube \<Rightarrow> signal \<Rightarrow> ('s, goerr + finding) io" where
  "cal_diagnose nsf K sig =
    io_wrap (daemonset_pod_on_node K (calico_namespace nsf) ''calico-node'' (sig_node_name sig))
      (''diagnosing calico node '' @ sig_node_name sig @ '': '') (\<lambda>p.
      io_ret (Inr \<lparr>fi_signal = sig,
        fi_summary = ''n'' @ o_acute @ '' '' @ sig_node_name sig @ '' reportando degrada'' @ c_cedil @ a_tilde
          @ ''o de rede Calico; pod calico-node atual: '' @ slash (pod_namespace p) (pod_name p),
        fi_meta = Map.empty\<rparr>))"

definition cal_run :: "'s kube \<Rightarrow> string \<Rightarrow> string \<Rightarrow> ('s, string \<times> goerr option) io" where
  "cal_run K ns node =
    io_try (daemonset_pod_on_node K ns ''calico-node'' node) (\<lambda>e. io_ret ([], Some e)) (\<lambda>p.
      as_pair (restart_pod K (pod_namespace p) (pod_name p)))"

definition cal_check :: "'s kube \<Rightarrow> string \<Rightarrow> string \<Rightarrow> ('s, goerr + bool) io" where
  "cal_check K ns node =
    io_try (daemonset_pod_on_node K ns ''calico-node'' node) (\<lambda>_. io_ret (Inr False))
      (\<lambda>p. io_ret (Inr (pod_phase p = ''Running'')))"

text \<open>The package's own \<open>waitFor\<close>.\<close>

definition cal_wait_for :: "'s kube \<Rightarrow> int \<Rightarrow> ('s, goerr + bool) io \<Rightarrow> ('s, bool \<times> goerr option) io" where
  "cal_wait_for K timeout check = poll_for K second timeout check"

definition cal_action :: "'s kube \<Rightarrow> string \<Rightarrow> string \<Rightarrow> 's action" where
  "cal_action K ns node =
    \<lparr>act_name = ''restart calico-node pod on node'',
     act_description = ''kubectl delete pod -n '' @ ns
       @ '' -l k8s-app=calico-node --field-selector spec.nodeName='' @ node,
     act_risk = risk_medium, act_snapshot = None,
     act_run = Some (cal_run K ns node),
     act_validate = Some (cal_wait_for K (60 * second) (cal_check K ns node)),
     act_rollback = None\<rparr>"

definition cal_ladder :: "string \<Rightarrow> 's kube \<Rightarrow> finding \<Rightarrow> 's ladder" where
  "cal_ladder nsf K f =
    \<lparr>lad_playbook_id = cal_id,
     lad_actions = [cal_action K (calico_namespace nsf) (sig_node_name (fi_signal f))]\<rparr>"

definition node_degraded :: "string \<Rightarrow> 's playbook" where
  "node_degraded nsf =
    \<lparr>pb_id = cal_id, pb_resource = ''calico'',
     pb_detect = (\<lambda>sig. sig_kind sig = ''CalicoNodeDegraded'' \<and> sig_node_name sig \<noteq> []),
     pb_diagnose = cal_diagnose nsf, pb_ladder = cal_ladder nsf, pb_recheck = None\<rparr>"

section \<open>keda\<close>

definition keda_id :: string where "keda_id = ''keda/scaledobject-stuck''"

definition keda_diagnose :: "'s kube \<Rightarrow> signal \<Rightarrow> ('s, goerr + finding) io" where
  "keda_diagnose K sig =
    io_wrap (scaled_object_ready K (sig_namespace sig) (sig_name sig))
      (''diagnosing scaledobject '' @ slash (sig_namespace sig) (sig_name sig) @ '': '') (\<lambda>(ready, msg).
      io_ret (Inr \<lparr>fi_signal = sig,
        fi_summary = ''scaledobject '' @ slash (sig_namespace sig) (sig_name sig) @ '' ready='' @ fmt_bool ready
          @ '': '' @ msg,
        fi_meta = [''hpa'' \<mapsto> ''keda-hpa-'' @ sig_name sig]\<rparr>))"

definition keda_check :: "'s kube \<Rightarrow> string \<Rightarrow> string \<Rightarrow> ('s, goerr + bool) io" where
  "keda_check K ns name =
    io_try (scaled_object_ready K ns name) (\<lambda>e. io_ret (Inl e)) (\<lambda>(ready, _). io_ret (Inr ready))"

definition keda_action :: "'s kube \<Rightarrow> string \<Rightarrow> string \<Rightarrow> string \<Rightarrow> 's action" where
  "keda_action K ns name hpa =
    \<lparr>act_name = ''delete stuck HPA to force KEDA to recreate it'',
     act_description = ''kubectl delete hpa '' @ hpa @ '' -n '' @ ns,
     act_risk = risk_medium, act_snapshot = None,
     act_run = Some (as_pair (delete_hpa K ns hpa)),
     act_validate = Some (poll_for K (2 * second) (90 * second) (keda_check K ns name)),
     act_rollback = None\<rparr>"

definition keda_ladder :: "'s kube \<Rightarrow> finding \<Rightarrow> 's ladder" where
  "keda_ladder K f =
    \<lparr>lad_playbook_id = keda_id,
     lad_actions = [keda_action K (sig_namespace (fi_signal f)) (sig_name (fi_signal f))
       (meta_get (fi_meta f) ''hpa'')]\<rparr>"

definition scaled_object_stuck :: "'s playbook" where
  "scaled_object_stuck =
    \<lparr>pb_id = keda_id, pb_resource = ''keda'',
     pb_detect = (\<lambda>sig. sig_kind sig = ''KEDAScaledObjectStuck''),
     pb_diagnose = keda_diagnose, pb_ladder = keda_ladder, pb_recheck = None\<rparr>"

section \<open>The playbooks the agent registers\<close>

text \<open>cmd/cluster-agent/main.go, with the Calico namespace flag; the OOM factor is left unset.\<close>

definition default_playbooks :: "string \<Rightarrow> 's playbook list" where
  "default_playbooks calico_ns =
    [crash_loop_back_off, oom_killed (0, 1), image_pull_back_off, exec_format_error,
     node_degraded calico_ns, scaled_object_stuck]"

lemmas default_playbook_defs = crash_loop_back_off_def oom_killed_def image_pull_back_off_def
  exec_format_error_def node_degraded_def scaled_object_stuck_def

section \<open>Every poll loop ends\<close>

text \<open>The calls that write.\<close>

definition kube_writes :: "'s kube \<Rightarrow> ('s \<Rightarrow> bool) \<Rightarrow> bool" where
  "kube_writes K I \<longleftrightarrow>
     (\<forall>ns n. keeps I (io_call (k_delete_pod K ns n)))
   \<and> (\<forall>ns n d. keeps I (io_call (k_update_deployment K ns n d)))
   \<and> (\<forall>ns n. keeps I (io_call (k_delete_hpa K ns n)))"

text \<open>\<open>kube_keeps K I\<close>: no call through this client breaks \<open>I\<close>.\<close>

definition kube_keeps :: "'s kube \<Rightarrow> ('s \<Rightarrow> bool) \<Rightarrow> bool" where
  "kube_keeps K I \<longleftrightarrow> kube_reads K I \<and> kube_writes K I"

lemma client_writes_keep [keeps_intros]:
  assumes "kube_reads K I" and "kube_writes K I"
  shows "keeps I (restart_pod K ns n)" "keeps I (scale_deployment K ns n i)"
    "keeps I (rollout_restart_deployment K ns n)" "keeps I (delete_hpa K ns n)"
    "keeps I (increase_container_memory_limit K ns n f)"
  using assms(2)
  by (auto simp: client_defs Let_def kube_writes_def split: list.splits intro!: keeps_intros assms(1))

text \<open>
  What the poll loops need of the clock \<open>tm\<close>: no call makes it go back, \<open>k_now\<close> reads it, a wait that
  fires lasts at least as long as asked, and the model's bound on polls allows 90 seconds of
  one-second steps.
\<close>

definition playbook_clock :: "'s kube \<Rightarrow> ('s \<Rightarrow> int) \<Rightarrow> bool" where
  "playbook_clock K tm \<longleftrightarrow>
     (\<forall>t. kube_reads K (\<lambda>s. t \<le> tm s) \<and> kube_writes K (\<lambda>s. t \<le> tm s))
   \<and> (\<forall>s. tm s \<le> fst (k_now K s) \<and> fst (k_now K s) \<le> tm (snd (k_now K s)))
   \<and> (\<forall>d s. fst (k_after K d s) = None \<longrightarrow> tm s + d \<le> tm (snd (k_after K d s)))
   \<and> 92 \<le> k_max_polls K"

lemma playbook_clockD:
  assumes "playbook_clock K tm"
  shows "kube_reads K (\<lambda>s. t \<le> tm s)" "kube_writes K (\<lambda>s. t \<le> tm s)"
    "k_now K s = (now, s') \<Longrightarrow> tm s \<le> now" "k_now K s = (now, s') \<Longrightarrow> now \<le> tm s'"
    "k_after K d s = (None, s') \<Longrightarrow> tm s + d \<le> tm s'" "92 \<le> k_max_polls K"
proof -
  show "kube_reads K (\<lambda>s. t \<le> tm s)" "kube_writes K (\<lambda>s. t \<le> tm s)" "92 \<le> k_max_polls K"
    using assms by (auto simp: playbook_clock_def)
  have now: "\<And>s. tm s \<le> fst (k_now K s) \<and> fst (k_now K s) \<le> tm (snd (k_now K s))"
    and after: "\<And>d s. fst (k_after K d s) = None \<Longrightarrow> tm s + d \<le> tm (snd (k_after K d s))"
    using assms by (auto simp: playbook_clock_def)
  show "tm s \<le> now" "now \<le> tm s'" if "k_now K s = (now, s')" using now [of s] that by simp_all
  show "tm s + d \<le> tm s'" if "k_after K d s = (None, s')" using after [of d s] that by simp
qed

text \<open>The rank of the loop: the steps left until the clock passes the deadline.\<close>

lemma poll_loop_returns:
  assumes clock: "playbook_clock K tm" and check: "returns check"
    and forward: "\<And>t. keeps (\<lambda>s. t \<le> tm s) check"
    and "deadline < tm s + int (n - 1) * step" and "0 < n"
  shows "\<exists>r s'. poll_loop K step deadline check n s = (Ret r, s')"
  using assms(4,5)
proof (induction n arbitrary: s)
  case 0
  then show ?case by simp
next
  case (Suc n)
  obtain c s1 where c: "check s = (Ret c, s1)" by (rule returnsE [OF check])
  from keepsD [OF forward, of "tm s" s] c have s1: "tm s \<le> tm s1" by simp
  obtain now s2 where now: "k_now K s1 = (now, s2)" by (cases "k_now K s1")
  note n1 = playbook_clockD(3) [OF clock now] and n2 = playbook_clockD(4) [OF clock now]
  obtain d s3 where d: "k_after K step s2 = (d, s3)" by (cases "k_after K step s2")
  have rec: "\<exists>r s'. poll_loop K step deadline check n s3 = (Ret r, s')"
    if "\<not> now > deadline" and "d = None"
  proof -
    have "tm s2 + step \<le> tm s3" using playbook_clockD(5) [OF clock] d that(2) by simp
    with n2 n1 s1 have adv: "tm s + step \<le> tm s3" by simp
    have "0 < n"
    proof (rule ccontr)
      assume "\<not> 0 < n"
      with Suc.prems(1) have "deadline < tm s" by simp
      with that(1) n1 s1 show False by simp
    qed
    moreover from this have "int (Suc n - 1) * step = step + int (n - 1) * step"
      by (cases n) (simp_all add: algebra_simps)
    with Suc.prems(1) adv have "deadline < tm s3 + int (n - 1) * step" by linarith
    ultimately show ?thesis using Suc.IH by blast
  qed
  show ?case
    using rec c now d
    by (cases c; cases d) (auto simp: io_try_def io_bind_def io_call_def io_ret_apply)
qed

lemma poll_for_returns:
  assumes clock: "playbook_clock K tm" and "returns check"
    and "\<And>t. keeps (\<lambda>s. t \<le> tm s) check"
    and "timeout < 91 * step" and "0 < step"
  shows "returns (poll_for K step timeout check)"
proof -
  have "\<exists>r s'. poll_for K step timeout check s = (Ret r, s')" for s
  proof -
    obtain now s1 where now: "k_now K s = (now, s1)" by (cases "k_now K s")
    from playbook_clockD(4) [OF clock now] have "now \<le> tm s1" .
    moreover have "91 \<le> int (k_max_polls K - 1)" and pos: "0 < k_max_polls K"
      using playbook_clockD(6) [OF clock] by simp_all
    then have "91 * step \<le> int (k_max_polls K - 1) * step"
      using assms(5) by (intro mult_right_mono) simp_all
    ultimately have "now + timeout < tm s1 + int (k_max_polls K - 1) * step"
      using assms(4) by linarith
    from poll_loop_returns [OF clock assms(2,3) this pos] now show ?thesis
      by (simp add: poll_for_def io_bind_def io_call_def)
  qed
  then show ?thesis by (simp add: returns_def)
qed

lemma check_returns [total_intros]:
  "returns (pod_gone K ns n)" "returns (replicas_ready K ns n w)" "returns (cal_check K ns n)"
  "returns (keda_check K ns n)"
  by (auto simp: pod_gone_def replicas_ready_def cal_check_def keda_check_def intro!: total_intros)

lemma check_keeps [keeps_intros]:
  assumes "kube_reads K I"
  shows "keeps I (pod_gone K ns n)" "keeps I (replicas_ready K ns n w)" "keeps I (cal_check K ns n)"
    "keeps I (keda_check K ns n)"
  by (auto simp: pod_gone_def replicas_ready_def cal_check_def keda_check_def intro!: keeps_intros assms)

lemma wait_for_returns:
  assumes "playbook_clock K tm" and "returns check" and "\<And>t. keeps (\<lambda>s. t \<le> tm s) check"
    and "timeout \<le> 90 * second"
  shows "returns (wait_for K timeout check)" "returns (cal_wait_for K timeout check)"
  unfolding wait_for_def cal_wait_for_def
  by (rule poll_for_returns [OF assms(1-3)]; use assms(4) in \<open>simp add: second_def\<close>)+

lemma wait_replicas_returns:
  assumes "playbook_clock K tm" and "timeout \<le> 90 * second"
  shows "returns (wait_replicas K ns dep timeout)"
  unfolding wait_replicas_def
  by (intro total_intros wait_for_returns [OF assms(1)] check_keeps playbook_clockD(1) [OF assms(1)] assms(2))

lemma restart_validate_returns:
  assumes "playbook_clock K tm"
  shows "returns (restart_validate K ns pod dep b)"
  unfolding restart_validate_def
  by (intro total_intros wait_for_returns [OF assms] wait_replicas_returns [OF assms] check_keeps
      playbook_clockD(1) [OF assms]) (simp_all add: second_def)

lemma as_pair_returns [total_intros]: "returns m \<Longrightarrow> returns (as_pair m)"
  unfolding as_pair_def by (intro total_intros)

section \<open>Every action a ladder may run on its own returns\<close>

lemma restart_action_returns:
  "playbook_clock K tm \<Longrightarrow> action_returns (restart_pod_action K ns pod dep b)"
  by (auto simp: action_returns_def restart_pod_action_def
      intro!: total_intros restart_validate_returns)

lemma scale_action_returns: "playbook_clock K tm \<Longrightarrow> action_returns (scale_action K ns dep)"
  by (auto simp: action_returns_def scale_action_def scale_snapshot_def scale_run_def scale_rollback_def
      second_def intro!: total_intros wait_replicas_returns)

lemma rollout_action_returns: "playbook_clock K tm \<Longrightarrow> action_returns (rollout_action K ns dep)"
  by (auto simp: action_returns_def rollout_action_def second_def intro!: total_intros wait_replicas_returns)

lemma cal_action_returns:
  assumes "playbook_clock K tm"
  shows "action_returns (cal_action K ns node)"
  by (auto simp: action_returns_def cal_action_def cal_run_def second_def intro!: total_intros
      wait_for_returns [OF assms] check_keeps playbook_clockD(1) [OF assms])

lemma keda_action_returns:
  assumes "playbook_clock K tm"
  shows "action_returns (keda_action K ns name hpa)"
  by (auto simp: action_returns_def keda_action_def second_def intro!: total_intros
      poll_for_returns [OF assms] check_keeps playbook_clockD(1) [OF assms])

section \<open>The contract of a playbook\<close>

locale playbook =
  fixes p :: "'s playbook" and kind :: string
  assumes detect_kind: "pb_detect p sig \<Longrightarrow> sig_kind sig = kind"
    and ladder_id: "lad_playbook_id (pb_ladder p K f) = pb_id p"
    and ladder_bounds: "lad_actions (pb_ladder p K f) \<noteq> [] \<and> length (lad_actions (pb_ladder p K f)) \<le> max_actions"
    and ladder_risk: "a \<in> set (lad_actions (pb_ladder p K f)) \<Longrightarrow> act_risk a \<in> {risk_safe, risk_medium, risk_high}"
    and ladder_returns: "playbook_clock K tm \<Longrightarrow> a \<in> set (lad_actions (pb_ladder p K f)) \<Longrightarrow>
      act_risk a \<noteq> risk_high \<Longrightarrow> action_returns a"
    and diagnose_returns: "returns (pb_diagnose p K sig)"
    and diagnose_reads: "kube_reads K I \<Longrightarrow> keeps I (pb_diagnose p K sig)"
    and diagnose_signal: "pb_diagnose p K sig s = (Ret (Inr f), s') \<Longrightarrow> fi_signal f = sig"
begin

text \<open>Executing the ladder of a playbook always gives a run: no error, no panic, no endless poll.\<close>

lemma run_gives_result:
  assumes "playbook_clock K tm"
  shows "\<exists>r s'. run_ladder (pb_ladder p K f) s = (Ret (Inr r), s') \<and> res_playbook_id r = pb_id p
    \<and> run_spec (lad_actions (pb_ladder p K f)) (res_attempts r) (res_resolved r)"
proof -
  have "returns (run_ladder (pb_ladder p K f))"
    by (rule run_ladder_returns) (rule ladder_returns [OF assms])
  then obtain x s' where x: "run_ladder (pb_ladder p K f) s = (Ret x, s')"
    by (rule returnsE)
  obtain r where r: "x = Inr r"
    using x ladder_bounds [of K f] by (auto simp: run_ladder_def io_bind_eq_Ret)
  from run_ladder_spec [OF x [unfolded r]] x r show ?thesis by (auto simp: ladder_id)
qed

lemma diagnose_gives: "\<exists>x s'. pb_diagnose p K sig s = (Ret x, s')"
  by (rule returnsE [OF diagnose_returns]) blast

end

lemma action_risks [simp]:
  "act_risk (restart_pod_action K ns pod dep b) = risk_safe" "act_risk (scale_action K ns dep) = risk_medium"
  "act_risk (rollout_action K ns dep) = risk_medium" "act_risk (increase_action K ns dep f) = risk_high"
  "act_risk (efe_action d) = risk_high" "act_risk (cal_action K ns n) = risk_medium"
  "act_risk (keda_action K ns n h) = risk_medium"
  by (simp_all add: restart_pod_action_def scale_action_def rollout_action_def increase_action_def
      efe_action_def cal_action_def keda_action_def)

lemmas ladder_action_returns = restart_action_returns scale_action_returns rollout_action_returns
  cal_action_returns keda_action_returns

lemma with_owner_returns [total_intros]: "(\<And>d. returns (k d)) \<Longrightarrow> returns (with_owner K sig k)"
  unfolding with_owner_def by (intro total_intros)

lemma with_owner_keeps [keeps_intros]:
  "kube_reads K I \<Longrightarrow> (\<And>d. keeps I (k d)) \<Longrightarrow> keeps I (with_owner K sig k)"
  unfolding with_owner_def by (intro keeps_intros)

lemma with_owner_Inr:
  "with_owner K sig k s = (Ret (Inr y), t) \<Longrightarrow> \<exists>d s'. k d s' = (Ret (Inr y), t)"
  by (auto simp: with_owner_def io_try_eq_Ret)

lemma clb_diagnose_facts:
  shows "returns (clb_diagnose K sig)"
    and "kube_reads K I \<Longrightarrow> keeps I (clb_diagnose K sig)"
    and "clb_diagnose K sig s = (Ret (Inr f), s') \<Longrightarrow> fi_signal f = sig"
proof -
  show "returns (clb_diagnose K sig)"
    unfolding clb_diagnose_def Let_def by (intro total_intros)
  show "kube_reads K I \<Longrightarrow> keeps I (clb_diagnose K sig)"
    unfolding clb_diagnose_def Let_def by (intro keeps_intros)
  show "clb_diagnose K sig s = (Ret (Inr f), s') \<Longrightarrow> fi_signal f = sig"
    by (auto simp: clb_diagnose_def io_wrap_Inr dest!: with_owner_Inr)
qed

interpretation clb: playbook "crash_loop_back_off" "''PodCrashLoopBackOff''"
  by unfold_locales
    (auto simp: crash_loop_back_off_def clb_ladder_def Let_def max_actions_def clb_diagnose_facts(1,2)
      dest: clb_diagnose_facts(3) intro: ladder_action_returns split: if_splits)

lemma ipb_diagnose_facts:
  shows "returns (ipb_diagnose K sig)"
    and "kube_reads K I \<Longrightarrow> keeps I (ipb_diagnose K sig)"
    and "ipb_diagnose K sig s = (Ret (Inr f), s') \<Longrightarrow> fi_signal f = sig"
proof -
  show "returns (ipb_diagnose K sig)"
    unfolding ipb_diagnose_def Let_def by (intro total_intros)
  show "kube_reads K I \<Longrightarrow> keeps I (ipb_diagnose K sig)"
    unfolding ipb_diagnose_def Let_def by (intro keeps_intros)
  show "ipb_diagnose K sig s = (Ret (Inr f), s') \<Longrightarrow> fi_signal f = sig"
    by (auto simp: ipb_diagnose_def io_wrap_Inr dest!: with_owner_Inr)
qed

interpretation ipb: playbook "image_pull_back_off" "''PodImagePullBackOff''"
  by unfold_locales
    (auto simp: image_pull_back_off_def ipb_ladder_def Let_def max_actions_def ipb_diagnose_facts(1,2)
      dest: ipb_diagnose_facts(3) intro: ladder_action_returns split: if_splits)

lemma cal_diagnose_facts:
  shows "returns (cal_diagnose nsf K sig)"
    and "kube_reads K I \<Longrightarrow> keeps I (cal_diagnose nsf K sig)"
    and "cal_diagnose nsf K sig s = (Ret (Inr f), s') \<Longrightarrow> fi_signal f = sig"
proof -
  show "returns (cal_diagnose nsf K sig)"
    unfolding cal_diagnose_def Let_def by (intro total_intros)
  show "kube_reads K I \<Longrightarrow> keeps I (cal_diagnose nsf K sig)"
    unfolding cal_diagnose_def Let_def by (intro keeps_intros)
  show "cal_diagnose nsf K sig s = (Ret (Inr f), s') \<Longrightarrow> fi_signal f = sig"
    by (auto simp: cal_diagnose_def io_wrap_Inr)
qed

interpretation cal: playbook "node_degraded nsf" "''CalicoNodeDegraded''" for nsf
  by unfold_locales
    (auto simp: node_degraded_def cal_ladder_def Let_def max_actions_def cal_diagnose_facts(1,2)
      dest: cal_diagnose_facts(3) intro: ladder_action_returns split: if_splits)

lemma keda_diagnose_facts:
  shows "returns (keda_diagnose K sig)"
    and "kube_reads K I \<Longrightarrow> keeps I (keda_diagnose K sig)"
    and "keda_diagnose K sig s = (Ret (Inr f), s') \<Longrightarrow> fi_signal f = sig"
proof -
  show "returns (keda_diagnose K sig)"
    unfolding keda_diagnose_def Let_def by (intro total_intros)
  show "kube_reads K I \<Longrightarrow> keeps I (keda_diagnose K sig)"
    unfolding keda_diagnose_def Let_def by (intro keeps_intros)
  show "keda_diagnose K sig s = (Ret (Inr f), s') \<Longrightarrow> fi_signal f = sig"
    by (auto simp: keda_diagnose_def io_wrap_Inr)
qed

interpretation keda: playbook "scaled_object_stuck" "''KEDAScaledObjectStuck''"
  by unfold_locales
    (auto simp: scaled_object_stuck_def keda_ladder_def Let_def max_actions_def keda_diagnose_facts(1,2)
      dest: keda_diagnose_facts(3) intro: ladder_action_returns split: if_splits)

lemma efe_diagnose_facts:
  shows "returns (efe_diagnose K sig)"
    and "kube_reads K I \<Longrightarrow> keeps I (efe_diagnose K sig)"
    and "efe_diagnose K sig s = (Ret (Inr f), s') \<Longrightarrow> fi_signal f = sig"
proof -
  show "returns (efe_diagnose K sig)"
    unfolding efe_diagnose_def Let_def by (intro total_intros)
  show "kube_reads K I \<Longrightarrow> keeps I (efe_diagnose K sig)"
    unfolding efe_diagnose_def Let_def by (intro keeps_intros)
  show "efe_diagnose K sig s = (Ret (Inr f), s') \<Longrightarrow> fi_signal f = sig"
    by (auto simp: efe_diagnose_def io_wrap_Inr io_try_eq_Ret Let_def split: if_splits)
qed

interpretation efe: playbook "exec_format_error" "''PodExecFormatError''"
  by unfold_locales
    (auto simp: exec_format_error_def efe_ladder_def Let_def max_actions_def efe_diagnose_facts(1,2)
      dest: efe_diagnose_facts(3) intro: ladder_action_returns split: if_splits)

lemma oom_diagnose_facts:
  shows "returns (oom_diagnose K sig)"
    and "kube_reads K I \<Longrightarrow> keeps I (oom_diagnose K sig)"
    and "oom_diagnose K sig s = (Ret (Inr f), s') \<Longrightarrow> fi_signal f = sig"
proof -
  show "returns (oom_diagnose K sig)"
    unfolding oom_diagnose_def Let_def by (intro total_intros)
  show "kube_reads K I \<Longrightarrow> keeps I (oom_diagnose K sig)"
    unfolding oom_diagnose_def Let_def by (intro keeps_intros)
  show "oom_diagnose K sig s = (Ret (Inr f), s') \<Longrightarrow> fi_signal f = sig"
    by (auto simp: oom_diagnose_def io_wrap_Inr io_bind_eq_Ret Let_def dest!: with_owner_Inr split: option.splits)
qed

interpretation oom: playbook "oom_killed lif" "''PodOOMKilled''" for lif
  by unfold_locales
    (auto simp: oom_killed_def oom_ladder_def Let_def max_actions_def oom_diagnose_facts(1,2)
      dest: oom_diagnose_facts(3) intro: ladder_action_returns split: if_splits)

section \<open>The registered set\<close>

lemma default_playbook_contract:
  assumes "p \<in> set (default_playbooks ns)"
  shows "\<exists>kind. playbook p kind"
  using assms unfolding default_playbooks_def
  by (auto intro: clb.playbook_axioms oom.playbook_axioms ipb.playbook_axioms efe.playbook_axioms
      cal.playbook_axioms keda.playbook_axioms)

lemma default_playbook_runs:
  assumes "p \<in> set (default_playbooks ns)" and "playbook_clock K tm"
  shows "\<exists>r s'. run_ladder (pb_ladder p K f) s = (Ret (Inr r), s') \<and> res_playbook_id r = pb_id p
    \<and> run_spec (lad_actions (pb_ladder p K f)) (res_attempts r) (res_resolved r)"
proof -
  obtain kind where "playbook p kind" using default_playbook_contract [OF assms(1)] by blast
  from playbook.run_gives_result [OF this assms(2)] show ?thesis .
qed

text \<open>The signal's kind, with a node name for Calico, names at most one playbook.\<close>

definition playbook_id_for :: "signal \<Rightarrow> string option" where
  "playbook_id_for sig =
    (if sig_kind sig = ''PodCrashLoopBackOff'' then Some clb_id
     else if sig_kind sig = ''PodOOMKilled'' then Some oom_id
     else if sig_kind sig = ''PodImagePullBackOff'' then Some ipb_id
     else if sig_kind sig = ''PodExecFormatError'' then Some efe_id
     else if sig_kind sig = ''CalicoNodeDegraded'' \<and> sig_node_name sig \<noteq> [] then Some cal_id
     else if sig_kind sig = ''KEDAScaledObjectStuck'' then Some keda_id
     else None)"

lemma registry_find_default:
  "map_option pb_id (registry_find (default_playbooks ns) sig) = playbook_id_for sig"
  by (simp add: registry_find_def default_playbooks_def default_playbook_defs playbook_id_for_def)

lemma registry_find_in: "registry_find ps sig = Some p \<Longrightarrow> p \<in> set ps \<and> pb_detect p sig"
  by (auto simp: registry_find_def dest: find_SomeD)

section \<open>What the actions keep\<close>

lemma poll_loop_keeps:
  assumes "keeps I check" and "keeps I (io_call (k_now K))" and "keeps I (io_call (k_after K step))"
  shows "keeps I (poll_loop K step deadline check n)"
  using assms by (induction n) (auto intro!: keeps_intros)

lemma poll_keeps [keeps_intros]:
  assumes "kube_reads K I" and "keeps I check"
  shows "keeps I (poll_for K step timeout check)" "keeps I (wait_for K timeout check)" "keeps I (cal_wait_for K timeout check)"
  unfolding wait_for_def cal_wait_for_def poll_for_def
  by (intro keeps_intros poll_loop_keeps assms kube_reads_calls [OF assms(1)])+

lemma wait_replicas_keeps [keeps_intros]: "kube_reads K I \<Longrightarrow> keeps I (wait_replicas K ns dep timeout)"
  unfolding wait_replicas_def by (intro keeps_intros)

lemma ladder_action_keeps:
  assumes "kube_keeps K I"
  shows "action_keeps I (restart_pod_action K ns pod dep b)" "action_keeps I (scale_action K ns dep)"
    "action_keeps I (rollout_action K ns dep)" "action_keeps I (increase_action K ns dep f)"
    "action_keeps I (efe_action d)" "action_keeps I (cal_action K ns n)" "action_keeps I (keda_action K ns n h)"
  using assms
  by (auto simp: kube_keeps_def action_keeps_def scale_action_def scale_snapshot_def scale_run_def scale_rollback_def
      rollout_action_def increase_action_def increase_run_def efe_action_def cal_action_def cal_run_def keda_action_def
      restart_pod_action_def restart_validate_def as_pair_def Let_def
     intro!: keeps_intros split: option.splits)

lemma default_ladder_keeps:
  assumes "kube_keeps K I" and "p \<in> set (default_playbooks ns)" and "a \<in> set (lad_actions (pb_ladder p K f))"
  shows "action_keeps I a"
  using assms(2,3)
  by (auto simp: default_playbooks_def default_playbook_defs clb_ladder_def oom_ladder_def ipb_ladder_def efe_ladder_def
      cal_ladder_def keda_ladder_def Let_def ladder_action_keeps [OF assms(1)] split: if_splits)

section \<open>Scaling down and up leaves the replica count\<close>

text \<open>
  \<open>rp\<close> is the replica count in the spec of one Deployment, \<open>None\<close> when there is none. A read that succeeds
  returns it, an update that succeeds sets it to what is written, a nil count counting as 1; reading and
  waiting leave it alone, which says that nobody else scales the Deployment meanwhile. Nothing is assumed of
  its status or its other fields, which controllers change at any time, nor of an update that fails.
\<close>

definition effective_replicas :: "deployment \<Rightarrow> int" where
  "effective_replicas d = (case dep_replicas d of None \<Rightarrow> 1 | Some n \<Rightarrow> n)"

definition replica_spec :: "'s kube \<Rightarrow> string \<Rightarrow> string \<Rightarrow> ('s \<Rightarrow> int option) \<Rightarrow> bool" where
  "replica_spec K ns n rp \<longleftrightarrow>
     (\<forall>s r s'. k_get_deployment K ns n s = (r, s') \<longrightarrow> rp s' = rp s
        \<and> (\<forall>d. r = Inr d \<longrightarrow> rp s = Some (effective_replicas d)))
   \<and> (\<forall>d s s'. k_update_deployment K ns n d s = (None, s') \<longrightarrow> rp s' = Some (effective_replicas d))
   \<and> (\<forall>s. rp (snd (k_now K s)) = rp s) \<and> (\<forall>d s. rp (snd (k_sleep K d s)) = rp s)
   \<and> (\<forall>d s. rp (snd (k_after K d s)) = rp s)"

lemma spec_read:
  assumes "replica_spec K ns n rp" and "deployment_replicas K ns n s = (Ret r, s')"
  shows "rp s' = rp s \<and> (\<forall>v. r = Inr v \<longrightarrow> rp s = Some v)"
proof -
  obtain x s1 where x: "k_get_deployment K ns n s = (x, s1)" by (cases "k_get_deployment K ns n s")
  with assms(1) have "rp s1 = rp s" and "\<And>d. x = Inr d \<Longrightarrow> rp s = Some (effective_replicas d)"
    by (auto simp: replica_spec_def)
  with assms(2) x show ?thesis
    by (cases x) (auto simp: deployment_replicas_def get_deployment_def io_wrap_def io_try_def io_bind_def
        io_call_def io_ret_apply effective_replicas_def)
qed

lemma spec_reads_keep:
  assumes "replica_spec K ns n rp"
  shows "keeps (\<lambda>s. rp s = R) (replicas_ready K ns n w)" "keeps (\<lambda>s. rp s = R) (deployment_replicas K ns n)"
    "keeps (\<lambda>s. rp s = R) (io_call (k_now K))" "keeps (\<lambda>s. rp s = R) (io_call (k_after K d))"
proof -
  have "keeps (\<lambda>s. rp s = R) (io_call (k_get_deployment K ns n))"
    using assms unfolding replica_spec_def by (intro keeps_call) (metis prod.collapse)
  then show "keeps (\<lambda>s. rp s = R) (replicas_ready K ns n w)" "keeps (\<lambda>s. rp s = R) (deployment_replicas K ns n)"
    by (simp_all add: replicas_ready_def deployment_ready_replicas_def deployment_replicas_def
        get_deployment_def keeps_bind keeps_wrap keeps_try)
  show "keeps (\<lambda>s. rp s = R) (io_call (k_now K))" "keeps (\<lambda>s. rp s = R) (io_call (k_after K d))"
    using assms by (auto simp: replica_spec_def intro!: keeps_call)
qed

lemma wait_replicas_spec:
  assumes "replica_spec K ns n rp"
  shows "keeps (\<lambda>s. rp s = R) (wait_replicas K ns n t)"
  unfolding wait_replicas_def wait_for_def poll_for_def
  by (intro keeps_intros poll_loop_keeps spec_reads_keep [OF assms])

lemma spec_scale:
  assumes "replica_spec K ns n rp" and "scale_deployment K ns n v s = (Ret (Inr out), s')"
  shows "rp s' = Some v"
proof -
  obtain x s1 where x: "k_get_deployment K ns n s = (x, s1)" by (cases "k_get_deployment K ns n s")
  from assms(2) x obtain d where d: "x = Inr d"
    by (cases x) (auto simp: scale_deployment_def get_deployment_def io_wrap_def io_try_def io_bind_def
        io_call_def io_ret_apply)
  obtain e s2 where e: "k_update_deployment K ns n (d\<lparr>dep_replicas := Some v\<rparr>) s1 = (e, s2)"
    by (cases "k_update_deployment K ns n (d\<lparr>dep_replicas := Some v\<rparr>) s1")
  from assms(2) x d e have "e = None" and "s' = s2"
    by (cases e; auto simp: scale_deployment_def get_deployment_def io_wrap_def io_try_def io_check_def
        io_bind_def io_call_def io_ret_apply)+
  with e assms(1) show ?thesis by (auto simp: replica_spec_def effective_replicas_def)
qed

lemma scale_run_spec:
  assumes "replica_spec K ns n rp" and "scale_run K ns n s = (Ret (out, None), s')"
  shows "rp s' = rp s"
proof -
  from assms(2) obtain v s1 s3 where v: "deployment_replicas K ns n s = (Ret (Inr v), s1)"
    and up: "as_pair (scale_deployment K ns n v) s3 = (Ret (out, None), s')"
    by (auto simp: scale_run_def io_try_eq_Ret io_bind_eq_Ret)
  from up obtain o' where "scale_deployment K ns n v s3 = (Ret (Inr o'), s')"
    by (auto simp: as_pair_def io_try_eq_Ret)
  from spec_scale [OF assms(1) this] spec_read [OF assms(1) v] show ?thesis by simp
qed

text \<open>The rollback of an attempt runs on the snapshot, and marks the attempt only when it succeeds.\<close>

lemma scale_rollback_marks:
  assumes "replica_spec K ns n rp" and "act_rollback a = Some (scale_rollback K ns n)"
    and "rollback a (Some [(''replicas'', GInt32 v)]) at s = (Ret at', s')"
    and "\<not> ar_rolled_back at" and "ar_rolled_back at'"
  shows "rp s' = Some v"
proof -
  from assms(2,3) obtain x where x: "scale_rollback K ns n [(''replicas'', GInt32 v)] s = (Ret x, s')"
    and fin: "at' = (case x of Some err \<Rightarrow> at\<lparr>ar_err := redact_text (ar_err at @ ''; rollback failed: '' @ err_text err)\<rparr>
      | None \<Rightarrow> at\<lparr>ar_rolled_back := True\<rparr>)"
    by (auto simp: rollback_def io_bind_eq_Ret split: option.splits)
  from fin assms(4,5) have "x = None" by (cases x) simp_all
  with x have "scale_rollback K ns n [(''replicas'', GInt32 v)] s = (Ret None, s')" by simp
  then obtain o' where "scale_deployment K ns n v s = (Ret (Inr o'), s')"
    by (auto simp: scale_rollback_def io_try_eq_Ret snapshot_replicas_def)
  from spec_scale [OF assms(1) this] show ?thesis .
qed

lemma rollback_validated: "rollback a snap at s = (Ret at', s') \<Longrightarrow> ar_validated at' = ar_validated at"
  by (auto simp: rollback_def io_bind_eq_Ret split: option.splits)

lemma scale_action_spec:
  assumes st: "replica_spec K ns n rp"
    and run: "run_one (scale_action K ns n) s = (Ret at, s')"
    and "ar_validated at \<or> ar_rolled_back at"
  shows "rp s' = rp s"
proof -
  let ?a = "scale_action K ns n"
  have a: "act_snapshot ?a = Some (scale_snapshot K ns n)" "act_run ?a = Some (scale_run K ns n)"
    "act_validate ?a = Some (wait_replicas K ns n (60 * second))"
    "act_rollback ?a = Some (scale_rollback K ns n)"
    by (simp_all add: scale_action_def)
  let ?new = "new_attempt ?a"
  from run obtain p s1 where sn: "scale_snapshot K ns n s = (Ret p, s1)"
    and rest: "(case p of (st, err) \<Rightarrow> case err of
        Some e \<Rightarrow> io_ret (?new\<lparr>ar_err := redact_text (''snapshot failed: '' @ err_text e)\<rparr>)
      | None \<Rightarrow> run_body ?a st (?new\<lparr>ar_snapshot := Some (redact_snapshot st)\<rparr>)) s1 = (Ret at, s')"
    unfolding run_one_def Let_def a option.case by (rule io_bind_RetE)
  from sn obtain r where r: "deployment_replicas K ns n s = (Ret r, s1)"
    and p: "p = (case r of Inl e \<Rightarrow> (Some [(''replicas'', GInt32 0)], Some e)
                 | Inr v \<Rightarrow> (Some [(''replicas'', GInt32 v)], None))"
    by (auto simp: scale_snapshot_def io_try_eq_Ret)
  show ?thesis
  proof (cases r)
    case (Inl e)
    with rest p assms(3) show ?thesis by (simp add: new_attempt_def)
  next
    case (Inr v)
    let ?snap = "Some [(''replicas'', GInt32 v)]"
    define at1 where "at1 = ?new\<lparr>ar_snapshot := Some (redact_snapshot ?snap)\<rparr>"
    have at1: "\<not> ar_rolled_back at1" "\<not> ar_validated at1" by (simp_all add: at1_def new_attempt_def)
    from spec_read [OF st r] Inr have s1: "rp s1 = rp s" and v: "rp s = Some v"
      by simp_all
    from rest p Inr have "run_body ?a ?snap at1 s1 = (Ret at, s')" by (simp add: at1_def)
    then obtain q s2 where q: "scale_run K ns n s1 = (Ret q, s2)"
      and body: "(case q of (out, err) \<Rightarrow>
        let at2 = at1\<lparr>ar_output := redact_text out\<rparr> in
        case err of Some e \<Rightarrow> rollback ?a ?snap (at2\<lparr>ar_err := redact_text (err_text e)\<rparr>)
        | None \<Rightarrow> run_validate ?a ?snap at2) s2 = (Ret at, s')"
      unfolding run_body_def a option.case by (rule io_bind_RetE)
    obtain out err where qq: "q = (out, err)" by (cases q)
    show ?thesis
    proof (cases err)
      case (Some e)
      with body qq have rb: "rollback ?a ?snap (at1\<lparr>ar_output := redact_text out,
          ar_err := redact_text (err_text e)\<rparr>) s2 = (Ret at, s')" by (simp add: Let_def)
      from rollback_validated [OF rb] at1 assms(3) have "ar_rolled_back at" by simp
      from scale_rollback_marks [OF st a(4) rb _ this] at1 v show ?thesis by simp
    next
      case None
      with q qq have "scale_run K ns n s1 = (Ret (out, None), s2)" by simp
      from scale_run_spec [OF st this] s1 v have s2: "rp s2 = Some v"
        by simp
      define at2 where "at2 = at1\<lparr>ar_output := redact_text out\<rparr>"
      from body qq None have "run_validate ?a ?snap at2 s2 = (Ret at, s')" by (simp add: Let_def at2_def)
      then obtain w s3 where w: "wait_replicas K ns n (60 * second) s2 = (Ret w, s3)"
        and fin: "(case w of (healthy, err) \<Rightarrow>
          let at3 = (case err of None \<Rightarrow> at2 | Some e \<Rightarrow> at2\<lparr>ar_err := redact_text (err_text e)\<rparr>);
              at4 = at3\<lparr>ar_validated := healthy\<rparr>
          in if healthy then io_ret at4 else rollback ?a ?snap at4) s3 = (Ret at, s')"
        unfolding run_validate_def a option.case by (rule io_bind_RetE)
      obtain h e where ww: "w = (h, e)" by (cases w)
      from keepsD [OF wait_replicas_spec [OF st, of "rp s2"], of s2] w have "rp s3 = rp s2" by (metis snd_conv)
      with s2 have s3: "rp s3 = Some v" by simp
      define at4 where "at4 = (case e of None \<Rightarrow> at2 | Some e \<Rightarrow> at2\<lparr>ar_err := redact_text (err_text e)\<rparr>)
        \<lparr>ar_validated := h\<rparr>"
      have at4: "\<not> ar_rolled_back at4" "ar_validated at4 = h"
        using at1 by (auto simp: at4_def at2_def split: option.splits)
      show ?thesis
      proof (cases h)
        case True
        with fin ww s3 v show ?thesis by (simp add: Let_def)
      next
        case False
        with fin ww have rb: "rollback ?a ?snap at4 s3 = (Ret at, s')" by (simp add: Let_def at4_def)
        from rollback_validated [OF rb] at4 False assms(3) have "ar_rolled_back at" by simp
        from scale_rollback_marks [OF st a(4) rb at4(1) this] v show ?thesis by simp
      qed
    qed
  qed
qed

end
