(* ===== verification/Wire.thy ===== *)
theory Wire imports Playbooks begin

text \<open>
  The messages of api/proto/k8sts/v1 as the generated Go code (internal/transport/gen) has them: one
  record per message with the fields of its struct, the \<open>oneof\<close>s of the two stream messages as
  datatypes, and the \<open>Handler\<close> interface of internal/transport that produces the answers. A pointer
  to a message that may be nil is an option; the getters of the generated code read a nil message
  as the empty one.
\<close>

section \<open>Messages\<close>

type_synonym pb_signal = "signal option"

definition empty_signal :: signal where
  "empty_signal = \<lparr>sig_kind = [], sig_namespace = [], sig_name = [], sig_node_name = []\<rparr>"

definition sig_get :: "pb_signal \<Rightarrow> (signal \<Rightarrow> string) \<Rightarrow> string" where
  "sig_get s f = (case s of None \<Rightarrow> [] | Some x \<Rightarrow> f x)"

record proposed_action =
  pa_name :: string
  pa_description :: string
  pa_risk :: string

record diagnose_response =
  dr_request_id :: string
  dr_playbook_id :: string
  dr_summary :: string
  dr_proposed :: "proposed_action list"
  dr_error :: string
  dr_no_playbook :: bool
  dr_meta :: meta

record pod_issue =
  is_namespace :: string
  is_name :: string
  is_kind :: string
  is_detail :: string

record scan_response =
  sr_request_id :: string
  sr_issues :: "pod_issue list"
  sr_error :: string

record attempt =
  at_action :: string
  at_risk :: string
  at_output :: string
  at_error :: string
  at_validated :: bool
  at_rolled_back :: bool
  at_description :: string
  at_skipped :: bool

record execute_response =
  er_request_id :: string
  er_resolved :: bool
  er_attempts :: "attempt list"
  er_error :: string

record approve_action_response =
  aar_request_id :: string
  aar_attempt :: "attempt option"
  aar_error :: string

record get_logs_response =
  glr_request_id :: string
  glr_logs :: string
  glr_error :: string

record list_nodes_response =
  lnr_request_id :: string
  lnr_nodes :: "node_info list"
  lnr_error :: string

record diagnose_request =
  dq_request_id :: string
  dq_signal :: pb_signal
  dq_cluster_id :: string

record scan_request =
  sq_request_id :: string
  sq_namespace :: string
  sq_cluster_id :: string

record execute_request =
  eq_request_id :: string
  eq_playbook_id :: string
  eq_signal :: pb_signal
  eq_cluster_id :: string

record approve_action_request =
  aq_request_id :: string
  aq_playbook_id :: string
  aq_signal :: pb_signal
  aq_action_name :: string
  aq_cluster_id :: string
  aq_meta :: meta

record get_logs_request =
  gq_request_id :: string
  gq_namespace :: string
  gq_name :: string
  gq_deployment :: string
  gq_tail_lines :: int
  gq_cluster_id :: string

record list_nodes_request =
  lq_request_id :: string
  lq_cluster_id :: string

datatype agent_message =
    AHello string string
  | ADiagnose diagnose_response
  | AExecute execute_response
  | AScan scan_response
  | AApprove approve_action_response
  | AGetLogs get_logs_response
  | AListNodes list_nodes_response

datatype hub_message =
    HDiagnose diagnose_request
  | HExecute execute_request
  | HScan scan_request
  | HApprove approve_action_request
  | HGetLogs get_logs_request
  | HListNodes list_nodes_request

section \<open>The handler interface\<close>

text \<open>
  What \<open>Handler.Diagnose\<close> returns beside its error. Each method returns zero values with an error,
  so an answer is an error or a value.
\<close>

record diagnosis =
  dg_playbook_id :: string
  dg_summary :: string
  dg_proposed :: "proposed_action list"
  dg_meta :: meta
  dg_no_playbook :: bool

record 's handler =
  h_diagnose :: "pb_signal \<Rightarrow> ('s, goerr + diagnosis) io"
  h_execute :: "string \<Rightarrow> pb_signal \<Rightarrow> ('s, goerr + (bool \<times> attempt list)) io"
  h_scan :: "string \<Rightarrow> ('s, goerr + pod_issue list) io"
  h_approve_action :: "string \<Rightarrow> pb_signal \<Rightarrow> string \<Rightarrow> meta \<Rightarrow> ('s, goerr + attempt) io"
  h_get_logs :: "string \<Rightarrow> string \<Rightarrow> string \<Rightarrow> int \<Rightarrow> ('s, goerr + string) io"
  h_list_nodes :: "('s, goerr + node_info list) io"

section \<open>Responses (handlerresponses.go)\<close>

definition respond :: "('s, goerr + 'a) io \<Rightarrow> (goerr \<Rightarrow> 'r) \<Rightarrow> ('a \<Rightarrow> 'r) \<Rightarrow> ('s, 'r) io" where
  "respond m h k = io_try m (\<lambda>e. io_ret (h e)) (\<lambda>v. io_ret (k v))"

definition diagnose_response_of :: "'s handler \<Rightarrow> pb_signal \<Rightarrow> ('s, diagnose_response) io" where
  "diagnose_response_of h sig = respond (h_diagnose h sig)
     (\<lambda>e. \<lparr>dr_request_id = [], dr_playbook_id = [], dr_summary = [], dr_proposed = [],
          dr_error = err_text e, dr_no_playbook = False, dr_meta = Map.empty\<rparr>)
     (\<lambda>d. \<lparr>dr_request_id = [], dr_playbook_id = dg_playbook_id d, dr_summary = dg_summary d,
          dr_proposed = dg_proposed d, dr_error = [], dr_no_playbook = dg_no_playbook d,
          dr_meta = dg_meta d\<rparr>)"

definition execute_response_of :: "'s handler \<Rightarrow> string \<Rightarrow> pb_signal \<Rightarrow> ('s, execute_response) io" where
  "execute_response_of h pid sig = respond (h_execute h pid sig)
     (\<lambda>e. \<lparr>er_request_id = [], er_resolved = False, er_attempts = [], er_error = err_text e\<rparr>)
     (\<lambda>(resolved, attempts). \<lparr>er_request_id = [], er_resolved = resolved, er_attempts = attempts, er_error = []\<rparr>)"

definition scan_response_of :: "'s handler \<Rightarrow> string \<Rightarrow> ('s, scan_response) io" where
  "scan_response_of h ns = respond (h_scan h ns)
     (\<lambda>e. \<lparr>sr_request_id = [], sr_issues = [], sr_error = err_text e\<rparr>)
     (\<lambda>is. \<lparr>sr_request_id = [], sr_issues = is, sr_error = []\<rparr>)"

definition approve_action_response_of ::
  "'s handler \<Rightarrow> string \<Rightarrow> pb_signal \<Rightarrow> string \<Rightarrow> meta \<Rightarrow> ('s, approve_action_response) io" where
  "approve_action_response_of h pid sig name m = respond (h_approve_action h pid sig name m)
     (\<lambda>e. \<lparr>aar_request_id = [], aar_attempt = None, aar_error = err_text e\<rparr>)
     (\<lambda>a. \<lparr>aar_request_id = [], aar_attempt = Some a, aar_error = []\<rparr>)"

definition get_logs_response_of ::
  "'s handler \<Rightarrow> string \<Rightarrow> string \<Rightarrow> string \<Rightarrow> int \<Rightarrow> ('s, get_logs_response) io" where
  "get_logs_response_of h ns name dep tail = respond (h_get_logs h ns name dep tail)
     (\<lambda>e. \<lparr>glr_request_id = [], glr_logs = [], glr_error = err_text e\<rparr>)
     (\<lambda>l. \<lparr>glr_request_id = [], glr_logs = l, glr_error = []\<rparr>)"

definition list_nodes_response_of :: "'s handler \<Rightarrow> ('s, list_nodes_response) io" where
  "list_nodes_response_of h = respond (h_list_nodes h)
     (\<lambda>e. \<lparr>lnr_request_id = [], lnr_nodes = [], lnr_error = err_text e\<rparr>)
     (\<lambda>ns. \<lparr>lnr_request_id = [], lnr_nodes = ns, lnr_error = []\<rparr>)"

lemma respond_keeps [keeps_intros]: "keeps I m \<Longrightarrow> keeps I (respond m h k)"
  unfolding respond_def by (intro keeps_intros)

lemma respond_returns [total_intros]: "returns m \<Longrightarrow> returns (respond m h k)"
  unfolding respond_def by (intro total_intros)

text \<open>A response carries an error exactly when the handler failed, provided errors have a text.\<close>

lemma respond_Ret: "respond m h k s = (Ret r, s') \<longleftrightarrow>
    (\<exists>e. m s = (Ret (Inl e), s') \<and> r = h e) \<or> (\<exists>v. m s = (Ret (Inr v), s') \<and> r = k v)"
  by (auto simp: respond_def io_try_eq_Ret)

end
