(* ===== verification/Registry.thy ===== *)
theory Registry imports Prelude "HOL-Library.AList" begin

text \<open>
  internal/registry: the directory of which hub replica holds which cluster. The locale \<open>directory\<close>
  states what the \<open>Registry\<close> interface promises, with the time of each call explicit; it is
  interpreted on the operations of InMemory (inmemory.go). Redis (redis.go) is written over a record
  of the four go-redis calls it makes, which are not part of the repository. \<open>registry_ops\<close> is the
  interface as internal/transport uses it: operations on the state of the world that may fail.
\<close>

section \<open>The contract\<close>

locale directory =
  fixes announce :: "string \<Rightarrow> string \<Rightarrow> int \<Rightarrow> int \<Rightarrow> 'r \<Rightarrow> 'r"
    and forget :: "string \<Rightarrow> 'r \<Rightarrow> 'r"
    and lookup :: "string \<Rightarrow> int \<Rightarrow> 'r \<Rightarrow> string option"
    and listing :: "int \<Rightarrow> 'r \<Rightarrow> string list"
  assumes lookup_announce: "t \<le> now + ttl \<Longrightarrow> lookup c t (announce c addr ttl now r) = Some addr"
    and lookup_expired: "now + ttl < t \<Longrightarrow> lookup c t (announce c addr ttl now r) = None"
    and lookup_announce_other: "d \<noteq> c \<Longrightarrow> lookup d t (announce c addr ttl now r) = lookup d t r"
    and lookup_forget: "lookup c t (forget c r) = None"
    and lookup_forget_other: "d \<noteq> c \<Longrightarrow> lookup d t (forget c r) = lookup d t r"
    and listing_lookup: "c \<in> set (listing t r) \<Longrightarrow> lookup c t r \<noteq> None"
    and listing_announce: "t < now + ttl \<Longrightarrow> c \<in> set (listing t (announce c addr ttl now r))"
begin

text \<open>A sequence of heartbeats, each a re-announcement at its time.\<close>

fun heartbeats :: "string \<Rightarrow> string \<Rightarrow> int \<Rightarrow> int list \<Rightarrow> 'r \<Rightarrow> 'r" where
  "heartbeats c addr ttl [] r = r"
| "heartbeats c addr ttl (t # ts) r = heartbeats c addr ttl ts (announce c addr ttl t r)"

lemma heartbeats_append: "heartbeats c addr ttl (ts @ us) r = heartbeats c addr ttl us (heartbeats c addr ttl ts r)"
  by (induction ts arbitrary: r) simp_all

lemma heartbeats_last:
  "ts \<noteq> [] \<Longrightarrow> t \<le> last ts + ttl \<Longrightarrow> lookup c t (heartbeats c addr ttl ts r) = Some addr"
proof (induction ts rule: rev_induct)
  case Nil
  then show ?case by simp
next
  case (snoc u ts)
  then show ?case by (simp add: heartbeats_append lookup_announce)
qed

text \<open>A record kept by heartbeats is found at every time the last one covers, lost after it, and
  other clusters are not touched.\<close>

lemma heartbeats_expire:
  "ts \<noteq> [] \<Longrightarrow> last ts + ttl < t \<Longrightarrow> lookup c t (heartbeats c addr ttl ts r) = None"
proof (induction ts rule: rev_induct)
  case Nil
  then show ?case by simp
next
  case (snoc u ts)
  then show ?case by (simp add: heartbeats_append lookup_expired)
qed

lemma heartbeats_other: "d \<noteq> c \<Longrightarrow> lookup d t (heartbeats c addr ttl ts r) = lookup d t r"
  by (induction ts arbitrary: r) (simp_all add: lookup_announce_other)

lemma forget_listing: "c \<notin> set (listing t (forget c r))"
  using listing_lookup [of c t "forget c r"] lookup_forget [of c t r] by auto

end

section \<open>InMemory\<close>

record in_memory_record =
  im_addr :: string
  im_expires :: int

type_synonym in_memory = "(string \<times> in_memory_record) list"

definition in_memory_announce :: "string \<Rightarrow> string \<Rightarrow> int \<Rightarrow> int \<Rightarrow> in_memory \<Rightarrow> in_memory" where
  "in_memory_announce c addr ttl now r = AList.update c \<lparr>im_addr = addr, im_expires = now + ttl\<rparr> r"

definition in_memory_heartbeat :: "string \<Rightarrow> string \<Rightarrow> int \<Rightarrow> int \<Rightarrow> in_memory \<Rightarrow> in_memory" where
  "in_memory_heartbeat c addr ttl now r = in_memory_announce c addr ttl now r"

definition in_memory_lookup :: "string \<Rightarrow> int \<Rightarrow> in_memory \<Rightarrow> string option" where
  "in_memory_lookup c now r =
    (case map_of r c of
       None \<Rightarrow> None
     | Some rec \<Rightarrow> if now > im_expires rec then None else Some (im_addr rec))"

definition in_memory_forget :: "string \<Rightarrow> in_memory \<Rightarrow> in_memory" where
  "in_memory_forget c r = AList.delete c r"

text \<open>The order is Go's map order, of which nothing is known; the association list holds each key once.\<close>

definition in_memory_list :: "int \<Rightarrow> in_memory \<Rightarrow> string list" where
  "in_memory_list now r =
    map fst (filter (\<lambda>(c, rec). map_of r c = Some rec \<and> now < im_expires rec) r)"

lemma in_memory_list_iff:
  "c \<in> set (in_memory_list now r) \<longleftrightarrow> (\<exists>rec. map_of r c = Some rec \<and> now < im_expires rec)"
  by (force simp: in_memory_list_def dest: map_of_SomeD)

interpretation in_memory: directory in_memory_announce in_memory_forget in_memory_lookup in_memory_list
proof unfold_locales
  fix c d addr :: string and t now ttl :: int and r :: in_memory
  show "t \<le> now + ttl \<Longrightarrow> in_memory_lookup c t (in_memory_announce c addr ttl now r) = Some addr"
    by (simp add: in_memory_lookup_def in_memory_announce_def update_conv')
  show "now + ttl < t \<Longrightarrow> in_memory_lookup c t (in_memory_announce c addr ttl now r) = None"
    by (simp add: in_memory_lookup_def in_memory_announce_def update_conv')
  show "d \<noteq> c \<Longrightarrow> in_memory_lookup d t (in_memory_announce c addr ttl now r) = in_memory_lookup d t r"
    by (simp add: in_memory_lookup_def in_memory_announce_def update_conv')
  show "in_memory_lookup c t (in_memory_forget c r) = None"
    by (simp add: in_memory_lookup_def in_memory_forget_def delete_conv')
  show "d \<noteq> c \<Longrightarrow> in_memory_lookup d t (in_memory_forget c r) = in_memory_lookup d t r"
    by (simp add: in_memory_lookup_def in_memory_forget_def delete_conv')
  show "c \<in> set (in_memory_list t r) \<Longrightarrow> in_memory_lookup c t r \<noteq> None"
    by (auto simp: in_memory_list_iff in_memory_lookup_def)
  show "t < now + ttl \<Longrightarrow> c \<in> set (in_memory_list t (in_memory_announce c addr ttl now r))"
    by (simp add: in_memory_list_iff in_memory_announce_def update_conv')
qed

section \<open>The interface with failures\<close>

record 's registry_ops =
  rg_announce :: "string \<Rightarrow> string \<Rightarrow> int \<Rightarrow> 's \<Rightarrow> goerr option \<times> 's"
  rg_heartbeat :: "string \<Rightarrow> string \<Rightarrow> int \<Rightarrow> 's \<Rightarrow> goerr option \<times> 's"
  rg_lookup :: "string \<Rightarrow> 's \<Rightarrow> (goerr + string option) \<times> 's"
  rg_forget :: "string \<Rightarrow> 's \<Rightarrow> goerr option \<times> 's"
  rg_list :: "'s \<Rightarrow> (goerr + string list) \<times> 's"

text \<open>InMemory as such an interface, over a state that holds the records and the clock.\<close>

definition in_memory_ops :: "(in_memory \<times> int) registry_ops" where
  "in_memory_ops =
    \<lparr>rg_announce = (\<lambda>c addr ttl (r, now). (None, (in_memory_announce c addr ttl now r, now))),
     rg_heartbeat = (\<lambda>c addr ttl (r, now). (None, (in_memory_heartbeat c addr ttl now r, now))),
     rg_lookup = (\<lambda>c (r, now). (Inr (in_memory_lookup c now r), (r, now))),
     rg_forget = (\<lambda>c (r, now). (None, (in_memory_forget c r, now))),
     rg_list = (\<lambda>(r, now). (Inr (in_memory_list now r), (r, now)))\<rparr>"

section \<open>Redis\<close>

text \<open>
  The go-redis calls: \<open>Set\<close> with a TTL, \<open>Get\<close> (\<open>None\<close> is \<open>redis.Nil\<close>), \<open>Del\<close> and a complete \<open>Scan\<close> of a
  pattern.
\<close>

record 's redis_client =
  rc_set :: "string \<Rightarrow> string \<Rightarrow> int \<Rightarrow> 's \<Rightarrow> goerr option \<times> 's"
  rc_get :: "string \<Rightarrow> 's \<Rightarrow> (goerr + string option) \<times> 's"
  rc_del :: "string \<Rightarrow> 's \<Rightarrow> goerr option \<times> 's"
  rc_scan :: "string \<Rightarrow> 's \<Rightarrow> (goerr + string list) \<times> 's"

definition key_prefix :: string where "key_prefix = ''k8sts:agent:''"

definition map_err :: "string \<Rightarrow> goerr option \<times> 's \<Rightarrow> goerr option \<times> 's" where
  "map_err msg r = (case r of (e, s) \<Rightarrow> (map_option (wrapf msg) e, s))"

definition redis_announce :: "'s redis_client \<Rightarrow> string \<Rightarrow> string \<Rightarrow> int \<Rightarrow> 's \<Rightarrow> goerr option \<times> 's" where
  "redis_announce R c addr ttl s = map_err (''announcing '' @ c @ '' in redis: '') (rc_set R (key_prefix @ c) addr ttl s)"

definition redis_heartbeat :: "'s redis_client \<Rightarrow> string \<Rightarrow> string \<Rightarrow> int \<Rightarrow> 's \<Rightarrow> goerr option \<times> 's" where
  "redis_heartbeat R c addr ttl s = redis_announce R c addr ttl s"

definition redis_lookup :: "'s redis_client \<Rightarrow> string \<Rightarrow> 's \<Rightarrow> (goerr + string option) \<times> 's" where
  "redis_lookup R c s = (case rc_get R (key_prefix @ c) s of
      (Inl e, s') \<Rightarrow> (Inl (wrapf (''looking up '' @ c @ '' in redis: '') e), s')
    | (Inr v, s') \<Rightarrow> (Inr v, s'))"

definition redis_forget :: "'s redis_client \<Rightarrow> string \<Rightarrow> 's \<Rightarrow> goerr option \<times> 's" where
  "redis_forget R c s = map_err (''forgetting '' @ c @ '' in redis: '') (rc_del R (key_prefix @ c) s)"

definition redis_list :: "'s redis_client \<Rightarrow> 's \<Rightarrow> (goerr + string list) \<times> 's" where
  "redis_list R s = (case rc_scan R (key_prefix @ ''*'') s of
      (Inl e, s') \<Rightarrow> (Inl (wrapf ''listing clusters in redis: '' e), s')
    | (Inr keys, s') \<Rightarrow> (Inr (map (\<lambda>k. trim_prefix k key_prefix) keys), s'))"

definition redis_ops :: "'s redis_client \<Rightarrow> 's registry_ops" where
  "redis_ops R = \<lparr>rg_announce = redis_announce R, rg_heartbeat = redis_heartbeat R,
     rg_lookup = redis_lookup R, rg_forget = redis_forget R, rg_list = redis_list R\<rparr>"

text \<open>Keys of different clusters never collide, and listing strips exactly the prefix.\<close>

lemma key_prefix_inj: "key_prefix @ c = key_prefix @ d \<longleftrightarrow> c = d"
  by simp

lemma trim_key: "trim_prefix (key_prefix @ c) key_prefix = c"
  by (simp add: trim_prefix_def)

section \<open>Properties\<close>

text \<open>A record that is heartbeaten is found, with the announced address, at every time the last
  heartbeat's TTL covers; after that it is gone, so a replica that dies heals without a \<open>Forget\<close>.\<close>

theorem in_memory_heartbeats:
  assumes "ts \<noteq> []"
  shows "in_memory_lookup c t (fold (\<lambda>u. in_memory_heartbeat c addr ttl u) ts r)
    = (if t \<le> last ts + ttl then Some addr else None)"
proof -
  have "fold (\<lambda>u. in_memory_heartbeat c addr ttl u) us q = in_memory.heartbeats c addr ttl us q" for us q
    by (induction us arbitrary: q) (simp_all add: in_memory_heartbeat_def)
  then show ?thesis
    using in_memory.heartbeats_last [OF assms] in_memory.heartbeats_expire [OF assms] by simp
qed

theorem in_memory_heartbeats_witness:
  "in_memory_lookup ''c'' 39 (fold (\<lambda>u. in_memory_heartbeat ''c'' ''a:1'' 30 u) [0, 10] []) = Some ''a:1''"
  using in_memory_heartbeats [of "[0, 10]" "''c''" 39 "''a:1''" 30 "[]"] by simp

text \<open>At the very instant a record expires, \<open>Lookup\<close> still finds it and \<open>List\<close> no longer names it; at
  any other time the two agree.\<close>

theorem in_memory_lookup_list:
  "in_memory_lookup c now r \<noteq> None \<longleftrightarrow>
     c \<in> set (in_memory_list now r) \<or> (\<exists>rec. map_of r c = Some rec \<and> im_expires rec = now)"
  by (force simp: in_memory_lookup_def in_memory_list_iff split: option.splits)

end
