(* ===== verification/Transport.thy ===== *)
theory Transport imports Wire Registry begin

text \<open>
  internal/transport: the hub's side of the agent connections (server.go) and the agent's side
  (client.go).

  \<^item> \<open>conn\<close>: one agent connection's correlation of requests and replies (\<open>await\<close>, \<open>forget\<close>,
    \<open>dispatch\<close>), as a step relation over any interleaving of requests, replies and waiters.
  \<^item> \<open>server\<close>: which connection holds a cluster, which heartbeat loops run, and the registry, as a step
    relation over sessions that start and end in any order.
  \<^item> \<open>network\<close>: what a request of the hub reaches (the role resolver, the local connections, the
    registry, the peer replicas), and the routing of the six requests over it.
  \<^item> the agent's reply to each hub message, and its reconnection backoff.
\<close>

section \<open>Correlating replies\<close>

text \<open>Channels are numbered in the order of their creation; each holds the messages sent and not yet
  received.\<close>

record conn =
  cn_pending :: "string \<rightharpoonup> nat"
  cn_chans :: "nat \<Rightarrow> agent_message list"
  cn_next :: nat

definition new_conn :: conn where
  "new_conn = \<lparr>cn_pending = Map.empty, cn_chans = (\<lambda>_. []), cn_next = 0\<rparr>"

definition conn_await :: "string \<Rightarrow> conn \<Rightarrow> conn" where
  "conn_await rid c = c\<lparr>cn_pending := (cn_pending c)(rid \<mapsto> cn_next c), cn_next := Suc (cn_next c)\<rparr>"

definition conn_forget :: "string \<Rightarrow> conn \<Rightarrow> conn" where
  "conn_forget rid c = c\<lparr>cn_pending := (cn_pending c)(rid := None)\<rparr>"

definition request_id_of :: "agent_message \<Rightarrow> string option" where
  "request_id_of msg = (case msg of
      AHello _ _ \<Rightarrow> None
    | ADiagnose r \<Rightarrow> Some (dr_request_id r)
    | AExecute r \<Rightarrow> Some (er_request_id r)
    | AScan r \<Rightarrow> Some (sr_request_id r)
    | AApprove r \<Rightarrow> Some (aar_request_id r)
    | AGetLogs r \<Rightarrow> Some (glr_request_id r)
    | AListNodes r \<Rightarrow> Some (lnr_request_id r))"

definition conn_dispatch :: "agent_message \<Rightarrow> conn \<Rightarrow> conn" where
  "conn_dispatch msg c =
    (case request_id_of msg of
       None \<Rightarrow> c
     | Some rid \<Rightarrow>
        (case cn_pending c rid of
           None \<Rightarrow> c
         | Some ch \<Rightarrow> c\<lparr>cn_pending := (cn_pending c)(rid := None),
             cn_chans := (cn_chans c)(ch := cn_chans c ch @ [msg])\<rparr>))"

definition conn_receive :: "nat \<Rightarrow> conn \<Rightarrow> conn" where
  "conn_receive ch c = c\<lparr>cn_chans := (cn_chans c)(ch := tl (cn_chans c ch))\<rparr>"

text \<open>
  The steps of a connection, with the request id each channel was made for: a request starts waiting,
  its waiter leaves, the receive loop dispatches any message, a waiter takes a delivered reply.
\<close>

inductive conn_step :: "conn \<times> string list \<Rightarrow> conn \<times> string list \<Rightarrow> bool" where
  await: "conn_step (c, owners) (conn_await rid c, owners @ [rid])"
| forget: "conn_step (c, owners) (conn_forget rid c, owners)"
| dispatch: "conn_step (c, owners) (conn_dispatch msg c, owners)"
| receive: "cn_chans c ch \<noteq> [] \<Longrightarrow> conn_step (c, owners) (conn_receive ch c, owners)"

inductive_cases conn_stepE: "conn_step (c, owners) s'"

inductive conn_reachable :: "conn \<times> string list \<Rightarrow> bool" where
  start: "conn_reachable (new_conn, [])"
| step: "conn_reachable s \<Longrightarrow> conn_step s s' \<Longrightarrow> conn_reachable s'"

definition conn_ok :: "conn \<times> string list \<Rightarrow> bool" where
  "conn_ok s = (case s of (c, owners) \<Rightarrow>
     length owners = cn_next c
   \<and> (\<forall>rid ch. cn_pending c rid = Some ch \<longrightarrow> ch < cn_next c \<and> owners ! ch = rid \<and> cn_chans c ch = [])
   \<and> (\<forall>ch. length (cn_chans c ch) \<le> 1 \<and> (cn_next c \<le> ch \<longrightarrow> cn_chans c ch = [])
        \<and> (\<forall>m \<in> set (cn_chans c ch). request_id_of m = Some (owners ! ch))))"

lemma conn_ok_step:
  assumes "conn_ok s" and "conn_step s s'"
  shows "conn_ok s'"
  using assms(2,1)
proof cases
  case (await c owners rid)
  with assms(1) show ?thesis
    by (auto simp: conn_ok_def conn_await_def nth_append less_Suc_eq)
next
  case (forget c owners rid)
  with assms(1) show ?thesis by (auto simp: conn_ok_def conn_forget_def)
next
  case (dispatch c owners msg)
  show ?thesis
  proof (cases "request_id_of msg")
    case None
    with dispatch assms(1) show ?thesis by (simp add: conn_dispatch_def)
  next
    case (Some rid)
    show ?thesis
    proof (cases "cn_pending c rid")
      case None
      with Some dispatch assms(1) show ?thesis by (simp add: conn_dispatch_def)
    next
      case (Some ch)
      have ok: "conn_ok (c, owners)" using assms(1) dispatch by simp
      then have ch: "ch < cn_next c" "owners ! ch = rid" "cn_chans c ch = []"
        using Some by (simp_all add: conn_ok_def)
      have "ch' \<noteq> ch" if "cn_pending c rid' = Some ch'" "rid' \<noteq> rid" for rid' ch'
        using ok that ch by (auto simp: conn_ok_def)
      moreover have "\<not> cn_next c \<le> ch" using ch(1) by simp
      ultimately show ?thesis using ok ch(2,3) dispatch Some \<open>request_id_of msg = Some rid\<close>
        by (auto simp: conn_ok_def conn_dispatch_def)
    qed
  qed
next
  case (receive c ch owners)
  have "conn_ok (c, owners)" using assms(1) receive by simp
  moreover have "\<And>rid. cn_pending c rid \<noteq> Some ch"
    using calculation receive(3) by (auto simp: conn_ok_def)
  ultimately show ?thesis
    using receive by (auto simp: conn_ok_def conn_receive_def dest: in_set_butlastD list.set_sel(2))
qed

lemma conn_reachable_ok: "conn_reachable s \<Longrightarrow> conn_ok s"
proof (induction rule: conn_reachable.induct)
  case start
  then show ?case by (simp add: conn_ok_def new_conn_def)
next
  case (step s s')
  then show ?case by (blast intro: conn_ok_step)
qed

section \<open>Delivery\<close>

text \<open>What happens on a connection besides a waiter's own reply.\<close>

datatype conn_event = Await string | Forget string | Dispatch agent_message | Receive nat

fun conn_apply :: "conn_event \<Rightarrow> conn \<Rightarrow> conn" where
  "conn_apply (Await rid) c = conn_await rid c"
| "conn_apply (Forget rid) c = conn_forget rid c"
| "conn_apply (Dispatch msg) c = conn_dispatch msg c"
| "conn_apply (Receive ch) c = conn_receive ch c"

text \<open>The events of other requests: none of this request id, and nobody else takes from its channel.\<close>

fun of_others :: "string \<Rightarrow> nat \<Rightarrow> conn_event \<Rightarrow> bool" where
  "of_others rid ch (Await r) = (r \<noteq> rid)"
| "of_others rid ch (Forget r) = (r \<noteq> rid)"
| "of_others rid ch (Dispatch msg) = (request_id_of msg \<noteq> Some rid)"
| "of_others rid ch (Receive h) = (h \<noteq> ch)"

lemma conn_apply_reachable:
  assumes "conn_reachable (c, owners)"
  shows "\<exists>owners'. conn_reachable (conn_apply ev c, owners')"
proof (cases ev)
  case (Receive ch)
  show ?thesis
  proof (cases "cn_chans c ch = []")
    case True
    then have "conn_receive ch c = c" by (simp add: conn_receive_def fun_upd_idem)
    with Receive assms show ?thesis by auto
  qed (use Receive assms conn_reachable.step conn_step.receive in \<open>fastforce\<close>)
qed (use assms conn_reachable.step conn_step.intros in \<open>fastforce+\<close>)

lemma conn_apply_pending:
  assumes "cn_pending c rid = Some ch" and "of_others rid ch ev"
  shows "cn_pending (conn_apply ev c) rid = Some ch"
  using assms by (cases ev) (auto simp: conn_await_def conn_forget_def conn_dispatch_def conn_receive_def split: option.splits)

lemma still_waiting:
  assumes "conn_reachable (c, owners)" and "cn_pending c rid = Some ch" and "list_all (of_others rid ch) evs"
  shows "cn_pending (fold conn_apply evs c) rid = Some ch \<and> cn_chans (fold conn_apply evs c) ch = []"
  using assms
proof (induction evs arbitrary: c owners)
  case Nil
  then show ?case using conn_reachable_ok [OF Nil(1)] by (simp add: conn_ok_def)
next
  case (Cons ev evs)
  obtain owners' where "conn_reachable (conn_apply ev c, owners')" using conn_apply_reachable [OF Cons.prems(1)] by blast
  with Cons show ?case by (simp add: conn_apply_pending)
qed

section \<open>Sessions, connections and heartbeats\<close>

text \<open>
  \<open>sv_live\<close> are the sessions in progress, \<open>sv_beating\<close> the heartbeat loops that run, each by its
  connection's number and cluster. The registry is InMemory, with the clock \<open>sv_now\<close>; the configuration
  says whether the server has a registry at all, its address, its TTL and how often it beats.
\<close>

record server_config =
  sc_registry :: bool
  sc_self_addr :: string
  sc_ttl :: int
  sc_heartbeat_interval :: int

record server =
  sv_agents :: "string \<rightharpoonup> nat"
  sv_live :: "(nat \<times> string) list"
  sv_beating :: "(nat \<times> string) list"
  sv_records :: in_memory
  sv_now :: int
  sv_next :: nat

definition default_ttl :: int where "default_ttl = 30 * 1000000000"

definition server_ttl :: "server_config \<Rightarrow> int" where
  "server_ttl cfg = (if sc_ttl cfg > 0 then sc_ttl cfg else default_ttl)"

definition default_heartbeat_interval :: int where "default_heartbeat_interval = 10 * 1000000000"

definition heartbeat_interval :: "server_config \<Rightarrow> int" where
  "heartbeat_interval cfg =
    (if sc_heartbeat_interval cfg > 0 then sc_heartbeat_interval cfg else default_heartbeat_interval)"

text \<open>The ticks of the heartbeat loop of a connection registered at \<open>t0\<close>, up to \<open>t\<close>.\<close>

definition heartbeat_times :: "server_config \<Rightarrow> int \<Rightarrow> int \<Rightarrow> int list" where
  "heartbeat_times cfg t0 t =
    map (\<lambda>k. t0 + int k * heartbeat_interval cfg) [1..<Suc (nat ((t - t0) div heartbeat_interval cfg))]"

text \<open>
  The loop of a connection ticks at least once within every interval, so a record that lives as long as
  the interval (the defaults are 30 and 10 seconds) is always found while the loop runs.
\<close>

lemma heartbeat_times_last:
  assumes "t0 \<le> t"
  shows "last (t0 # heartbeat_times cfg t0 t) \<le> t \<and> t < last (t0 # heartbeat_times cfg t0 t) + heartbeat_interval cfg"
proof -
  define i where "i = heartbeat_interval cfg"
  define n where "n = nat ((t - t0) div i)"
  have i: "0 < i" by (simp add: i_def heartbeat_interval_def default_heartbeat_interval_def)
  have n: "int n = (t - t0) div i" using assms i by (simp add: n_def pos_imp_zdiv_nonneg_iff)
  have "last (t0 # map (\<lambda>k. t0 + int k * i) [1..<Suc n]) = t0 + int n * i"
    by (cases n) (simp_all add: last_map)
  moreover have "int n * i \<le> t - t0 \<and> t - t0 < int n * i + i"
    unfolding n using i div_mult_mod_eq [of "t - t0" i] pos_mod_bound [of i "t - t0"] pos_mod_sign [of i "t - t0"]
    by linarith
  ultimately show ?thesis by (simp add: heartbeat_times_def i_def [symmetric] n_def [symmetric])
qed

lemma heartbeats_in_time:
  assumes "heartbeat_interval cfg \<le> server_ttl cfg" and "t0 \<le> t"
  shows "in_memory_lookup cid t (fold (in_memory_heartbeat cid (sc_self_addr cfg) (server_ttl cfg)) (heartbeat_times cfg t0 t)
    (in_memory_announce cid (sc_self_addr cfg) (server_ttl cfg) t0 r)) = Some (sc_self_addr cfg)"
proof -
  let ?addr = "sc_self_addr cfg" and ?ttl = "server_ttl cfg" and ?ts = "heartbeat_times cfg t0 t"
  have "fold (in_memory_heartbeat cid ?addr ?ttl) us q = in_memory.heartbeats cid ?addr ?ttl us q" for us q
    by (induction us arbitrary: q) (simp_all add: in_memory_heartbeat_def)
  moreover have "t \<le> last (t0 # ?ts) + ?ttl" using heartbeat_times_last [OF assms(2), of cfg] assms(1) by linarith
  ultimately show ?thesis using in_memory.heartbeats_last [of "t0 # ?ts" t ?ttl cid ?addr r] by simp
qed

lemma default_heartbeats:
  "sc_ttl cfg \<le> 0 \<Longrightarrow> sc_heartbeat_interval cfg \<le> 0 \<Longrightarrow> heartbeat_interval cfg \<le> server_ttl cfg"
  by (simp add: heartbeat_interval_def server_ttl_def default_heartbeat_interval_def default_ttl_def)

definition new_server :: server where
  "new_server = \<lparr>sv_agents = Map.empty, sv_live = [], sv_beating = [], sv_records = [], sv_now = 0, sv_next = 0\<rparr>"

definition server_register :: "server_config \<Rightarrow> nat \<Rightarrow> string \<Rightarrow> server \<Rightarrow> server" where
  "server_register cfg c cid S =
    (let S1 = S\<lparr>sv_agents := (sv_agents S)(cid \<mapsto> c)\<rparr> in
     if \<not> sc_registry cfg then S1
     else S1\<lparr>sv_records := in_memory_announce cid (sc_self_addr cfg) (server_ttl cfg) (sv_now S) (sv_records S),
             sv_beating := (c, cid) # sv_beating S\<rparr>)"

definition server_unregister :: "server_config \<Rightarrow> string \<Rightarrow> server \<Rightarrow> server" where
  "server_unregister cfg cid S =
    (let S1 = S\<lparr>sv_agents := (sv_agents S)(cid := None),
                sv_beating := (case sv_agents S cid of
                    None \<Rightarrow> sv_beating S | Some c \<Rightarrow> filter (\<lambda>b. fst b \<noteq> c) (sv_beating S))\<rparr> in
     if \<not> sc_registry cfg then S1
     else S1\<lparr>sv_records := in_memory_forget cid (sv_records S)\<rparr>)"

definition server_heartbeat :: "server_config \<Rightarrow> string \<Rightarrow> server \<Rightarrow> server" where
  "server_heartbeat cfg cid S =
    S\<lparr>sv_records := in_memory_heartbeat cid (sc_self_addr cfg) (server_ttl cfg) (sv_now S) (sv_records S)\<rparr>"

text \<open>A session: its Hello registers a new connection, its end unregisters the cluster.\<close>

definition session_hello :: "server_config \<Rightarrow> string \<Rightarrow> server \<Rightarrow> server" where
  "session_hello cfg cid S =
    (let c = sv_next S in
     server_register cfg c cid (S\<lparr>sv_live := (c, cid) # sv_live S, sv_next := Suc c\<rparr>))"

definition session_end :: "server_config \<Rightarrow> nat \<times> string \<Rightarrow> server \<Rightarrow> server" where
  "session_end cfg s S = server_unregister cfg (snd s) (S\<lparr>sv_live := removeAll s (sv_live S)\<rparr>)"



text \<open>Reachable without overlap: no session starts for a cluster that has one in progress.\<close>

inductive server_orderly :: "server_config \<Rightarrow> server \<Rightarrow> bool" for cfg where
  start: "server_orderly cfg new_server"
| hello: "server_orderly cfg S \<Longrightarrow> cid \<noteq> [] \<Longrightarrow> cid \<notin> snd ` set (sv_live S) \<Longrightarrow>
    server_orderly cfg (session_hello cfg cid S)"
| ends: "server_orderly cfg S \<Longrightarrow> s \<in> set (sv_live S) \<Longrightarrow> server_orderly cfg (session_end cfg s S)"
| tick: "server_orderly cfg S \<Longrightarrow> b \<in> set (sv_beating S) \<Longrightarrow> server_orderly cfg (server_heartbeat cfg (snd b) S)"
| pass: "server_orderly cfg S \<Longrightarrow> 0 \<le> d \<Longrightarrow> server_orderly cfg (S\<lparr>sv_now := sv_now S + d\<rparr>)"

definition server_ok :: "server_config \<Rightarrow> server \<Rightarrow> bool" where
  "server_ok cfg S \<longleftrightarrow>
     (\<forall>c cid. sv_agents S cid = Some c \<longleftrightarrow> (c, cid) \<in> set (sv_live S))
   \<and> set (sv_beating S) = (if sc_registry cfg then set (sv_live S) else {})
   \<and> (\<forall>(c, cid) \<in> set (sv_live S). c < sv_next S)
   \<and> (\<forall>c cid cid'. (c, cid) \<in> set (sv_live S) \<longrightarrow> (c, cid') \<in> set (sv_live S) \<longrightarrow> cid = cid')"










lemma server_ok_hello:
  assumes "server_ok cfg S" and "cid \<notin> snd ` set (sv_live S)"
  shows "server_ok cfg (session_hello cfg cid S)"
proof -
  have fresh: "(sv_next S, d) \<notin> set (sv_live S)" for d
    using assms(1) by (auto simp: server_ok_def)
  have none: "(c, cid) \<notin> set (sv_live S)" for c using assms(2) by force
  show ?thesis
    using assms(1) fresh none
    by (auto simp: server_ok_def session_hello_def server_register_def Let_def less_Suc_eq)
qed

lemma server_ok_end:
  assumes ok: "server_ok cfg S" and "s \<in> set (sv_live S)"
  shows "server_ok cfg (session_end cfg s S)"
proof -
  obtain c cid where s: "s = (c, cid)" by (cases s)
  with assms have ag: "sv_agents S cid = Some c" by (simp add: server_ok_def)
  have same: "d = c" if "(d, cid) \<in> set (sv_live S)" for d
  proof -
    from ok that have "sv_agents S cid = Some d" by (simp add: server_ok_def)
    with ag show ?thesis by simp
  qed
  have cids: "e = cid" if "(c, e) \<in> set (sv_live S)" for e
    using ok that assms(2) s by (auto simp: server_ok_def)
  let ?S = "session_end cfg s S"
  have live: "set (sv_live ?S) = set (sv_live S) - {(c, cid)}"
    and agents: "sv_agents ?S = (sv_agents S)(cid := None)"
    and beat: "set (sv_beating ?S) = {b \<in> set (sv_beating S). fst b \<noteq> c}"
    and nxt: "sv_next ?S = sv_next S"
    using ag by (auto simp: session_end_def server_unregister_def Let_def s)
  have "{b \<in> set (sv_live S). fst b \<noteq> c} = set (sv_live S) - {(c, cid)}" by (auto dest: cids)
  moreover have "sv_agents ?S e = Some d \<longleftrightarrow> (d, e) \<in> set (sv_live ?S)" for d e
    using ok unfolding agents live by (auto simp: server_ok_def dest: same)
  moreover have "set (sv_beating ?S) = (if sc_registry cfg then set (sv_live ?S) else {})"
    using ok calculation(1) unfolding beat live by (simp add: server_ok_def)
  moreover have "\<forall>(d, e) \<in> set (sv_live ?S). d < sv_next ?S"
    using ok unfolding live nxt server_ok_def by (elim conjE) blast
  moreover have "\<forall>d e e'. (d, e) \<in> set (sv_live ?S) \<longrightarrow> (d, e') \<in> set (sv_live ?S) \<longrightarrow> e = e'"
    using ok unfolding live server_ok_def by (elim conjE) blast
  ultimately show ?thesis unfolding server_ok_def by (intro conjI allI) simp_all
qed

lemma server_orderly_ok: "server_orderly cfg S \<Longrightarrow> server_ok cfg S"
proof (induction rule: server_orderly.induct)
  case start
  then show ?case by (simp add: server_ok_def new_server_def)
next
  case (hello S cid)
  then show ?case by (blast intro: server_ok_hello)
next
  case (ends S s)
  then show ?case by (blast intro: server_ok_end)
next
  case (tick S b)
  then show ?case by (simp add: server_ok_def server_heartbeat_def)
next
  case (pass S d)
  then show ?case by (simp add: server_ok_def)
qed

section \<open>What a request reaches\<close>

text \<open>
  \<open>RoleResolver.Handler\<close>: not one of its clusters, a failure, or a handler. The links of the server: a
  connection is a number; \<open>nw_await\<close> and \<open>nw_forget\<close> are \<open>conn_await\<close>, with the number of the channel made,
  and \<open>conn_forget\<close> on its state; \<open>nw_wait\<close> is the \<open>select\<close> on a channel and the context; \<open>nw_rand\<close> reads
  eight bytes from \<open>crypto/rand\<close>; a peer is its address, and dialling it also keeps its connection.
\<close>

datatype 's role_answer = RoleNotMine | RoleFailed goerr | RoleHandler "'s handler"

record 's network =
  nw_role :: "(string \<Rightarrow> ('s, 's role_answer) io) option"
  nw_role_ids :: "'s \<Rightarrow> string list \<times> 's"
  nw_get :: "string \<Rightarrow> 's \<Rightarrow> nat option \<times> 's"
  nw_local_ids :: "'s \<Rightarrow> string list \<times> 's"
  nw_rand :: "'s \<Rightarrow> string \<times> 's"
  nw_await :: "nat \<Rightarrow> string \<Rightarrow> 's \<Rightarrow> nat \<times> 's"
  nw_forget :: "nat \<Rightarrow> string \<Rightarrow> 's \<Rightarrow> 's"
  nw_send :: "nat \<Rightarrow> hub_message \<Rightarrow> 's \<Rightarrow> goerr option \<times> 's"
  nw_wait :: "nat \<Rightarrow> nat \<Rightarrow> 's \<Rightarrow> (goerr + agent_message) \<times> 's"
  nw_registry :: "'s registry_ops option"
  nw_peer_known :: "string \<Rightarrow> 's \<Rightarrow> bool \<times> 's"
  nw_peer_creds :: bool
  nw_peer_dial :: "string \<Rightarrow> 's \<Rightarrow> goerr option \<times> 's"
  nw_peer_diagnose :: "string \<Rightarrow> diagnose_request \<Rightarrow> 's \<Rightarrow> (goerr + diagnose_response) \<times> 's"
  nw_peer_execute :: "string \<Rightarrow> execute_request \<Rightarrow> 's \<Rightarrow> (goerr + execute_response) \<times> 's"
  nw_peer_scan :: "string \<Rightarrow> scan_request \<Rightarrow> 's \<Rightarrow> (goerr + scan_response) \<times> 's"
  nw_peer_approve :: "string \<Rightarrow> approve_action_request \<Rightarrow> 's \<Rightarrow> (goerr + approve_action_response) \<times> 's"
  nw_peer_get_logs :: "string \<Rightarrow> get_logs_request \<Rightarrow> 's \<Rightarrow> (goerr + get_logs_response) \<times> 's"
  nw_peer_list_nodes :: "string \<Rightarrow> list_nodes_request \<Rightarrow> 's \<Rightarrow> (goerr + list_nodes_response) \<times> 's"

definition err_cluster_not_connected :: "string \<Rightarrow> goerr" where
  "err_cluster_not_connected cid = errorf (''cluster '' @ fmt_q cid @ '' n'' @ a_tilde @ ''o est'' @ a_acute
     @ '' conectado ao hub agora'')"

definition try_role :: "'s network \<Rightarrow> string \<Rightarrow> ('s, 's role_answer) io" where
  "try_role N cid = (case nw_role N of None \<Rightarrow> io_ret RoleNotMine | Some resolve \<Rightarrow> resolve cid)"

definition peer_conn :: "'s network \<Rightarrow> string \<Rightarrow> ('s, goerr + string) io" where
  "peer_conn N addr =
    io_bind (io_call (nw_peer_known N addr)) (\<lambda>known.
      if known then io_ret (Inr addr)
      else if \<not> nw_peer_creds N then
        io_ret (Inl (errorf ''no PeerCreds configured for replica-to-replica forwarding''))
      else io_bind (io_call (nw_peer_dial N addr)) (\<lambda>e.
        io_ret (case e of Some err \<Rightarrow> Inl err | None \<Rightarrow> Inr addr)))"

definition peer_for :: "'s network \<Rightarrow> string \<Rightarrow> ('s, goerr + string) io" where
  "peer_for N cid =
    (case nw_registry N of
       None \<Rightarrow> io_ret (Inl (err_cluster_not_connected cid))
     | Some R \<Rightarrow>
        io_wrap (io_call (rg_lookup R cid)) (''looking up cluster '' @ cid @ '' in registry: '') (\<lambda>found.
          case found of
            None \<Rightarrow> io_ret (Inl (err_cluster_not_connected cid))
          | Some addr \<Rightarrow>
              io_wrap (peer_conn N addr) (''dialing peer replica '' @ addr @ '' for cluster '' @ cid @ '': '')
                (\<lambda>a. io_ret (Inr a))))"

text \<open>The order every request follows: the role resolver, this replica's connections, a peer.\<close>

definition route :: "'s network \<Rightarrow> string \<Rightarrow> ('s handler \<Rightarrow> ('s, 'r) io) \<Rightarrow> (nat \<Rightarrow> ('s, goerr + 'r) io) \<Rightarrow>
    (string \<Rightarrow> ('s, goerr + 'r) io) \<Rightarrow> ('s, goerr + 'r) io" where
  "route N cid on_role on_local on_peer =
    io_bind (try_role N cid) (\<lambda>a.
      case a of
        RoleHandler h \<Rightarrow> io_bind (on_role h) (\<lambda>r. io_ret (Inr r))
      | RoleFailed e \<Rightarrow> io_ret (Inl e)
      | RoleNotMine \<Rightarrow>
          io_bind (io_call (nw_get N cid)) (\<lambda>c.
            case c of
              Some conn \<Rightarrow> on_local conn
            | None \<Rightarrow> io_try (peer_for N cid) (\<lambda>e. io_ret (Inl e)) on_peer))"

text \<open>
  One request over a connection: \<open>xxxLocal\<close>. The request id is awaited before the message is sent and
  forgotten on every way out (the \<open>defer\<close>). \<open>article\<close> and \<open>what\<close> name the request in the errors.
\<close>

definition request_id :: "'s network \<Rightarrow> ('s, string) io" where
  "request_id N = io_bind (io_call (nw_rand N)) (\<lambda>bytes. io_ret (hex_encode bytes))"

definition local_call :: "'s network \<Rightarrow> string \<Rightarrow> nat \<Rightarrow> string \<Rightarrow> string \<Rightarrow> (string \<Rightarrow> hub_message) \<Rightarrow>
    (agent_message \<Rightarrow> 'r option) \<Rightarrow> ('s, goerr + 'r) io" where
  "local_call N cid conn article what msg extract =
    io_bind (request_id N) (\<lambda>rid.
    io_bind (io_call (nw_await N conn rid)) (\<lambda>ch.
    io_bind (io_check (io_call (nw_send N conn (msg rid))) (''sending '' @ what @ '' request to '' @ cid @ '': '')
        (io_try (io_call (nw_wait N conn ch)) (\<lambda>e. io_ret (Inl e)) (\<lambda>reply.
          case extract reply of
            None \<Rightarrow> io_ret (Inl (errorf (''cluster '' @ cid @ '' sent an unexpected reply to '' @ article @ '' ''
              @ what @ '' request'')))
          | Some r \<Rightarrow> io_ret (Inr r)))) (\<lambda>res.
    io_bind (io_call (\<lambda>s. ((), nw_forget N conn rid s))) (\<lambda>_. io_ret res))))"

definition diagnose_local :: "'s network \<Rightarrow> string \<Rightarrow> nat \<Rightarrow> pb_signal \<Rightarrow> ('s, goerr + diagnose_response) io" where
  "diagnose_local N cid conn sig = local_call N cid conn ''a'' ''diagnose''
     (\<lambda>rid. HDiagnose \<lparr>dq_request_id = rid, dq_signal = sig, dq_cluster_id = []\<rparr>)
     (\<lambda>m. case m of ADiagnose r \<Rightarrow> Some r | _ \<Rightarrow> None)"

definition execute_local ::
  "'s network \<Rightarrow> string \<Rightarrow> nat \<Rightarrow> string \<Rightarrow> pb_signal \<Rightarrow> ('s, goerr + execute_response) io" where
  "execute_local N cid conn pid sig = local_call N cid conn ''an'' ''execute''
     (\<lambda>rid. HExecute \<lparr>eq_request_id = rid, eq_playbook_id = pid, eq_signal = sig, eq_cluster_id = []\<rparr>)
     (\<lambda>m. case m of AExecute r \<Rightarrow> Some r | _ \<Rightarrow> None)"

definition scan_local :: "'s network \<Rightarrow> string \<Rightarrow> nat \<Rightarrow> string \<Rightarrow> ('s, goerr + scan_response) io" where
  "scan_local N cid conn ns = local_call N cid conn ''a'' ''scan''
     (\<lambda>rid. HScan \<lparr>sq_request_id = rid, sq_namespace = ns, sq_cluster_id = []\<rparr>)
     (\<lambda>m. case m of AScan r \<Rightarrow> Some r | _ \<Rightarrow> None)"

definition approve_action_local :: "'s network \<Rightarrow> string \<Rightarrow> nat \<Rightarrow> string \<Rightarrow> pb_signal \<Rightarrow> string \<Rightarrow> meta \<Rightarrow>
    ('s, goerr + approve_action_response) io" where
  "approve_action_local N cid conn pid sig name m = local_call N cid conn ''an'' ''approve_action''
     (\<lambda>rid. HApprove \<lparr>aq_request_id = rid, aq_playbook_id = pid, aq_signal = sig, aq_action_name = name,
        aq_cluster_id = [], aq_meta = m\<rparr>)
     (\<lambda>m. case m of AApprove r \<Rightarrow> Some r | _ \<Rightarrow> None)"

definition get_logs_local :: "'s network \<Rightarrow> string \<Rightarrow> nat \<Rightarrow> string \<Rightarrow> string \<Rightarrow> string \<Rightarrow> int \<Rightarrow>
    ('s, goerr + get_logs_response) io" where
  "get_logs_local N cid conn ns name dep tail = local_call N cid conn ''a'' ''get_logs''
     (\<lambda>rid. HGetLogs \<lparr>gq_request_id = rid, gq_namespace = ns, gq_name = name, gq_deployment = dep,
        gq_tail_lines = tail, gq_cluster_id = []\<rparr>)
     (\<lambda>m. case m of AGetLogs r \<Rightarrow> Some r | _ \<Rightarrow> None)"

definition list_nodes_local :: "'s network \<Rightarrow> string \<Rightarrow> nat \<Rightarrow> ('s, goerr + list_nodes_response) io" where
  "list_nodes_local N cid conn = local_call N cid conn ''a'' ''list_nodes''
     (\<lambda>rid. HListNodes \<lparr>lq_request_id = rid, lq_cluster_id = []\<rparr>)
     (\<lambda>m. case m of AListNodes r \<Rightarrow> Some r | _ \<Rightarrow> None)"

section \<open>The hub's six requests\<close>

definition hub_diagnose :: "'s network \<Rightarrow> string \<Rightarrow> pb_signal \<Rightarrow> ('s, goerr + diagnose_response) io" where
  "hub_diagnose N cid sig = route N cid (\<lambda>h. diagnose_response_of h sig)
     (\<lambda>conn. diagnose_local N cid conn sig)
     (\<lambda>addr. io_bind (request_id N) (\<lambda>rid. io_call (nw_peer_diagnose N addr
        \<lparr>dq_request_id = rid, dq_signal = sig, dq_cluster_id = cid\<rparr>)))"

definition hub_execute :: "'s network \<Rightarrow> string \<Rightarrow> string \<Rightarrow> pb_signal \<Rightarrow> ('s, goerr + execute_response) io" where
  "hub_execute N cid pid sig = route N cid (\<lambda>h. execute_response_of h pid sig)
     (\<lambda>conn. execute_local N cid conn pid sig)
     (\<lambda>addr. io_bind (request_id N) (\<lambda>rid. io_call (nw_peer_execute N addr
        \<lparr>eq_request_id = rid, eq_playbook_id = pid, eq_signal = sig, eq_cluster_id = cid\<rparr>)))"

definition hub_scan :: "'s network \<Rightarrow> string \<Rightarrow> string \<Rightarrow> ('s, goerr + scan_response) io" where
  "hub_scan N cid ns = route N cid (\<lambda>h. scan_response_of h ns)
     (\<lambda>conn. scan_local N cid conn ns)
     (\<lambda>addr. io_bind (request_id N) (\<lambda>rid. io_call (nw_peer_scan N addr
        \<lparr>sq_request_id = rid, sq_namespace = ns, sq_cluster_id = cid\<rparr>)))"

definition hub_get_logs :: "'s network \<Rightarrow> string \<Rightarrow> string \<Rightarrow> string \<Rightarrow> string \<Rightarrow> int \<Rightarrow>
    ('s, goerr + get_logs_response) io" where
  "hub_get_logs N cid ns name dep tail = route N cid (\<lambda>h. get_logs_response_of h ns name dep tail)
     (\<lambda>conn. get_logs_local N cid conn ns name dep tail)
     (\<lambda>addr. io_bind (request_id N) (\<lambda>rid. io_call (nw_peer_get_logs N addr
        \<lparr>gq_request_id = rid, gq_namespace = ns, gq_name = name, gq_deployment = dep,
         gq_tail_lines = tail, gq_cluster_id = cid\<rparr>)))"

definition hub_approve_action :: "'s network \<Rightarrow> string \<Rightarrow> string \<Rightarrow> pb_signal \<Rightarrow> string \<Rightarrow> meta \<Rightarrow>
    ('s, goerr + approve_action_response) io" where
  "hub_approve_action N cid pid sig name m = route N cid (\<lambda>h. approve_action_response_of h pid sig name m)
     (\<lambda>conn. approve_action_local N cid conn pid sig name m)
     (\<lambda>addr. io_bind (request_id N) (\<lambda>rid. io_call (nw_peer_approve N addr
        \<lparr>aq_request_id = rid, aq_playbook_id = pid, aq_signal = sig, aq_action_name = name,
         aq_cluster_id = cid, aq_meta = m\<rparr>)))"

definition hub_list_nodes :: "'s network \<Rightarrow> string \<Rightarrow> ('s, goerr + list_nodes_response) io" where
  "hub_list_nodes N cid = route N cid list_nodes_response_of
     (\<lambda>conn. list_nodes_local N cid conn)
     (\<lambda>addr. io_bind (request_id N) (\<lambda>rid. io_call (nw_peer_list_nodes N addr
        \<lparr>lq_request_id = rid, lq_cluster_id = cid\<rparr>)))"

definition connected_clusters :: "'s network \<Rightarrow> ('s, goerr + string list) io" where
  "connected_clusters N =
    io_try (case nw_registry N of
        None \<Rightarrow> io_bind (io_call (nw_local_ids N)) (\<lambda>ids. io_ret (Inr ids))
      | Some R \<Rightarrow> io_call (rg_list R)) (\<lambda>e. io_ret (Inl e)) (\<lambda>ids.
    case nw_role N of
      None \<Rightarrow> io_ret (Inr ids)
    | Some _ \<Rightarrow> io_bind (io_call (nw_role_ids N)) (\<lambda>more. io_ret (Inr (ids @ more))))"

text \<open>The service for other replicas looks at this replica's connections only.\<close>

definition internal_route :: "'s network \<Rightarrow> string \<Rightarrow> (nat \<Rightarrow> ('s, goerr + 'r) io) \<Rightarrow> ('s, goerr + 'r) io" where
  "internal_route N cid on_local = io_bind (io_call (nw_get N cid)) (\<lambda>c.
     case c of None \<Rightarrow> io_ret (Inl (err_cluster_not_connected cid)) | Some conn \<Rightarrow> on_local conn)"

definition internal_diagnose :: "'s network \<Rightarrow> diagnose_request \<Rightarrow> ('s, goerr + diagnose_response) io" where
  "internal_diagnose N q = internal_route N (dq_cluster_id q)
     (\<lambda>conn. diagnose_local N (dq_cluster_id q) conn (dq_signal q))"

definition internal_execute :: "'s network \<Rightarrow> execute_request \<Rightarrow> ('s, goerr + execute_response) io" where
  "internal_execute N q = internal_route N (eq_cluster_id q)
     (\<lambda>conn. execute_local N (eq_cluster_id q) conn (eq_playbook_id q) (eq_signal q))"

definition internal_scan :: "'s network \<Rightarrow> scan_request \<Rightarrow> ('s, goerr + scan_response) io" where
  "internal_scan N q = internal_route N (sq_cluster_id q)
     (\<lambda>conn. scan_local N (sq_cluster_id q) conn (sq_namespace q))"

definition internal_approve_action ::
  "'s network \<Rightarrow> approve_action_request \<Rightarrow> ('s, goerr + approve_action_response) io" where
  "internal_approve_action N q = internal_route N (aq_cluster_id q)
     (\<lambda>conn. approve_action_local N (aq_cluster_id q) conn (aq_playbook_id q) (aq_signal q)
       (aq_action_name q) (aq_meta q))"

definition internal_get_logs :: "'s network \<Rightarrow> get_logs_request \<Rightarrow> ('s, goerr + get_logs_response) io" where
  "internal_get_logs N q = internal_route N (gq_cluster_id q)
     (\<lambda>conn. get_logs_local N (gq_cluster_id q) conn (gq_namespace q) (gq_name q) (gq_deployment q)
       (gq_tail_lines q))"

definition internal_list_nodes :: "'s network \<Rightarrow> list_nodes_request \<Rightarrow> ('s, goerr + list_nodes_response) io" where
  "internal_list_nodes N q = internal_route N (lq_cluster_id q)
     (\<lambda>conn. list_nodes_local N (lq_cluster_id q) conn)"

section \<open>The agent's side\<close>

text \<open>What the agent sends back for each message of the hub.\<close>

definition client_answer :: "'s handler \<Rightarrow> hub_message \<Rightarrow> ('s, agent_message) io" where
  "client_answer h msg =
    (case msg of
       HDiagnose q \<Rightarrow> io_bind (diagnose_response_of h (dq_signal q)) (\<lambda>r.
         io_ret (ADiagnose (r\<lparr>dr_request_id := dq_request_id q\<rparr>)))
     | HExecute q \<Rightarrow> io_bind (execute_response_of h (eq_playbook_id q) (eq_signal q)) (\<lambda>r.
         io_ret (AExecute (r\<lparr>er_request_id := eq_request_id q\<rparr>)))
     | HScan q \<Rightarrow> io_bind (scan_response_of h (sq_namespace q)) (\<lambda>r.
         io_ret (AScan (r\<lparr>sr_request_id := sq_request_id q\<rparr>)))
     | HApprove q \<Rightarrow> io_bind (approve_action_response_of h (aq_playbook_id q) (aq_signal q) (aq_action_name q)
           (aq_meta q)) (\<lambda>r.
         io_ret (AApprove (r\<lparr>aar_request_id := aq_request_id q\<rparr>)))
     | HGetLogs q \<Rightarrow> io_bind (get_logs_response_of h (gq_namespace q) (gq_name q) (gq_deployment q)
           (gq_tail_lines q)) (\<lambda>r.
         io_ret (AGetLogs (r\<lparr>glr_request_id := gq_request_id q\<rparr>)))
     | HListNodes q \<Rightarrow> io_bind (list_nodes_response_of h) (\<lambda>r.
         io_ret (AListNodes (r\<lparr>lnr_request_id := lq_request_id q\<rparr>))))"

definition hub_request_id :: "hub_message \<Rightarrow> string" where
  "hub_request_id msg = (case msg of
      HDiagnose q \<Rightarrow> dq_request_id q | HExecute q \<Rightarrow> eq_request_id q | HScan q \<Rightarrow> sq_request_id q
    | HApprove q \<Rightarrow> aq_request_id q | HGetLogs q \<Rightarrow> gq_request_id q | HListNodes q \<Rightarrow> lq_request_id q)"

text \<open>
  Reconnecting. One round of \<open>Run\<close>: the session lasted \<open>up\<close>; the result is the wait before the next
  attempt and the backoff kept for the one after. Seconds are nanoseconds, as \<open>time.Duration\<close> counts.
\<close>

definition max_backoff :: int where "max_backoff = 30 * 1000000000"
definition first_backoff :: int where "first_backoff = 1000000000"

definition backoff_round :: "int \<Rightarrow> int \<Rightarrow> int \<times> int" where
  "backoff_round up backoff =
    (let b = (if up > max_backoff then first_backoff else backoff);
         doubled = b * 2
     in (b, if doubled > max_backoff then max_backoff else doubled))"

text \<open>The waits of a sequence of rounds, from the length of each session.\<close>

fun backoff_waits :: "int \<Rightarrow> int list \<Rightarrow> int list" where
  "backoff_waits b [] = []"
| "backoff_waits b (up # ups) = (case backoff_round up b of (w, b') \<Rightarrow> w # backoff_waits b' ups)"

lemma backoff_waits_bounds:
  assumes "first_backoff \<le> b" and "b \<le> max_backoff" and "w \<in> set (backoff_waits b ups)"
  shows "first_backoff \<le> w \<and> w \<le> max_backoff"
  using assms
proof (induction b ups rule: backoff_waits.induct)
  case (1 b)
  then show ?case by simp
next
  case (2 b up ups)
  obtain w' b' where r: "backoff_round up b = (w', b')" by (cases "backoff_round up b")
  with "2.prems" have w': "first_backoff \<le> w' \<and> w' \<le> max_backoff" and b': "first_backoff \<le> b'" "b' \<le> max_backoff"
    by (auto simp: backoff_round_def Let_def first_backoff_def max_backoff_def split: if_splits)
  from "2.IH" [OF r [symmetric] b'] w' "2.prems"(3) show ?case
    by (auto simp: r)
qed

text \<open>\<open>n\<close> sessions that fail at once wait 1, 2, 4, ... seconds, up to 30.\<close>

lemma backoff_waits_double:
  assumes "b = min (2 ^ k * first_backoff) max_backoff"
  shows "backoff_waits b (replicate n 0) = map (\<lambda>i. min (2 ^ (k + i) * first_backoff) max_backoff) [0..<n]"
  using assms
proof (induction n arbitrary: b k)
  case 0
  then show ?case by simp
next
  case (Suc n)
  have round: "backoff_round 0 b = (b, min (2 ^ Suc k * first_backoff) max_backoff)"
    using Suc.prems by (auto simp: backoff_round_def Let_def max_backoff_def first_backoff_def min_def)
  have ih: "backoff_waits (min (2 ^ Suc k * first_backoff) max_backoff) (replicate n 0)
      = map (\<lambda>i. min (2 ^ (Suc k + i) * first_backoff) max_backoff) [0..<n]"
    by (rule Suc.IH) simp
  have "[0..<Suc n] = 0 # map Suc [0..<n]" by (simp add: upt_conv_Cons map_Suc_upt)
  then show ?case using round ih Suc.prems by (simp add: comp_def)
qed

section \<open>Lemmas of routing\<close>

lemma route_role:
  assumes "try_role N cid s = (Ret (RoleHandler h), s1)" and "on_role h s1 = (Ret r, s2)"
  shows "route N cid on_role on_local on_peer s = (Ret (Inr r), s2)"
  using assms by (simp add: route_def io_bind_def io_ret_apply)

lemma route_role_failed:
  assumes "try_role N cid s = (Ret (RoleFailed e), s1)"
  shows "route N cid on_role on_local on_peer s = (Ret (Inl e), s1)"
  using assms by (simp add: route_def io_bind_def io_ret_apply)

lemma route_local:
  assumes "try_role N cid s = (Ret RoleNotMine, s1)" and "nw_get N cid s1 = (Some c, s2)"
  shows "route N cid on_role on_local on_peer s = on_local c s2"
  using assms by (simp add: route_def io_bind_def io_call_def)

lemma route_nowhere:
  assumes "try_role N cid s = (Ret RoleNotMine, s1)" and "nw_get N cid s1 = (None, s2)"
    and "nw_registry N = None"
  shows "route N cid on_role on_local on_peer s = (Ret (Inl (err_cluster_not_connected cid)), s2)"
  using assms by (simp add: route_def peer_for_def io_try_def io_bind_def io_call_def io_ret_apply)

text \<open>A reply of the asked kind comes back as it is, with the request id sent.\<close>

lemma local_call_answer:
  assumes "request_id N s = (Ret rid, s1)" and "nw_await N conn rid s1 = (ch, s2)"
    and "nw_send N conn (msg rid) s2 = (None, s3)"
    and "nw_wait N conn ch s3 = (Inr reply, s4)" and "extract reply = Some r"
  shows "local_call N cid conn article what msg extract s = (Ret (Inr r), nw_forget N conn rid s4)"
  using assms by (simp add: local_call_def io_check_def io_try_def io_bind_def io_call_def io_ret_apply)

lemma client_answer_id:
  "client_answer h msg s = (Ret a, s') \<Longrightarrow> request_id_of a = Some (hub_request_id msg)"
  by (cases msg) (auto simp: client_answer_def io_bind_eq_Ret request_id_of_def hub_request_id_def)

section \<open>Properties\<close>

text \<open>Whatever the interleaving of requests, replies and waiters on a connection, a reply's channel is
  empty when the reply is delivered, so the receive loop never blocks on it, and a waiter only ever
  receives replies that carry the request id it waits for.\<close>

theorem replies_correlated:
  assumes "conn_reachable (c, owners)"
  shows "(\<forall>rid ch. cn_pending c rid = Some ch \<longrightarrow> cn_chans c ch = [] \<and> owners ! ch = rid)
    \<and> (\<forall>ch. \<forall>m \<in> set (cn_chans c ch). request_id_of m = Some (owners ! ch))"
  using conn_reachable_ok [OF assms] by (simp add: conn_ok_def)

theorem replies_correlated_witness:
  "\<exists>c. conn_reachable (c, [''r1'', ''r2'']) \<and> cn_pending c ''r2'' = Some 1
    \<and> cn_chans c 0 = [AListNodes \<lparr>lnr_request_id = ''r1'', lnr_nodes = [], lnr_error = []\<rparr>]
    \<and> cn_chans c 1 = []"
proof -
  let ?m = "AListNodes \<lparr>lnr_request_id = ''r1'', lnr_nodes = [], lnr_error = []\<rparr>"
  let ?c = "conn_dispatch ?m (conn_await ''r2'' (conn_await ''r1'' new_conn))"
  have "conn_reachable (conn_await ''r1'' new_conn, [] @ [''r1''])"
    by (rule conn_reachable.step [OF conn_reachable.start conn_step.await])
  then have "conn_reachable (conn_await ''r2'' (conn_await ''r1'' new_conn), ([] @ [''r1'']) @ [''r2''])"
    by (rule conn_reachable.step [OF _ conn_step.await])
  then have r: "conn_reachable (?c, ([] @ [''r1'']) @ [''r2''])"
    by (rule conn_reachable.step [OF _ conn_step.dispatch])
  have "cn_pending ?c ''r2'' = Some 1"
    "cn_chans ?c 0 = [?m]"
    by (simp_all add: conn_dispatch_def conn_await_def new_conn_def request_id_of_def)
  with replies_correlated [OF r] r show ?thesis by (intro exI [of _ ?c]) auto
qed

text \<open>A reply reaches the request that waits for it: whatever other requests do on the connection between
  the registration of the waiter and the arrival of the agent's reply, that reply, and nothing else, is then
  in the waiter's channel.\<close>

theorem reply_reaches_waiter:
  assumes "conn_reachable (c, owners)" and "list_all (of_others rid (cn_next c)) evs"
    and "request_id_of msg = Some rid"
  shows "cn_chans (conn_dispatch msg (fold conn_apply evs (conn_await rid c))) (cn_next c) = [msg]"
proof -
  have "conn_reachable (conn_await rid c, owners @ [rid])"
    by (rule conn_reachable.step [OF assms(1) conn_step.await])
  from still_waiting [OF this _ assms(2)] assms(3) show ?thesis
    by (simp add: conn_await_def conn_dispatch_def)
qed

theorem reply_reaches_waiter_witness:
  "cn_chans (conn_dispatch (AListNodes \<lparr>lnr_request_id = ''r1'', lnr_nodes = [], lnr_error = []\<rparr>)
     (fold conn_apply [Await ''r2'', Dispatch (AListNodes \<lparr>lnr_request_id = ''r2'', lnr_nodes = [], lnr_error = []\<rparr>), Receive 1]
       (conn_await ''r1'' new_conn))) 0 = [AListNodes \<lparr>lnr_request_id = ''r1'', lnr_nodes = [], lnr_error = []\<rparr>]"
  using reply_reaches_waiter [OF conn_reachable.start, of "''r1''"
      "[Await ''r2'', Dispatch (AListNodes \<lparr>lnr_request_id = ''r2'', lnr_nodes = [], lnr_error = []\<rparr>), Receive 1]"
      "AListNodes \<lparr>lnr_request_id = ''r1'', lnr_nodes = [], lnr_error = []\<rparr>"]
  by (simp add: new_conn_def request_id_of_def)

text \<open>As long as no session starts for a cluster that still has one, the connections the server holds
  are exactly those of the sessions in progress, and exactly their heartbeats run.\<close>

theorem orderly_sessions:
  assumes "server_orderly cfg S"
  shows "(\<forall>c cid. sv_agents S cid = Some c \<longleftrightarrow> (c, cid) \<in> set (sv_live S))
    \<and> set (sv_beating S) = (if sc_registry cfg then set (sv_live S) else {})"
  using server_orderly_ok [OF assms] by (simp add: server_ok_def)

definition demo_config :: server_config where
  "demo_config = \<lparr>sc_registry = True, sc_self_addr = ''10.0.0.1:7443'', sc_ttl = 30, sc_heartbeat_interval = 0\<rparr>"

theorem orderly_sessions_witness:
  "sv_agents (session_hello demo_config ''spoke-1'' new_server) ''spoke-1'' = Some 0"
proof -
  have "server_orderly demo_config (session_hello demo_config ''spoke-1'' new_server)"
    by (rule server_orderly.hello [OF server_orderly.start]) (simp_all add: new_server_def)
  from orderly_sessions [OF this] show ?thesis
    by (simp add: session_hello_def server_register_def demo_config_def new_server_def Let_def)
qed



definition demo_handler :: "unit handler" where
  "demo_handler = \<lparr>h_diagnose = (\<lambda>sig. io_ret (Inr \<lparr>dg_playbook_id = ''p'', dg_summary = ''s'', dg_proposed = [],
       dg_meta = Map.empty, dg_no_playbook = False\<rparr>)),
     h_execute = (\<lambda>pid sig. io_ret (Inr (True, []))), h_scan = (\<lambda>ns. io_ret (Inr [])),
     h_approve_action = (\<lambda>pid sig name m. io_ret (Inl (errorf ''no''))),
     h_get_logs = (\<lambda>ns name dep tail. io_ret (Inr [])), h_list_nodes = io_ret (Inr [])\<rparr>"

definition demo_reply :: agent_message where
  "demo_reply = ADiagnose \<lparr>dr_request_id = ''72'', dr_playbook_id = ''p'', dr_summary = ''s'', dr_proposed = [],
     dr_error = [], dr_no_playbook = False, dr_meta = Map.empty\<rparr>"

text \<open>A network whose cluster \<open>role\<close> is reached by a role, and whose only connection answers \<open>demo_reply\<close>.\<close>

definition demo_network :: "unit network" where
  "demo_network = \<lparr>nw_role = Some (\<lambda>cid. io_ret (if cid = ''role'' then RoleHandler demo_handler else RoleNotMine)),
     nw_role_ids = (\<lambda>s. ([], s)), nw_get = (\<lambda>cid s. (Some 0, s)), nw_local_ids = (\<lambda>s. ([], s)),
     nw_rand = (\<lambda>s. (''r'', s)), nw_await = (\<lambda>c rid s. (0, s)), nw_forget = (\<lambda>c rid s. s),
     nw_send = (\<lambda>c m s. (None, s)),
     nw_wait = (\<lambda>c rid s. (Inr demo_reply, s)), nw_registry = None, nw_peer_known = (\<lambda>a s. (False, s)),
     nw_peer_creds = False, nw_peer_dial = (\<lambda>a s. (None, s)),
     nw_peer_diagnose = (\<lambda>a q s. (Inl (errorf []), s)), nw_peer_execute = (\<lambda>a q s. (Inl (errorf []), s)),
     nw_peer_scan = (\<lambda>a q s. (Inl (errorf []), s)), nw_peer_approve = (\<lambda>a q s. (Inl (errorf []), s)),
     nw_peer_get_logs = (\<lambda>a q s. (Inl (errorf []), s)), nw_peer_list_nodes = (\<lambda>a q s. (Inl (errorf []), s))\<rparr>"

lemma demo_answer: "client_answer demo_handler (HDiagnose \<lparr>dq_request_id = ''72'', dq_signal = None, dq_cluster_id = []\<rparr>) ()
    = (Ret demo_reply, ())"
  by (simp add: client_answer_def diagnose_response_of_def respond_def demo_handler_def demo_reply_def io_try_def)

text \<open>A request for a cluster the role resolver serves is answered by that handler alone, with the
  response built from its answer; no connection and no peer is asked.\<close>

theorem hub_request_by_role:
  assumes "try_role N cid s = (Ret (RoleHandler h), s1)"
  shows "hub_diagnose N cid sig s = io_bind (diagnose_response_of h sig) (\<lambda>r. io_ret (Inr r)) s1
    \<and> hub_execute N cid pid sig s = io_bind (execute_response_of h pid sig) (\<lambda>r. io_ret (Inr r)) s1
    \<and> hub_scan N cid ns s = io_bind (scan_response_of h ns) (\<lambda>r. io_ret (Inr r)) s1
    \<and> hub_approve_action N cid pid sig name m s
        = io_bind (approve_action_response_of h pid sig name m) (\<lambda>r. io_ret (Inr r)) s1
    \<and> hub_get_logs N cid ns name dep nl s = io_bind (get_logs_response_of h ns name dep nl) (\<lambda>r. io_ret (Inr r)) s1
    \<and> hub_list_nodes N cid s = io_bind (list_nodes_response_of h) (\<lambda>r. io_ret (Inr r)) s1"
  by (simp add: hub_diagnose_def hub_execute_def hub_scan_def hub_approve_action_def hub_get_logs_def
      hub_list_nodes_def route_def io_bind_Ret [where m = "try_role N cid", OF assms])

theorem hub_request_by_role_witness:
  "hub_execute demo_network ''role'' ''p'' None () =
     (Ret (Inr \<lparr>er_request_id = [], er_resolved = True, er_attempts = [], er_error = []\<rparr>), ())"
proof -
  have "try_role demo_network ''role'' () = (Ret (RoleHandler demo_handler), ())"
    by (simp add: try_role_def demo_network_def)
  from hub_request_by_role [OF this] have "hub_execute demo_network ''role'' ''p'' None ()
      = io_bind (execute_response_of demo_handler ''p'' None) (\<lambda>r. io_ret (Inr r)) ()" by blast
  then show ?thesis by (simp add: execute_response_of_def respond_def demo_handler_def io_try_def io_bind_def io_ret_apply)
qed

text \<open>A request sent over a connection to an agent that answers with \<open>client_answer\<close> comes back as the
  agent's response to exactly that request, and the request is no longer pending on the connection.\<close>

theorem local_diagnose_roundtrip:
  assumes "request_id N s = (Ret rid, s1)" and "nw_await N conn rid s1 = (ch, s2)"
    and "nw_send N conn (HDiagnose \<lparr>dq_request_id = rid, dq_signal = sig, dq_cluster_id = []\<rparr>) s2 = (None, s3)"
    and "client_answer h (HDiagnose \<lparr>dq_request_id = rid, dq_signal = sig, dq_cluster_id = []\<rparr>) s3 = (Ret reply, s4)"
    and "nw_wait N conn ch s3 = (Inr reply, s4)"
  shows "\<exists>r. diagnose_response_of h sig s3 = (Ret r, s4)
    \<and> diagnose_local N cid conn sig s = (Ret (Inr (r\<lparr>dr_request_id := rid\<rparr>)), nw_forget N conn rid s4)"
proof -
  from assms(4) obtain r where r: "diagnose_response_of h sig s3 = (Ret r, s4)"
    and reply: "reply = ADiagnose (r\<lparr>dr_request_id := rid\<rparr>)"
    by (auto simp: client_answer_def io_bind_eq_Ret)
  have "diagnose_local N cid conn sig s = (Ret (Inr (r\<lparr>dr_request_id := rid\<rparr>)), nw_forget N conn rid s4)"
    using assms(1,2,3,5) by (simp add: diagnose_local_def local_call_answer [where reply = reply] reply)
  with r show ?thesis by blast
qed

theorem local_diagnose_roundtrip_witness:
  "\<exists>r. diagnose_local demo_network ''spoke'' 0 None () = (Ret (Inr (r\<lparr>dr_request_id := ''72''\<rparr>)), ())"
proof -
  have "request_id demo_network () = (Ret ''72'', ())"
    by (simp add: request_id_def demo_network_def io_bind_def io_call_def io_ret_apply hex_encode_def hex_byte_def hex_char_def char_of_def Let_def bit_iff_odd)
  from local_diagnose_roundtrip [OF this, of 0 0 "()" None "()" demo_handler demo_reply "()" "''spoke''"] demo_answer
  show ?thesis by (auto simp: demo_network_def)
qed

text \<open>The agent's reply to any message of the hub carries that message's request id.\<close>

theorem client_answers_request_id:
  assumes "client_answer h msg s = (Ret a, s')"
  shows "request_id_of a = Some (hub_request_id msg)"
  using assms by (rule client_answer_id)

theorem client_answers_request_id_witness:
  "request_id_of demo_reply = Some ''72''"
  using client_answers_request_id [OF demo_answer] by (simp add: hub_request_id_def)

text \<open>The waits between reconnections lie between one and thirty seconds, whatever the lengths of the
  sessions, and sessions that fail at once wait 1, 2, 4, ... seconds up to thirty.\<close>

theorem reconnect_backoff:
  "(\<forall>w. w \<in> set (backoff_waits first_backoff ups) \<longrightarrow> first_backoff \<le> w \<and> w \<le> max_backoff)
    \<and> backoff_waits first_backoff (replicate n 0) = map (\<lambda>i. min (2 ^ i * first_backoff) max_backoff) [0..<n]"
  using backoff_waits_bounds [of first_backoff _ ups] backoff_waits_double [of first_backoff 0 n]
  by (auto simp: first_backoff_def max_backoff_def)

theorem reconnect_backoff_witness:
  "5000000000 \<le> max_backoff \<and> backoff_waits first_backoff [0, 0, 0] = [1000000000, 2000000000, 4000000000]"
  using reconnect_backoff [of "[0]" 3] by (simp add: numeral_3_eq_3 first_backoff_def max_backoff_def)

end
