(* ===== verification/Sha256.thy ===== *)
theory Sha256 imports Prelude "HOL-Library.Word" begin

text \<open>
  SHA-256 of the standard library (crypto/sha256), over byte strings: what internal/agentauth keeps of
  a token is this digest in hexadecimal. The constants are computed from what defines them, the
  fractional parts of the square and cube roots of the first primes.
\<close>

unbundle bit_operations_syntax

section \<open>Constants\<close>

text \<open>The first 64 primes, and the integer part of a root that has at most 36 bits.\<close>

definition small_primes :: "nat list" where
  "small_primes = filter (\<lambda>n. list_all (\<lambda>d. n mod d \<noteq> 0) [2..<n]) [2..<312]"

definition int_root :: "nat \<Rightarrow> nat \<Rightarrow> nat" where
  "int_root k n = fold (\<lambda>i r. if (r + 2 ^ i) ^ k \<le> n then r + 2 ^ i else r) (rev [0..<36]) 0"

text \<open>Reading the root of \<open>p * 2 ^ (32 * k)\<close> as 32 bits drops the integer part of the root of \<open>p\<close>.\<close>

definition root_fraction :: "nat \<Rightarrow> nat \<Rightarrow> 32 word" where
  "root_fraction k p = of_nat (int_root k (p * 2 ^ (32 * k)))"

definition initial_digest :: "32 word list" where
  "initial_digest = map (root_fraction 2) (take 8 small_primes)"

definition round_constants :: "32 word list" where
  "round_constants = map (root_fraction 3) small_primes"

section \<open>Messages\<close>

text \<open>The number \<open>n\<close> in \<open>k\<close> bytes, most significant first, and the word of four such bytes.\<close>

definition be_bytes :: "nat \<Rightarrow> nat \<Rightarrow> string" where
  "be_bytes k n = map (\<lambda>i. char_of (n div 256 ^ i mod 256)) (rev [0..<k])"

definition be_word :: "string \<Rightarrow> 32 word" where
  "be_word bs = of_nat (foldl (\<lambda>n b. 256 * n + of_char b) 0 bs)"

definition pad_message :: "string \<Rightarrow> string" where
  "pad_message m = m @ CHR 0x80 # replicate ((119 - length m mod 64) mod 64) (CHR 0x00) @ be_bytes 8 (8 * length m)"

text \<open>A list in pieces of \<open>Suc k\<close> elements.\<close>

function pieces :: "nat \<Rightarrow> 'a list \<Rightarrow> 'a list list" where
  "pieces k [] = []"
| "pieces k (x # xs) = (x # take k xs) # pieces k (drop k xs)"
  by pat_completeness auto
termination by (relation "measure (length \<circ> snd)") auto

section \<open>One block\<close>

definition mix :: "nat \<Rightarrow> nat \<Rightarrow> 32 word \<Rightarrow> 32 word \<Rightarrow> 32 word" where
  "mix i j rest w = word_rotr i w XOR word_rotr j w XOR rest"

definition extend_schedule :: "nat \<Rightarrow> 32 word list \<Rightarrow> 32 word list" where
  "extend_schedule t ws =
    (let x = ws ! (t - 15); y = ws ! (t - 2) in
     ws @ [ws ! (t - 16) + mix 7 18 (drop_bit 3 x) x + ws ! (t - 7) + mix 17 19 (drop_bit 10 y) y])"

definition message_schedule :: "string \<Rightarrow> 32 word list" where
  "message_schedule block = fold extend_schedule [16..<64] (map be_word (pieces 3 block))"

fun compress_step :: "32 word \<times> 32 word \<Rightarrow> 32 word list \<Rightarrow> 32 word list" where
  "compress_step (k, w) [a, b, c, d, e, f, g, h] =
    (let chosen = (e AND f) XOR (NOT e AND g);
         majority = (a AND b) XOR (a AND c) XOR (b AND c);
         t1 = h + mix 6 11 (word_rotr 25 e) e + chosen + k + w;
         t2 = mix 2 13 (word_rotr 22 a) a + majority in
     [t1 + t2, a, b, c, d + t1, e, f, g])"
| "compress_step _ st = st"

definition compress_block :: "string \<Rightarrow> 32 word list \<Rightarrow> 32 word list" where
  "compress_block block st =
    map2 (+) st (fold compress_step (zip round_constants (message_schedule block)) st)"

definition sha256 :: "string \<Rightarrow> string" where
  "sha256 m = concat (map (\<lambda>w. be_bytes 4 (unat w)) (fold compress_block (pieces 63 (pad_message m)) initial_digest))"

section \<open>Lemmas\<close>

text \<open>A padded message is made of whole blocks, of which the last holds its length in bits.\<close>

lemma be_bytes_length [simp]: "length (be_bytes k n) = k"
  by (simp add: be_bytes_def)

lemma pad_message_blocks: "length (pad_message m) mod 64 = 0"
proof -
  have "(r + 9 + (119 - r) mod 64) mod 64 = 0" if "r < 64" for r :: nat
  proof (cases "r < 56")
    case True
    then have "(119 - r) mod 64 = 55 - r" by (simp add: mod_if)
    with True show ?thesis by simp
  next
    case False
    with that have "(119 - r) mod 64 = 119 - r" by simp
    with False that show ?thesis by simp
  qed
  from this [of "length m mod 64"] show ?thesis
    by (simp add: pad_message_def mod_add_left_eq add.assoc)
qed

end
