(* ===== verification/AgentAuth.thy ===== *)
theory AgentAuth imports Sha256 begin

text \<open>
  internal/agentauth: the AWS accounts and groups a bearer token stands for. The registry keeps the SHA-256
  of the tokens (theory Sha256) instead of them; properties that depend on it say which tokens it must tell
  apart. A \<open>map[string]bool\<close> is a partial map, an absent key reads as false.
\<close>

record scope =
  ss_agent_name :: string
  ss_accounts :: "string \<rightharpoonup> bool"
  ss_groups :: "string list"

text \<open>A nil scope allows every account.\<close>

definition allows_account :: "scope option \<Rightarrow> string \<Rightarrow> bool" where
  "allows_account s account = (case s of None \<Rightarrow> True | Some sc \<Rightarrow> ss_accounts sc account = Some True)"

definition deny_all_scope :: scope where
  "deny_all_scope = \<lparr>ss_agent_name = [], ss_accounts = Map.empty, ss_groups = []\<rparr>"

record agent_config =
  ac_name :: string
  ac_token :: string
  ac_accounts :: "string list"
  ac_groups :: "string list"

definition agent_complete :: "agent_config \<Rightarrow> bool" where
  "agent_complete a = (\<not> (ac_name a = [] \<or> ac_token a = [] \<or> ac_accounts a = []))"

text \<open>\<open>%+v\<close> of an entry without its token and groups: the error message never shows the token.\<close>

definition fmt_agent :: "agent_config \<Rightarrow> string" where
  "fmt_agent a = ''{Name:'' @ ac_name a @ '' Token: AllowedAccounts:['' @ str_join '' '' (ac_accounts a) @ ''] ADGroups:[]}''"

fun first_bad_agent :: "nat \<Rightarrow> agent_config list \<Rightarrow> (nat \<times> agent_config) option" where
  "first_bad_agent i [] = None"
| "first_bad_agent i (a # as) = (if agent_complete a then first_bad_agent (Suc i) as else Some (i, a))"

definition load_agents :: "goerr + agent_config list \<Rightarrow> goerr + agent_config list" where
  "load_agents decoded =
    (case decoded of
       Inl e \<Rightarrow> Inl (wrapf ''decoding agent scopes config: '' e)
     | Inr as \<Rightarrow>
        (case first_bad_agent 0 as of
           Some (i, a) \<Rightarrow> Inl (errorf (''agent scopes config entry '' @ fmt_d (int i)
             @ '' is missing a required field (name/token/allowed_accounts): '' @ fmt_agent a))
         | None \<Rightarrow> Inr as))"

definition scope_of :: "agent_config \<Rightarrow> scope" where
  "scope_of a = \<lparr>ss_agent_name = ac_name a, ss_accounts = map_build (map (\<lambda>x. (x, True)) (ac_accounts a)),
     ss_groups = ac_groups a\<rparr>"

type_synonym token_registry = "string \<rightharpoonup> scope"

definition hash_token :: "string \<Rightarrow> string" where
  "hash_token token = hex_encode (sha256 token)"

definition new_token_registry :: "agent_config list \<Rightarrow> token_registry" where
  "new_token_registry as = map_build (map (\<lambda>a. (hash_token (ac_token a), scope_of a)) as)"

definition resolve_token :: "token_registry option \<Rightarrow> string \<Rightarrow> scope option" where
  "resolve_token reg token =
    (case reg of None \<Rightarrow> None | Some r \<Rightarrow> if token = [] then None else r (hash_token token))"

text \<open>
  \<open>distinguished as token\<close>: a token that is presented has the digest of no configured token but itself.
  Of a caller that presents none nothing is asked.
\<close>

definition distinguished :: "agent_config list \<Rightarrow> string \<Rightarrow> bool" where
  "distinguished as token \<longleftrightarrow>
     token = [] \<or> (\<forall>a \<in> set as. sha256 (ac_token a) = sha256 token \<longrightarrow> ac_token a = token)"

text \<open>\<open>auth\<close> is the value of the Authorization header, empty when there is none.\<close>

definition token_from_header :: "string \<Rightarrow> string" where
  "token_from_header auth = (if \<not> has_prefix ''Bearer '' auth then [] else trim_prefix auth ''Bearer '')"

section \<open>Lemmas\<close>

lemma token_from_bearer: "token_from_header (''Bearer '' @ t) = t"
  by (simp add: token_from_header_def trim_prefix_def)

lemma scope_accounts: "allows_account (Some (scope_of a)) account \<longleftrightarrow> account \<in> set (ac_accounts a)"
proof -
  have "map_of (rev (map (\<lambda>x. (x, True)) xs)) account = (if account \<in> set xs then Some True else None)" for xs :: "string list"
    by (induction xs) (auto simp: map_add_def)
  then show ?thesis by (simp add: allows_account_def scope_of_def map_build_map_of)
qed

lemma allows_nil [simp]: "allows_account None account"
  by (simp add: allows_account_def)

lemma deny_all_denies [simp]: "\<not> allows_account (Some deny_all_scope) account"
  by (simp add: allows_account_def deny_all_scope_def)

lemma hash_token_eq: "hash_token t = hash_token u \<longleftrightarrow> sha256 t = sha256 u"
  by (auto simp: hash_token_def dest: hex_encode_inj)

lemma resolve_found:
  assumes "resolve_token (Some (new_token_registry as)) token = Some sc" and "distinguished as token"
  shows "token \<noteq> [] \<and> (\<exists>a \<in> set as. ac_token a = token \<and> sc = scope_of a)"
proof -
  from assms(1) have t: "token \<noteq> []" and r: "new_token_registry as (hash_token token) = Some sc"
    by (auto simp: resolve_token_def split: if_splits)
  from r have "(hash_token token, sc) \<in> set (map (\<lambda>a. (hash_token (ac_token a), scope_of a)) as)"
    by (auto simp: new_token_registry_def map_build_map_of dest!: map_of_SomeD)
  then obtain a where "a \<in> set as" "hash_token token = hash_token (ac_token a)" "sc = scope_of a" by auto
  with assms(2) t show ?thesis by (metis distinguished_def hash_token_eq)
qed

lemma resolve_unknown:
  assumes "distinguished as token" and "token \<notin> ac_token ` set as"
  shows "resolve_token (Some (new_token_registry as)) token = None"
proof (rule ccontr)
  assume "resolve_token (Some (new_token_registry as)) token \<noteq> None"
  then obtain sc where "resolve_token (Some (new_token_registry as)) token = Some sc" by blast
  from resolve_found [OF this assms(1)] assms(2) show False by auto
qed

end
