(* ===== verification/Inventory.thy ===== *)
theory Inventory imports Prelude begin

text \<open>
  internal/inventory: which AWS account and region a cluster is in. \<open>inventory_lookup\<close> is the YAML-backed
  inventory (inventory.go), \<open>http_lookup\<close> the client of the company's API (httpclient.go) over the calls
  it makes to net/http and encoding/json. The locale \<open>cluster_lookup\<close> is what the callers rely on: a
  lookup always answers, and the record it finds is the asked cluster's. It is interpreted on both.
\<close>

section \<open>The data\<close>

record cluster_info =
  ci_cluster_id :: string
  ci_account :: string
  ci_region :: string
  ci_eks_name :: string

definition no_info :: cluster_info where
  "no_info = \<lparr>ci_cluster_id = [], ci_account = [], ci_region = [], ci_eks_name = []\<rparr>"

text \<open>\<open>%+v\<close> of an entry.\<close>

definition fmt_info :: "cluster_info \<Rightarrow> string" where
  "fmt_info c = ''{ClusterID:'' @ ci_cluster_id c @ '' AWSAccountID:'' @ ci_account c @ '' Region:'' @ ci_region c
     @ '' EKSClusterName:'' @ ci_eks_name c @ ''}''"

definition info_complete :: "cluster_info \<Rightarrow> bool" where
  "info_complete c = (\<not> (ci_cluster_id c = [] \<or> ci_account c = [] \<or> ci_region c = []))"

text \<open>The loop over the entries: the first incomplete one is reported with its index.\<close>

fun first_incomplete :: "nat \<Rightarrow> cluster_info list \<Rightarrow> (nat \<times> cluster_info) option" where
  "first_incomplete i [] = None"
| "first_incomplete i (c # cs) = (if info_complete c then first_incomplete (Suc i) cs else Some (i, c))"

text \<open>\<open>LoadConfig\<close> on what the YAML decoder returned.\<close>

definition load_inventory :: "goerr + cluster_info list \<Rightarrow> goerr + cluster_info list" where
  "load_inventory decoded =
    (case decoded of
       Inl e \<Rightarrow> Inl (wrapf ''decoding cluster inventory config: '' e)
     | Inr cs \<Rightarrow>
        (case first_incomplete 0 cs of
           Some (i, c) \<Rightarrow> Inl (errorf (''cluster inventory entry '' @ fmt_d (int i)
             @ '' is missing a required field (cluster_id/aws_account_id/region): '' @ fmt_info c))
         | None \<Rightarrow> Inr cs))"

definition new_inventory :: "cluster_info list \<Rightarrow> (string \<rightharpoonup> cluster_info)" where
  "new_inventory cs = map_build (map (\<lambda>c. (ci_cluster_id c, c)) cs)"

text \<open>A nil inventory knows no cluster.\<close>

definition inventory_lookup :: "(string \<rightharpoonup> cluster_info) option \<Rightarrow> string \<Rightarrow> ('s, goerr + cluster_info option) io" where
  "inventory_lookup iv cid = (case iv of None \<Rightarrow> io_ret (Inr None) | Some m \<Rightarrow> io_ret (Inr (m cid)))"

section \<open>The HTTP client\<close>

text \<open>\<open>strings.TrimRight(s, "/")\<close> and \<open>url.PathEscape\<close>.\<close>

definition trim_slashes :: "string \<Rightarrow> string" where
  "trim_slashes s = rev (dropWhile (\<lambda>c. c = CHR ''/'') (rev s))"

definition path_safe :: "char \<Rightarrow> bool" where
  "path_safe c =
    (let n = (of_char c :: nat) in
     48 \<le> n \<and> n \<le> 57 \<or> 65 \<le> n \<and> n \<le> 90 \<or> 97 \<le> n \<and> n \<le> 122
     \<or> c \<in> {CHR ''-'', CHR ''_'', CHR ''.'', CHR ''~'', CHR ''$'', CHR ''&'', CHR ''+'', CHR ''='', CHR '':'', CHR 0x40})"

definition upper_hex :: "nat \<Rightarrow> char" where
  "upper_hex n = (if n < 10 then char_of (48 + n) else char_of (55 + n))"

definition escape_char :: "char \<Rightarrow> string" where
  "escape_char c = (if path_safe c then [c]
     else [CHR ''%'', upper_hex (of_char c div 16), upper_hex (of_char c mod 16)])"

definition path_escape :: "string \<Rightarrow> string" where
  "path_escape s = concat (map escape_char s)"

record http_info =
  hi_account :: string
  hi_region :: string
  hi_eks_name :: string

record http_response =
  hr_status_code :: int
  hr_status :: string
  hr_body :: string

text \<open>What the client uses of its environment: building a request fails or not, the exchange, and decoding
  the body as JSON.\<close>

record 's http_client =
  hc_base_url :: string
  hc_new_request :: "string \<Rightarrow> goerr option"
  hc_do :: "string \<Rightarrow> 's \<Rightarrow> (goerr + http_response) \<times> 's"
  hc_decode :: "string \<Rightarrow> goerr + http_info"

definition http_url :: "string \<Rightarrow> string \<Rightarrow> string" where
  "http_url base cid = trim_slashes base @ ''/clusters/'' @ path_escape cid"

definition http_lookup :: "'s http_client \<Rightarrow> string \<Rightarrow> ('s, goerr + cluster_info option) io" where
  "http_lookup C cid =
    (let u = http_url (hc_base_url C) cid in
     case hc_new_request C u of
       Some e \<Rightarrow> io_ret (Inl (wrapf (''building inventory API request for '' @ cid @ '': '') e))
     | None \<Rightarrow>
        io_wrap (io_call (hc_do C u)) (''calling inventory API for '' @ cid @ '': '') (\<lambda>resp.
          if hr_status_code resp = 404 then io_ret (Inr None)
          else if hr_status_code resp \<noteq> 200 then
            io_ret (Inl (errorf (''inventory API returned '' @ hr_status resp @ '' for cluster '' @ cid)))
          else case hc_decode C (hr_body resp) of
            Inl e \<Rightarrow> io_ret (Inl (wrapf (''decoding inventory API response for '' @ cid @ '': '') e))
          | Inr b \<Rightarrow> io_ret (Inr (Some \<lparr>ci_cluster_id = cid, ci_account = hi_account b, ci_region = hi_region b,
              ci_eks_name = hi_eks_name b\<rparr>))))"

section \<open>The contract\<close>

locale cluster_lookup =
  fixes lookup :: "string \<Rightarrow> ('s, goerr + cluster_info option) io"
  assumes answers: "returns (lookup cid)"
    and found_is_asked: "lookup cid s = (Ret (Inr (Some info)), s') \<Longrightarrow> ci_cluster_id info = cid"
begin

lemma lookup_cases:
  obtains (failed) e s' where "lookup cid s = (Ret (Inl e), s')"
    | (unknown) s' where "lookup cid s = (Ret (Inr None), s')"
    | (found) info s' where "lookup cid s = (Ret (Inr (Some info)), s')" and "ci_cluster_id info = cid"
proof -
  obtain r s' where r: "lookup cid s = (Ret r, s')" using answers by (rule returnsE)
  show thesis
  proof (cases r)
    case (Inl e)
    with r failed show thesis by simp
  next
    case (Inr o')
    show thesis
    proof (cases o')
      case None
      with r Inr unknown show thesis by simp
    next
      case (Some info)
      with r Inr found found_is_asked [of cid s info s'] show thesis by simp
    qed
  qed
qed

end

lemma first_incomplete_None: "first_incomplete i cs = None \<longleftrightarrow> (\<forall>c \<in> set cs. info_complete c)"
  by (induction cs arbitrary: i) auto

lemma first_incomplete_Some:
  "first_incomplete i cs = Some (j, c) \<Longrightarrow> i \<le> j \<and> j - i < length cs \<and> cs ! (j - i) = c \<and> \<not> info_complete c
    \<and> (\<forall>k < j - i. info_complete (cs ! k))"
proof (induction cs arbitrary: i)
  case Nil
  then show ?case by simp
next
  case (Cons d cs)
  show ?case
  proof (cases "info_complete d")
    case True
    with Cons.prems have "first_incomplete (Suc i) cs = Some (j, c)" by simp
    from Cons.IH [OF this] have "Suc i \<le> j" "j - Suc i < length cs" "cs ! (j - Suc i) = c" "\<not> info_complete c"
      "\<forall>k < j - Suc i. info_complete (cs ! k)" by simp_all
    moreover then have "j - i = Suc (j - Suc i)" by simp
    ultimately show ?thesis using True by (auto simp: less_Suc_eq_0_disj)
  next
    case False
    with Cons.prems show ?thesis by simp
  qed
qed

lemma new_inventory_id: "new_inventory cs cid = Some info \<Longrightarrow> ci_cluster_id info = cid \<and> info \<in> set cs"
  by (auto simp: new_inventory_def map_build_map_of dest!: map_of_SomeD)

text \<open>\<open>cs\<close> are the loaded entries, or there is no inventory.\<close>

interpretation yaml: cluster_lookup "inventory_lookup (map_option new_inventory cs)" for cs
proof unfold_locales
  show "returns (inventory_lookup (map_option new_inventory cs) cid)" for cid
    by (simp add: inventory_lookup_def split: option.splits)
  show "ci_cluster_id info = cid"
    if "inventory_lookup (map_option new_inventory cs) cid s = (Ret (Inr (Some info)), s')" for cid s info s'
    using that new_inventory_id by (cases cs) (auto simp: inventory_lookup_def)
qed

lemma http_lookup_Some:
  assumes "http_lookup C cid s = (Ret (Inr (Some info)), s')"
  shows "\<exists>resp b. hc_do C (http_url (hc_base_url C) cid) s = (Inr resp, s') \<and> hr_status_code resp = 200
    \<and> hc_decode C (hr_body resp) = Inr b
    \<and> info = \<lparr>ci_cluster_id = cid, ci_account = hi_account b, ci_region = hi_region b, ci_eks_name = hi_eks_name b\<rparr>"
  using assms
  by (auto simp: http_lookup_def Let_def io_wrap_Inr io_call_def split: option.splits prod.splits if_splits sum.splits)

interpretation http: cluster_lookup "http_lookup C" for C
proof unfold_locales
  show "returns (http_lookup C cid)" for cid
    unfolding http_lookup_def Let_def
    by (intro returns_case_option total_intros returns_if)
  show "ci_cluster_id info = cid" if "http_lookup C cid s = (Ret (Inr (Some info)), s')" for cid s info s'
    using http_lookup_Some [OF that] by auto
qed

section \<open>Escaping\<close>

text \<open>An escaped cluster id stays one path segment: no slash, no query, no fragment; and it can be read
back, so no two clusters share a URL.\<close>

lemma upper_hex_code: "n < 16 \<Longrightarrow> (of_char (upper_hex n) :: nat) = (if n < 10 then 48 + n else 55 + n)"
  by (simp add: upper_hex_def)

lemma upper_hex_safe: "n < 16 \<Longrightarrow> path_safe (upper_hex n)"
  unfolding path_safe_def Let_def upper_hex_code by (simp add: upper_hex_code)

lemma path_escape_safe: "c \<in> set (path_escape s) \<Longrightarrow> path_safe c \<or> c = CHR ''%''"
proof (induction s)
  case Nil
  then show ?case by (simp add: path_escape_def)
next
  case (Cons d s)
  have "(of_char d :: nat) div 16 < 16" "(of_char d :: nat) mod 16 < 16"
    using nat_of_char_less_256 [of d] by (simp_all add: less_mult_imp_div_less)
  then have "c \<in> set (escape_char d) \<Longrightarrow> path_safe c \<or> c = CHR ''%''"
    by (auto simp: escape_char_def upper_hex_safe split: if_splits)
  with Cons show ?case by (auto simp: path_escape_def)
qed

definition hex_value :: "char \<Rightarrow> nat" where
  "hex_value c = (let n = of_char c in if n < 58 then n - 48 else n - 55)"

fun path_unescape :: "string \<Rightarrow> string" where
  "path_unescape (c # h # l # s) =
    (if c = CHR ''%'' then char_of (16 * hex_value h + hex_value l) # path_unescape s
     else c # path_unescape (h # l # s))"
| "path_unescape s = s"

lemma hex_value_upper: "n < 16 \<Longrightarrow> hex_value (upper_hex n) = n"
  by (simp add: hex_value_def upper_hex_code)

lemma path_unescape_plain: "c \<noteq> CHR ''%'' \<Longrightarrow> path_unescape (c # s) = c # path_unescape s"
proof -
  assume "c \<noteq> CHR ''%''"
  moreover have "path_unescape [x] = x # path_unescape []" "path_unescape [x, y] = x # path_unescape [y]" for x y
    by simp_all
  ultimately show ?thesis by (cases s rule: path_unescape.cases) simp_all
qed

lemma path_unescape_escape: "path_unescape (path_escape s) = s"
proof (induction s)
  case Nil
  show ?case by (simp add: path_escape_def)
next
  case (Cons c s)
  have lt: "(of_char c :: nat) div 16 < 16" "(of_char c :: nat) mod 16 < 16"
    using nat_of_char_less_256 [of c] by (simp_all add: less_mult_imp_div_less)
  have "\<not> path_safe CHR ''%''" by (simp add: path_safe_def)
  then have "path_safe c \<Longrightarrow> c \<noteq> CHR ''%''" by auto
  with Cons lt show ?case
    by (auto simp: path_escape_def escape_char_def path_unescape_plain hex_value_upper)
qed

section \<open>Properties\<close>

text \<open>C28: a cluster id reaches the inventory API as one path segment of its own: what follows the base URL
  contains no further slash, no query and no fragment, and different clusters have different URLs.\<close>

theorem http_url_one_segment:
  "(\<exists>seg. http_url base cid = trim_slashes base @ ''/clusters/'' @ seg \<and> path_unescape seg = cid
      \<and> CHR ''/'' \<notin> set seg \<and> CHR ''?'' \<notin> set seg \<and> CHR 0x23 \<notin> set seg)
    \<and> (http_url base cid = http_url base cid2 \<longleftrightarrow> cid = cid2)"
proof -
  have "\<not> path_safe CHR ''/''" "\<not> path_safe CHR ''?''" "\<not> path_safe CHR 0x23"
    by (simp_all add: path_safe_def)
  then have "CHR ''/'' \<notin> set (path_escape cid)" "CHR ''?'' \<notin> set (path_escape cid)" "CHR 0x23 \<notin> set (path_escape cid)"
    using path_escape_safe [of _ cid] by fastforce+
  then have "\<exists>seg. http_url base cid = trim_slashes base @ ''/clusters/'' @ seg \<and> path_unescape seg = cid
      \<and> CHR ''/'' \<notin> set seg \<and> CHR ''?'' \<notin> set seg \<and> CHR 0x23 \<notin> set seg"
    by (intro exI [of _ "path_escape cid"]) (simp add: http_url_def path_unescape_escape)
  moreover have "http_url base cid = http_url base cid2 \<longleftrightarrow> cid = cid2"
    using path_unescape_escape [of cid] path_unescape_escape [of cid2]
    by (simp only: http_url_def append_assoc same_append_eq) metis
  ultimately show ?thesis ..
qed

end
