(* ===== verification/Similarity.thy ===== *)
theory Similarity imports Prelude Complex_Main begin

text \<open>
  internal/runbooks/similarity.go: tokens, inverse document frequencies, TF-IDF vectors and their cosine.
  The Unicode tables are parameters: \<open>sm_lower\<close> the part of \<open>strings.ToLower\<close> that is not ASCII, \<open>sm_runes\<close>
  the runes of a string, each with its bytes and whether it is a letter or a digit. A float64 is read as
  a real number: the rounding, and the order in which Go walks a map, which only changes the rounding, are
  not modelled. A vector is the list of its terms and weights, each term once.
\<close>

record similarity =
  sm_lower :: "string \<Rightarrow> string"
  sm_runes :: "string \<Rightarrow> (string \<times> bool) list"

type_synonym vector = "(string \<times> real) list"

section \<open>Tokens\<close>

text \<open>\<open>strings.FieldsFunc\<close>: the maximal runs of letters and digits; \<open>cur\<close> is the run being read.\<close>

fun fields_loop :: "(string \<times> bool) list \<Rightarrow> string option \<Rightarrow> string list" where
  "fields_loop [] None = []"
| "fields_loop [] (Some w) = [w]"
| "fields_loop ((bytes, True) # rs) cur = fields_loop rs (Some ((case cur of None \<Rightarrow> [] | Some w \<Rightarrow> w) @ bytes))"
| "fields_loop ((bytes, False) # rs) None = fields_loop rs None"
| "fields_loop ((bytes, False) # rs) (Some w) = w # fields_loop rs None"

definition stopwords :: "string list" where
  "stopwords = str_split '' ''
     (''a o os as um uma uns umas de do da dos das em no na nos nas por para com sem sob sobre entre ''
      @ ''e ou mas que se n'' @ a_tilde @ ''o sim '' @ e_acute @ '' s'' @ a_tilde
      @ ''o foi foram ser estar tem t'' @ e_circ @ ''m ter isso essa esse essas esses ''
      @ ''ao aos '' @ a_grave @ '' '' @ a_grave @ ''s pra pro ate at'' @ e_acute
      @ '' como quando onde qual quais seu sua seus suas meu minha meus ''
      @ ''minhas ele ela eles elas eu tu voc'' @ e_circ @ '' vc voce voc'' @ e_circ @ ''s n'' @ o_acute
      @ ''s lhe lhes j'' @ a_acute @ '' mais menos muito pouco ''
      @ ''aqui ali l'' @ a_acute @ '' depois antes ent'' @ a_tilde @ ''o ainda tamb'' @ e_acute
      @ ''m s'' @ o_acute @ '' apenas caso ex etc'')"

definition tokenize :: "similarity \<Rightarrow> string \<Rightarrow> string list" where
  "tokenize sm s = filter (\<lambda>t. t \<notin> set stopwords) (fields_loop (sm_runes sm (to_lower (sm_lower sm) s)) None)"

section \<open>Weights\<close>

text \<open>How many documents have a term, each counted once.\<close>

fun doc_count :: "string list list \<Rightarrow> string \<Rightarrow> nat" where
  "doc_count [] t = 0"
| "doc_count (d # ds) t = (if t \<in> set d then Suc (doc_count ds t) else doc_count ds t)"

text \<open>A term of no document is not in the map, and reads as 0.\<close>

definition build_idf :: "string list list \<Rightarrow> string \<Rightarrow> real" where
  "build_idf docs t =
    (if doc_count docs t = 0 then 0 else ln (1 + real (length docs) / real (doc_count docs t)) + 1)"

definition tfidf_vector :: "string list \<Rightarrow> (string \<Rightarrow> real) \<Rightarrow> vector" where
  "tfidf_vector tokens idf = map (\<lambda>t. (t, real (count_list tokens t) * idf t)) (remdups tokens)"

definition dot_product :: "vector \<Rightarrow> vector \<Rightarrow> real" where
  "dot_product a b = sum_list (map (\<lambda>(t, va). case map_of b t of Some vb \<Rightarrow> va * vb | None \<Rightarrow> 0) a)"

definition square_norm :: "vector \<Rightarrow> real" where
  "square_norm a = sum_list (map (\<lambda>(t, v). v * v) a)"

definition cosine :: "vector \<Rightarrow> vector \<Rightarrow> real" where
  "cosine a b =
    (if square_norm a = 0 \<or> square_norm b = 0 then 0
     else dot_product a b / (sqrt (square_norm a) * sqrt (square_norm b)))"

section \<open>Lemmas\<close>

lemma dot_product_disjoint:
  assumes "fst ` set a \<inter> fst ` set b = {}"
  shows "dot_product a b = 0"
proof -
  have "map_of b t = None" if "(t, va) \<in> set a" for t va
    using assms that by (force simp: map_of_eq_None_iff)
  then have "map (\<lambda>(t, va). case map_of b t of Some vb \<Rightarrow> va * vb | None \<Rightarrow> 0) a = map (\<lambda>_. 0) a"
    by (auto simp: case_prod_unfold)
  then show ?thesis unfolding dot_product_def by (simp only: sum_list_0)
qed

lemma tfidf_terms: "fst ` set (tfidf_vector tokens idf) = set tokens"
  by (force simp: tfidf_vector_def)

text \<open>Two vectors of token lists without a common token have cosine 0.\<close>

lemma cosine_shares:
  assumes "cosine (tfidf_vector q idf) (tfidf_vector d idf) \<noteq> 0"
  shows "set q \<inter> set d \<noteq> {}"
proof
  assume "set q \<inter> set d = {}"
  then have "dot_product (tfidf_vector q idf) (tfidf_vector d idf) = 0"
    by (intro dot_product_disjoint) (simp add: tfidf_terms)
  with assms show False by (simp add: cosine_def split: if_splits)
qed

lemma square_norm_nonneg: "0 \<le> square_norm a"
  unfolding square_norm_def by (rule sum_list_nonneg) auto

lemma dot_product_self:
  assumes "distinct (map fst a)"
  shows "dot_product a a = square_norm a"
proof -
  have "map_of a t = Some v" if "(t, v) \<in> set a" for t v
    using assms that by simp
  then have "map (\<lambda>(t, va). case map_of a t of Some vb \<Rightarrow> va * vb | None \<Rightarrow> 0) a = map (\<lambda>(t, v). v * v) a"
    by (auto simp: case_prod_unfold)
  then show ?thesis unfolding dot_product_def square_norm_def by (simp only:)
qed

lemma tfidf_distinct: "distinct (map fst (tfidf_vector tokens idf))"
  by (simp add: tfidf_vector_def comp_def)

text \<open>A vector that is not zero has cosine 1 with itself.\<close>

lemma cosine_self:
  assumes "square_norm (tfidf_vector d idf) \<noteq> 0"
  shows "cosine (tfidf_vector d idf) (tfidf_vector d idf) = 1"
  using assms square_norm_nonneg [of "tfidf_vector d idf"]
  by (simp add: cosine_def dot_product_self [OF tfidf_distinct])

text \<open>The terms of the documents weigh more than 1.\<close>

lemma doc_count_pos: "d \<in> set docs \<Longrightarrow> t \<in> set d \<Longrightarrow> 0 < doc_count docs t"
  by (induction docs) auto

lemma build_idf_pos:
  assumes "d \<in> set docs" and "t \<in> set d"
  shows "1 < build_idf docs t"
proof -
  have c: "0 < doc_count docs t" using doc_count_pos [OF assms] .
  have "0 < length docs" using assms(1) by (cases docs) auto
  with c have "0 < ln (1 + real (length docs) / real (doc_count docs t))"
    by (intro ln_gt_zero) simp
  with c show ?thesis by (simp add: build_idf_def)
qed

lemma square_norm_pos:
  assumes "d \<in> set docs" and "d \<noteq> []"
  shows "square_norm (tfidf_vector d (build_idf docs)) \<noteq> 0"
proof -
  obtain t where t: "t \<in> set d" using assms(2) by (cases d) auto
  let ?v = "real (count_list d t) * build_idf docs t"
  have "count_list d t \<noteq> 0" using t by (simp add: count_list_0_iff)
  then have "0 < ?v" using build_idf_pos [OF assms(1) t] by (intro mult_pos_pos) auto
  then have "0 < ?v * ?v" by simp
  moreover have "?v * ?v \<le> square_norm (tfidf_vector d (build_idf docs))"
    unfolding square_norm_def
    by (rule member_le_sum_list) (use t in \<open>auto simp: tfidf_vector_def image_iff\<close>)
  ultimately show ?thesis by linarith
qed

end
