(* ===== verification/Runbooks.thy ===== *)
theory Runbooks imports Similarity begin

text \<open>
  internal/runbooks: the catalogue of runbooks, a markdown document parsed into entries (runbooks.go), and
  the lookup by kind or by similarity (over theory Similarity). \<open>low\<close> stands for the Unicode part of
  \<open>strings.ToLower\<close>.
\<close>

section \<open>Entries\<close>

record runbook =
  rb_title :: string
  rb_kind :: string
  rb_keywords :: "string list"
  rb_body :: string
  rb_signatures :: "string list"
  rb_source :: string

definition matches_logs :: "(string \<Rightarrow> string) \<Rightarrow> runbook \<Rightarrow> string \<Rightarrow> bool" where
  "matches_logs low e logs =
    (if rb_signatures e = [] then False
     else list_ex (\<lambda>sig. contains (to_lower low sig) (to_lower low logs)) (rb_signatures e))"

section \<open>Parsing\<close>

text \<open>The comma-separated values of a metadata line, trimmed, without empty ones.\<close>

definition comma_values :: "string \<Rightarrow> string list" where
  "comma_values s = filter (\<lambda>v. v \<noteq> []) (map trim_space (str_split '','' s))"

text \<open>The loop over the metadata lines: it stops at the first line that is neither metadata nor blank.\<close>

fun meta_loop :: "runbook \<Rightarrow> string list \<Rightarrow> runbook \<times> string list" where
  "meta_loop e [] = (e, [])"
| "meta_loop e (l # ls) =
    (let t = trim_space l in
     if has_prefix ''kind:'' t then meta_loop (e\<lparr>rb_kind := trim_space (trim_prefix t ''kind:'')\<rparr>) ls
     else if has_prefix ''keywords:'' t then
       meta_loop (e\<lparr>rb_keywords := rb_keywords e @ comma_values (trim_prefix t ''keywords:'')\<rparr>) ls
     else if has_prefix ''log_signatures:'' t then
       meta_loop (e\<lparr>rb_signatures := rb_signatures e @ comma_values (trim_prefix t ''log_signatures:'')\<rparr>) ls
     else if has_prefix ''log_source:'' t then
       meta_loop (e\<lparr>rb_source := trim_space (trim_prefix t ''log_source:'')\<rparr>) ls
     else if t = [] then meta_loop e ls
     else (e, l # ls))"

definition titled :: "string \<Rightarrow> runbook" where
  "titled t = \<lparr>rb_title = t, rb_kind = [], rb_keywords = [], rb_body = [], rb_signatures = [], rb_source = []\<rparr>"

definition body_of :: "string list \<Rightarrow> string" where
  "body_of ls = trim_space (trim_suffix (trim_space (str_join newline ls)) ''---'')"

definition parse_entry :: "string \<Rightarrow> runbook" where
  "parse_entry block =
    (case str_split newline block of
       [] \<Rightarrow> titled []
     | l # ls \<Rightarrow> (case meta_loop (titled (trim_space l)) ls of
          (e, rest) \<Rightarrow> e\<lparr>rb_body := body_of rest\<rparr>))"

definition heading :: string where "heading = newline @ ''## ''"

definition lookupable :: "runbook \<Rightarrow> bool" where
  "lookupable e = (\<not> (rb_kind e = [] \<and> rb_keywords e = []))"

definition parse_runbooks :: "string \<Rightarrow> runbook list" where
  "parse_runbooks data = filter lookupable (map parse_entry (tl (str_split heading (newline @ data))))"

section \<open>Lookup\<close>

definition min_match_score :: real where "min_match_score = 1 / 10"

fun score_loop :: "(runbook \<times> real) list \<Rightarrow> runbook option \<Rightarrow> real \<Rightarrow> (runbook \<times> real) option" where
  "score_loop [] best bs = (case best of None \<Rightarrow> None | Some b \<Rightarrow> Some (b, bs))"
| "score_loop ((e, s) # es) best bs = (if s > bs then score_loop es (Some e) s else score_loop es best bs)"

definition doc_text :: "runbook \<Rightarrow> string" where
  "doc_text e = rb_title e @ '' '' @ str_join '' '' (rb_keywords e) @ '' '' @ rb_body e"

text \<open>How close an entry is to the tokens of a query, among the documents of all entries.\<close>

definition closeness :: "similarity \<Rightarrow> runbook list \<Rightarrow> string list \<Rightarrow> runbook \<Rightarrow> real" where
  "closeness sm es q e =
    (let idf = build_idf (map (\<lambda>e. tokenize sm (doc_text e)) es) in
     cosine (tfidf_vector q idf) (tfidf_vector (tokenize sm (doc_text e)) idf))"

definition score :: "similarity \<Rightarrow> runbook list \<Rightarrow> string \<Rightarrow> (runbook \<times> real) option" where
  "score sm es query =
    (let q = tokenize sm query in
     if q = [] \<or> es = [] then None
     else score_loop (map (\<lambda>e. (e, closeness sm es q e)) es) None 0)"

definition runbook_find :: "similarity \<Rightarrow> runbook list \<Rightarrow> string \<Rightarrow> string \<Rightarrow> runbook option" where
  "runbook_find sm es kind query =
    (case (if kind \<noteq> [] then find (\<lambda>e. rb_kind e = kind) es else None) of
       Some e \<Rightarrow> Some e
     | None \<Rightarrow>
        if trim_space query = [] then None
        else case score sm es query of
          None \<Rightarrow> None
        | Some (best, s) \<Rightarrow> if s < min_match_score then None else Some best)"

section \<open>Reloading\<close>

text \<open>One \<open>Reload\<close>: what reading the file returned, and the entries before; the error and the entries after.\<close>

definition reload :: "string \<Rightarrow> goerr + string \<Rightarrow> runbook list \<Rightarrow> goerr option \<times> runbook list" where
  "reload path r es =
    (case r of
       Inl e \<Rightarrow> (Some (wrapf (''reading runbooks file '' @ path @ '': '') e), es)
     | Inr data \<Rightarrow> (None, parse_runbooks data))"

definition new_store :: "string \<Rightarrow> goerr + string \<Rightarrow> goerr + runbook list" where
  "new_store path r = (case reload path r [] of (Some e, _) \<Rightarrow> Inl e | (None, es) \<Rightarrow> Inr es)"

text \<open>The documents among the results of reads.\<close>

fun documents :: "(goerr + string) list \<Rightarrow> string list" where
  "documents [] = []"
| "documents (r # rs) = (case r of Inl e \<Rightarrow> documents rs | Inr d \<Rightarrow> d # documents rs)"

text \<open>\<open>WatchAndReload\<close>: one read per tick; the errors it reports and the entries it leaves.\<close>

fun watch :: "string \<Rightarrow> (goerr + string) list \<Rightarrow> runbook list \<Rightarrow> goerr list \<times> runbook list" where
  "watch path [] es = ([], es)"
| "watch path (r # rs) es =
    (case reload path r es of (err, es') \<Rightarrow>
     case watch path rs es' of (errs, es'') \<Rightarrow>
       ((case err of None \<Rightarrow> errs | Some e \<Rightarrow> e # errs), es''))"

section \<open>Lemmas\<close>

lemma parse_lookupable: "e \<in> set (parse_runbooks data) \<Longrightarrow> rb_kind e \<noteq> [] \<or> rb_keywords e \<noteq> []"
  by (auto simp: parse_runbooks_def lookupable_def)

lemma score_loop_Some:
  assumes "score_loop es best bs = Some (b, t)"
  shows "(b, t) \<in> set es \<and> bs < t \<or> best = Some b \<and> t = bs"
  using assms by (induction es best bs rule: score_loop.induct) (auto split: option.splits if_splits)

lemma score_loop_max:
  assumes "score_loop es best bs = Some (b, t)"
  shows "bs \<le> t \<and> (\<forall>(e, s) \<in> set es. s \<le> t)"
  using assms by (induction es best bs rule: score_loop.induct) (force split: option.splits if_splits)+

lemma score_loop_None: "score_loop es best bs = None \<longleftrightarrow> best = None \<and> (\<forall>(e, s) \<in> set es. s \<le> bs)"
  by (induction es best bs rule: score_loop.induct) (force split: option.splits)+

lemma runbook_find_kind:
  "kind \<noteq> [] \<Longrightarrow> find (\<lambda>e. rb_kind e = kind) es = Some e \<Longrightarrow> runbook_find sm es kind query = Some e"
  by (simp add: runbook_find_def)

lemma score_best:
  assumes "score sm es query = Some (e, t)"
  shows "e \<in> set es \<and> t = closeness sm es (tokenize sm query) e
    \<and> (\<forall>e' \<in> set es. closeness sm es (tokenize sm query) e' \<le> t)"
proof -
  from assms have loop: "score_loop (map (\<lambda>e. (e, closeness sm es (tokenize sm query) e)) es) None 0 = Some (e, t)"
    by (simp add: score_def Let_def split: if_splits)
  show ?thesis using score_loop_Some [OF loop] score_loop_max [OF loop] by auto
qed

lemma runbook_find_similar:
  assumes "runbook_find sm es kind query = Some e" and "rb_kind e \<noteq> kind"
  shows "score sm es query = Some (e, closeness sm es (tokenize sm query) e)
    \<and> min_match_score \<le> closeness sm es (tokenize sm query) e"
proof -
  have no: "(if kind \<noteq> [] then find (\<lambda>e. rb_kind e = kind) es else None) = None"
    using assms by (auto simp: runbook_find_def dest: find_SomeD split: option.splits if_splits)
  with assms(1) obtain t where "score sm es query = Some (e, t)" "\<not> t < min_match_score"
    by (auto simp: runbook_find_def split: option.splits if_splits)
  then show ?thesis using score_best by fastforce
qed

lemma runbook_find_member: "runbook_find sm es kind query = Some e \<Longrightarrow> e \<in> set es"
  by (cases "rb_kind e = kind")
    (auto simp: runbook_find_def split: option.splits if_splits dest!: find_SomeD score_best)

lemma watch_keeps_last:
  "snd (watch path rs es) = (if documents rs = [] then es else parse_runbooks (last (documents rs)))"
proof (induction rs arbitrary: es)
  case Nil
  show ?case by simp
next
  case (Cons r rs)
  then show ?case
    by (cases r) (simp_all add: reload_def case_prod_unfold)
qed

section \<open>Properties\<close>

text \<open>A runbook that is not found by its kind is one of the catalogue that is closest to the query, at
  least a tenth, and it has a word in common with the query that is not a stopword.\<close>

theorem similar_runbook_shares_word:
  assumes "runbook_find sm es kind query = Some e" and "rb_kind e \<noteq> kind"
  shows "e \<in> set es \<and> (\<forall>e' \<in> set es. closeness sm es (tokenize sm query) e' \<le> closeness sm es (tokenize sm query) e)
    \<and> 1 / 10 \<le> closeness sm es (tokenize sm query) e
    \<and> (\<exists>t. t \<in> set (tokenize sm query) \<and> t \<in> set (tokenize sm (doc_text e)) \<and> t \<notin> set stopwords)"
proof -
  let ?q = "tokenize sm query" and ?d = "tokenize sm (doc_text e)"
  from runbook_find_similar [OF assms] have best: "score sm es query = Some (e, closeness sm es ?q e)"
    and tenth: "1 / 10 \<le> closeness sm es ?q e"
    by (simp_all add: min_match_score_def)
  then have "closeness sm es ?q e \<noteq> 0" by linarith
  then have "set ?q \<inter> set ?d \<noteq> {}" by (auto simp: closeness_def Let_def dest!: cosine_shares)
  then obtain t where t: "t \<in> set ?q" "t \<in> set ?d" by blast
  moreover from t(1) have "t \<notin> set stopwords" by (simp add: tokenize_def)
  ultimately show ?thesis using score_best [OF best] tenth by auto
qed

text \<open>Runes of ASCII, and an entry whose only word is the query.\<close>

definition ascii_similarity :: similarity where
  "ascii_similarity = \<lparr>sm_lower = (\<lambda>t. t), sm_runes = map (\<lambda>c. ([c], c \<noteq> CHR '' ''))\<rparr>"

definition disk_entry :: runbook where
  "disk_entry = \<lparr>rb_title = ''disk'', rb_kind = ''DiskFull'', rb_keywords = [], rb_body = [], rb_signatures = [],
     rb_source = []\<rparr>"

lemma disk_tokens: "tokenize ascii_similarity ''disk'' = [''disk'']"
  "tokenize ascii_similarity (doc_text disk_entry) = [''disk'']"
  by code_simp+

theorem similar_runbook_shares_word_witness:
  "runbook_find ascii_similarity [disk_entry] ''disk'' ''disk'' = Some disk_entry
    \<and> (\<exists>t. t \<in> set (tokenize ascii_similarity ''disk'') \<and> t \<notin> set stopwords)"
proof -
  let ?idf = "build_idf [[''disk'']]"
  have "cosine (tfidf_vector [''disk''] ?idf) (tfidf_vector [''disk''] ?idf) = 1"
    by (rule cosine_self) (rule square_norm_pos, simp_all)
  then have c: "closeness ascii_similarity [disk_entry] [''disk''] disk_entry = 1"
    by (simp add: closeness_def disk_tokens)
  have k: "rb_kind disk_entry \<noteq> ''disk''" by (simp add: disk_entry_def)
  have "trim_space ''disk'' \<noteq> []" by code_simp
  with c k have f: "runbook_find ascii_similarity [disk_entry] ''disk'' ''disk'' = Some disk_entry"
    by (simp add: runbook_find_def score_def Let_def disk_tokens(1) min_match_score_def)
  then show ?thesis using similar_runbook_shares_word [OF f k] by blast
qed

end
