(* ===== verification/AuditLog.thy ===== *)
theory AuditLog imports ExecEngine Playbooks begin

text \<open>
  internal/audit: the entries of the audit trail and FileStore, a file of one JSON document per line
  (filestore.go). The file system and encoding/json are parameters: \<open>file_ops\<close> are the three things
  FileStore does to its file, \<open>codec\<close> the two functions of encoding/json at type \<open>Entry\<close>.
  \<open>audit_store\<close> is the \<open>Store\<close> interface. Times are nanoseconds since 1970, UTC.
\<close>

section \<open>Entries\<close>

record signal_record =
  sg_kind :: string
  sg_namespace :: string
  sg_name :: string
  sg_node_name :: string

definition no_signal :: signal_record where
  "no_signal = \<lparr>sg_kind = [], sg_namespace = [], sg_name = [], sg_node_name = []\<rparr>"

record proposed_record =
  pr_name :: string
  pr_description :: string
  pr_risk :: string

record audit_entry =
  en_id :: string
  en_time :: int
  en_cluster_id :: string
  en_groups :: "string list"
  en_playbook_id :: string
  en_summary :: string
  en_decision :: decision
  en_signal :: signal_record
  en_meta :: meta
  en_proposed :: "proposed_record list"
  en_commands :: "string list"
  en_result :: "run_result option"

text \<open>\<open>NewID\<close>: the time in nanoseconds and eight random bytes in hexadecimal.\<close>

definition new_id :: "int \<Rightarrow> string \<Rightarrow> string" where
  "new_id now bytes = fmt_d now @ ''-'' @ hex_encode bytes"

section \<open>The store\<close>

record 's audit_store =
  as_append :: "audit_entry \<Rightarrow> ('s, goerr option) io"
  as_list :: "string \<Rightarrow> ('s, goerr + audit_entry list) io"
  as_get :: "string \<Rightarrow> ('s, goerr + audit_entry option) io"

record 's file_ops =
  fo_open_append :: "'s \<Rightarrow> goerr option \<times> 's"
  fo_write :: "string \<Rightarrow> 's \<Rightarrow> goerr option \<times> 's"
  fo_read :: "'s \<Rightarrow> (goerr + string) \<times> 's"
  fo_path :: string

record codec =
  js_marshal :: "audit_entry \<Rightarrow> goerr + string"
  js_unmarshal :: "string \<Rightarrow> goerr + audit_entry"

text \<open>
  \<open>NewFileStore\<close>: the directory of the path (\<open>filepath.Dir\<close>, here \<open>dir\<close>) is created unless it is the current
  one, and the file opened once; no error is the store at \<open>path\<close>.
\<close>

definition new_file_store ::
  "(string \<Rightarrow> string) \<Rightarrow> (string \<Rightarrow> goerr option) \<Rightarrow> (string \<Rightarrow> goerr option) \<Rightarrow> string \<Rightarrow> goerr option" where
  "new_file_store dir mkdir create path =
    (case (if dir path = ''.'' then None else mkdir (dir path)) of
       Some e \<Rightarrow> Some (wrapf (''creating audit dir '' @ dir path @ '': '') e)
     | None \<Rightarrow> map_option (wrapf (''opening audit file '' @ path @ '': '')) (create path))"

definition file_append :: "'s file_ops \<Rightarrow> codec \<Rightarrow> audit_entry \<Rightarrow> ('s, goerr option) io" where
  "file_append F J e =
    io_bind (io_call (fo_open_append F)) (\<lambda>r.
      case r of
        Some err \<Rightarrow> io_ret (Some (wrapf (''opening audit file '' @ fo_path F @ '': '') err))
      | None \<Rightarrow>
         (case js_marshal J e of
            Inl err \<Rightarrow> io_ret (Some (wrapf ''marshaling audit entry: '' err))
          | Inr line \<Rightarrow>
              io_bind (io_call (fo_write F (line @ newline))) (\<lambda>w.
                io_ret (map_option (wrapf ''writing audit entry: '') w))))"

text \<open>
  \<open>bufio.Scanner\<close> by lines: the next line ends at a newline, which is dropped with one carriage return
  before it, or at the end of a non-empty rest. A line that does not fit the buffer with its newline
  ends the scan with an error.
\<close>

definition scan_limit :: nat where "scan_limit = 8 * 1024 * 1024"

definition drop_cr :: "string \<Rightarrow> string" where
  "drop_cr l = (if l \<noteq> [] \<and> last l = CHR 0x0D then butlast l else l)"

text \<open>The entries of a file's content: blank lines are skipped, the first line that is too long or does not
  decode ends the reading.\<close>

function read_entries :: "'s file_ops \<Rightarrow> codec \<Rightarrow> string \<Rightarrow> goerr + audit_entry list" where
  "read_entries F J data =
    (if data = [] then Inr []
     else
       let l = takeWhile (\<lambda>c. c \<noteq> CHR 0x0A) data;
           rest = drop (Suc (length l)) data in
       if scan_limit \<le> length l then
         Inl (wrapf (''reading audit file '' @ fo_path F @ '': '') (errorf ''bufio.Scanner: token too long''))
       else if drop_cr l = [] then read_entries F J rest
       else case js_unmarshal J (drop_cr l) of
         Inl err \<Rightarrow> Inl (wrapf ''decoding audit entry: '' err)
       | Inr e \<Rightarrow> (case read_entries F J rest of Inl err \<Rightarrow> Inl err | Inr es \<Rightarrow> Inr (e # es)))"
  by pat_completeness auto
termination
proof (relation "measure (\<lambda>(F, J, data). length data)", goal_cases)
  case 1
  then show ?case by simp
next
  case (2 F J data l rest)
  then show ?case by (cases data) simp_all
next
  case (3 F J data l rest e)
  then show ?case by (cases data) simp_all
qed

declare read_entries.simps [simp del]

definition file_all :: "'s file_ops \<Rightarrow> codec \<Rightarrow> ('s, goerr + audit_entry list) io" where
  "file_all F J =
    io_wrap (io_call (fo_read F)) (''opening audit file '' @ fo_path F @ '': '') (\<lambda>data. io_ret (read_entries F J data))"

definition file_list :: "'s file_ops \<Rightarrow> codec \<Rightarrow> string \<Rightarrow> ('s, goerr + audit_entry list) io" where
  "file_list F J cid = io_try (file_all F J) (\<lambda>e. io_ret (Inl e)) (\<lambda>es.
     io_ret (Inr (filter (\<lambda>e. en_cluster_id e = cid) es)))"

definition file_get :: "'s file_ops \<Rightarrow> codec \<Rightarrow> string \<Rightarrow> ('s, goerr + audit_entry option) io" where
  "file_get F J i = io_try (file_all F J) (\<lambda>e. io_ret (Inl e)) (\<lambda>es.
     io_ret (Inr (find (\<lambda>e. en_id e = i) es)))"

definition file_store :: "'s file_ops \<Rightarrow> codec \<Rightarrow> 's audit_store" where
  "file_store F J = \<lparr>as_append = file_append F J, as_list = file_list F J, as_get = file_get F J\<rparr>"

section \<open>What FileStore relies on\<close>

text \<open>
  The file: \<open>content\<close> is what it holds. A successful write appends, opening for append and reading change
  nothing, and a successful read returns the content.
\<close>

definition append_file :: "'s file_ops \<Rightarrow> ('s \<Rightarrow> string) \<Rightarrow> bool" where
  "append_file F content \<longleftrightarrow>
     (\<forall>s. content (snd (fo_open_append F s)) = content s)
   \<and> (\<forall>t s s'. fo_write F t s = (None, s') \<longrightarrow> content s' = content s @ t)
   \<and> (\<forall>s d s'. fo_read F s = (Inr d, s') \<longrightarrow> d = content s \<and> content s' = content s)"

text \<open>
  JSON: what an entry reads back as. The tier of the decision is not written (\<open>json:"-"\<close>); strings come
  back as they are when they are valid UTF-8, which \<open>ok\<close> says of an entry; a snapshot's values lose
  their Go types, so \<open>ok\<close> entries have none. Documents contain no control characters.
\<close>

definition persisted :: "audit_entry \<Rightarrow> audit_entry" where
  "persisted e = e\<lparr>en_decision := (en_decision e)\<lparr>dec_tier := []\<rparr>\<rparr>"

definition no_snapshots :: "audit_entry \<Rightarrow> bool" where
  "no_snapshots e = (case en_result e of None \<Rightarrow> True
     | Some r \<Rightarrow> list_all (\<lambda>a. ar_snapshot a = None) (res_attempts r))"

definition json_entries :: "codec \<Rightarrow> (audit_entry \<Rightarrow> bool) \<Rightarrow> bool" where
  "json_entries J ok \<longleftrightarrow> (\<forall>e line. ok e \<longrightarrow> js_marshal J e = Inr line \<longrightarrow>
     js_unmarshal J line = Inr (persisted e) \<and> line \<noteq> [] \<and> CHR 0x0A \<notin> set line \<and> last line \<noteq> CHR 0x0D)"

lemma persisted_simps [simp]:
  "en_id (persisted e) = en_id e" "en_cluster_id (persisted e) = en_cluster_id e"
  "en_proposed (persisted e) = en_proposed e" "en_playbook_id (persisted e) = en_playbook_id e"
  "en_signal (persisted e) = en_signal e" "en_meta (persisted e) = en_meta e"
  "en_result (persisted e) = en_result e" "en_commands (persisted e) = en_commands e"
  by (simp_all add: persisted_def)

section \<open>Lemmas\<close>

lemma read_entries_Nil [simp]: "read_entries F J [] = Inr []"
  by (subst read_entries.simps) simp

lemma read_entries_line:
  assumes "CHR 0x0A \<notin> set l"
  shows "read_entries F J (l @ newline @ rest) =
    (if scan_limit \<le> length l then
       Inl (wrapf (''reading audit file '' @ fo_path F @ '': '') (errorf ''bufio.Scanner: token too long''))
     else if drop_cr l = [] then read_entries F J rest
     else case js_unmarshal J (drop_cr l) of
       Inl err \<Rightarrow> Inl (wrapf ''decoding audit entry: '' err)
     | Inr e \<Rightarrow> (case read_entries F J rest of Inl err \<Rightarrow> Inl err | Inr es \<Rightarrow> Inr (e # es)))"
proof -
  have tw: "takeWhile (\<lambda>c. c \<noteq> CHR 0x0A) (l @ CHR 0x0A # rest) = l"
    using assms by (induction l) auto
  show ?thesis
    by (subst read_entries.simps) (simp add: tw Let_def newline_def split: sum.split)
qed

text \<open>Reading a file whose content ends a line, with one line more appended.\<close>

lemma read_entries_append:
  assumes "read_entries F J data = Inr es" and "data = [] \<or> last data = CHR 0x0A"
  shows "read_entries F J (data @ extra) =
    (case read_entries F J extra of Inl e \<Rightarrow> Inl e | Inr fs \<Rightarrow> Inr (es @ fs))"
  using assms
proof (induction "length data" arbitrary: data es rule: less_induct)
  case less
  show ?case
  proof (cases "data = []")
    case True
    with less.prems show ?thesis by (simp split: sum.splits)
  next
    case False
    define l where "l = takeWhile (\<lambda>c. c \<noteq> CHR 0x0A) data"
    have "CHR 0x0A \<in> set data" using False less.prems(2) last_in_set by metis
    then have "dropWhile (\<lambda>c. c \<noteq> CHR 0x0A) data \<noteq> []" by auto
    moreover then have "hd (dropWhile (\<lambda>c. c \<noteq> CHR 0x0A) data) = CHR 0x0A"
      using hd_dropWhile by blast
    ultimately obtain rest where rest: "dropWhile (\<lambda>c. c \<noteq> CHR 0x0A) data = newline @ rest"
      by (metis append_Cons append_Nil list.collapse newline_def)
    have data: "data = l @ newline @ rest"
      using takeWhile_dropWhile_id [of "\<lambda>c. c \<noteq> CHR 0x0A" data] unfolding rest l_def by simp
    have l: "CHR 0x0A \<notin> set l" unfolding l_def using set_takeWhileD by fastforce
    have lt: "length rest < length data" by (simp add: data newline_def)
    have lst: "rest = [] \<or> last rest = CHR 0x0A"
      using less.prems(2) False by (auto simp: data newline_def split: if_splits)
    note line = read_entries_line [OF l, of F J]
    from less.prems(1) have lim: "\<not> scan_limit \<le> length l"
      by (auto simp: data line split: if_splits)
    show ?thesis
    proof (cases "drop_cr l = []")
      case True
      with less.prems(1) lim have "read_entries F J rest = Inr es" by (simp add: data line)
      from less.hyps [OF lt this lst] show ?thesis using True lim by (simp add: data line)
    next
      case False
      with less.prems(1) lim obtain e es' where e: "js_unmarshal J (drop_cr l) = Inr e"
        and es': "read_entries F J rest = Inr es'" "es = e # es'"
        by (auto simp: data line split: sum.splits)
      from less.hyps [OF lt es'(1) lst] show ?thesis
        using False lim e es' by (simp add: data line split: sum.splits)
    qed
  qed
qed

lemma read_entries_one:
  assumes "json_entries J ok" and "ok e" and "js_marshal J e = Inr line" and "length line < scan_limit"
  shows "read_entries F J (line @ newline) = Inr [persisted e]"
proof -
  from assms have *: "js_unmarshal J line = Inr (persisted e)" "line \<noteq> []" "CHR 0x0A \<notin> set line"
    "last line \<noteq> CHR 0x0D"
    by (auto simp: json_entries_def)
  then have "drop_cr line = line" by (simp add: drop_cr_def)
  with read_entries_line [OF *(3), of F J "[]"] * assms(4) show ?thesis by simp
qed

text \<open>A log file: it reads as \<open>es\<close> and ends a line.\<close>

definition holds_log :: "'s file_ops \<Rightarrow> codec \<Rightarrow> ('s \<Rightarrow> string) \<Rightarrow> 's \<Rightarrow> audit_entry list \<Rightarrow> bool" where
  "holds_log F J content s es \<longleftrightarrow> read_entries F J (content s) = Inr es
     \<and> (content s = [] \<or> last (content s) = CHR 0x0A)"

lemma file_append_log:
  assumes fil: "append_file F content" and js: "json_entries J ok" and e: "ok e"
    and log: "holds_log F J content s es"
    and app: "file_append F J e s = (Ret None, s')"
    and fits: "\<And>line. js_marshal J e = Inr line \<Longrightarrow> length line < scan_limit"
  shows "holds_log F J content s' (es @ [persisted e])"
proof -
  from app obtain s1 line where s1: "fo_open_append F s = (None, s1)" and line: "js_marshal J e = Inr line"
    and w: "fo_write F (line @ newline) s1 = (None, s')"
    by (auto simp: file_append_def io_bind_eq_Ret io_call_def split: option.splits sum.splits prod.splits)
  from fil s1 have "content s1 = content s" unfolding append_file_def by (metis snd_conv)
  with fil w have c: "content s' = content s @ line @ newline" unfolding append_file_def by metis
  from log have r: "read_entries F J (content s) = Inr es" "content s = [] \<or> last (content s) = CHR 0x0A"
    by (auto simp: holds_log_def)
  from read_entries_append [OF r, of "line @ newline"] read_entries_one [OF js e line fits [OF line], of F]
  have "read_entries F J (content s') = Inr (es @ [persisted e])" by (simp add: c)
  then show ?thesis by (simp add: holds_log_def c newline_def)
qed

lemma file_all_log:
  assumes "append_file F content" and "holds_log F J content s es" and "fo_read F s = (Inr d, s')"
  shows "file_all F J s = (Ret (Inr es), s') \<and> holds_log F J content s' es"
proof -
  from assms(1,3) have "d = content s" "content s' = content s" unfolding append_file_def by metis+
  with assms show ?thesis
    by (simp add: file_all_def io_wrap_def io_try_def io_bind_def io_call_def io_ret_apply holds_log_def)
qed

lemma file_get_log:
  assumes "append_file F content" and "holds_log F J content s es" and "fo_read F s = (Inr d, s')"
  shows "file_get F J i s = (Ret (Inr (find (\<lambda>e. en_id e = i) es)), s')"
  using file_all_log [OF assms] by (simp add: file_get_def io_try_def io_bind_def io_ret_apply)

section \<open>A write cut short\<close>

text \<open>
  A line cut short: a non-empty beginning of a document, with another document after it, is not JSON. Every
  entry is written as an object, which closes its brace at its very end.
\<close>

definition torn_lines :: "codec \<Rightarrow> bool" where
  "torn_lines J \<longleftrightarrow> (\<forall>e line part tail e' line'. js_marshal J e = Inr line \<longrightarrow> line = part @ tail \<longrightarrow> part \<noteq> [] \<longrightarrow>
     js_marshal J e' = Inr line' \<longrightarrow> (\<exists>err. js_unmarshal J (part @ line') = Inl err))"

lemma read_entries_torn:
  assumes "read_entries F J data = Inr es" and "data = [] \<or> last data = CHR 0x0A"
    and "CHR 0x0A \<notin> set l" and "l \<noteq> []" and "last l \<noteq> CHR 0x0D" and "js_unmarshal J l = Inl err"
  shows "\<exists>err'. read_entries F J (data @ l @ newline @ later) = Inl err'"
proof -
  have "drop_cr l = l" using assms(5) by (simp add: drop_cr_def)
  then have "\<exists>err'. read_entries F J (l @ newline @ later) = Inl err'"
    using assms(4,6) by (simp add: read_entries_line [OF assms(3)])
  with read_entries_append [OF assms(1,2)] show ?thesis by auto
qed

lemma file_all_unreadable:
  assumes "append_file F content" and "read_entries F J (content s) = Inl err" and "fo_read F s = (Inr d, s')"
  shows "file_get F J i s = (Ret (Inl err), s') \<and> file_list F J cid s = (Ret (Inl err), s')"
proof -
  from assms(1,3) have "d = content s" unfolding append_file_def by metis
  with assms(2,3) show ?thesis
    by (simp add: file_get_def file_list_def file_all_def io_wrap_def io_try_def io_bind_def io_call_def io_ret_apply)
qed

lemma file_append_content:
  assumes "append_file F content" and "file_append F J e s = (Ret None, s')"
  shows "\<exists>line. js_marshal J e = Inr line \<and> content s' = content s @ line @ newline"
proof -
  from assms(2) obtain s1 line where s1: "fo_open_append F s = (None, s1)" and line: "js_marshal J e = Inr line"
    and w: "fo_write F (line @ newline) s1 = (None, s')"
    by (auto simp: file_append_def io_bind_eq_Ret io_call_def split: option.splits sum.splits prod.splits)
  from assms(1) s1 have "content s1 = content s" unfolding append_file_def by (metis snd_conv)
  with assms(1) w have "content s' = content s @ line @ newline" unfolding append_file_def by metis
  with line show ?thesis by blast
qed

lemma file_store_simps [simp]:
  "as_append (file_store F J) = file_append F J" "as_get (file_store F J) = file_get F J"
  "as_list (file_store F J) = file_list F J"
  by (simp_all add: file_store_def)

end
