(* ===== verification/Postmortem.thy ===== *)
theory Postmortem imports AuditLog begin

text \<open>
  internal/postmortem: the text of an audit entry, as the template postmortem.md.tmpl renders it. Formatting
  the time is the parameter \<open>tm\<close>.
\<close>

definition a_tilde_upper :: string where "a_tilde_upper = [CHR 0xC3, CHR 0x83]"

definition status_of :: "audit_entry \<Rightarrow> string" where
  "status_of e =
    (if dry_run (en_decision e) then ''N'' @ a_tilde @ ''o executado (dry-run) '' @ em_dash
      @ '' comandos retornados ao usu'' @ a_acute @ ''rio''
     else case en_result e of
       None \<Rightarrow> ''Execu'' @ c_cedil @ a_tilde @ ''o n'' @ a_tilde @ ''o solicitada ou negada pela pol''
         @ i_acute @ ''tica''
     | Some r \<Rightarrow>
         if res_resolved r then ''Resolvido''
         else ''N'' @ a_tilde @ ''o resolvido ap'' @ o_acute @ ''s a escada de a'' @ c_cedil @ o_tilde @ ''es ''
           @ em_dash @ '' necess'' @ a_acute @ ''ria interven'' @ c_cedil @ a_tilde @ ''o manual'')"

definition render_attempt :: "nat \<Rightarrow> attempt_result \<Rightarrow> string" where
  "render_attempt i a =
    newline @ fmt_d (int i + 1) @ ''. **'' @ ar_action a @ ''** (risco: '' @ ar_risk a @ '')''
    @ (if ar_skipped a then '' '' @ em_dash @ '' N'' @ a_tilde_upper @ ''O EXECUTADA (requer aprova'' @ c_cedil
    @ a_tilde @ ''o manual)'' else [])
    @ (if ar_description a \<noteq> [] then newline @ ''   - Comando: '' @ ar_description a else [])
    @ (if \<not> ar_skipped a then
         newline @ ''   - Resultado: '' @ (if ar_output a \<noteq> [] then ar_output a else ''(sem sa'' @ i_acute
           @ ''da)'')
         @ newline @ ''   - Validado: '' @ fmt_bool (ar_validated a)
       else [])
    @ (if ar_err a \<noteq> [] then newline @ ''   - Erro: '' @ ar_err a else [])
    @ (if ar_rolled_back a then newline @ ''   - Revertido: sim'' else [])
    @ newline"

fun render_attempts :: "nat \<Rightarrow> attempt_result list \<Rightarrow> string" where
  "render_attempts i [] = []"
| "render_attempts i (a # as) = render_attempt i a @ render_attempts (Suc i) as"

definition render_commands :: "string list \<Rightarrow> string" where
  "render_commands cs =
    (if cs = [] then []
     else newline @ ''## Comandos propostos (n'' @ a_tilde @ ''o executados)'' @ newline
       @ concat (map (\<lambda>c. newline @ ''- '' @ c) cs) @ newline)"

definition render_result :: "run_result \<Rightarrow> string" where
  "render_result r =
    newline @ ''## Linha do tempo de a'' @ c_cedil @ o_tilde @ ''es executadas'' @ newline
    @ render_attempts 0 (res_attempts r)
    @ newline @ ''## Resolu'' @ c_cedil @ a_tilde @ ''o'' @ newline @ newline
    @ (if res_resolved r then ''Incidente resolvido pela a'' @ c_cedil @ a_tilde @ ''o acima marcada como validada.''
       else ''Nenhuma das '' @ fmt_d (int (length (res_attempts r)))
         @ '' a'' @ c_cedil @ o_tilde @ ''es da escada resolveu o incidente. Interven'' @ c_cedil @ a_tilde
         @ ''o manual necess'' @ a_acute @ ''ria '' @ em_dash @ '' ver comandos e erros acima.'')
    @ newline"

definition render :: "(int \<Rightarrow> string) \<Rightarrow> audit_entry \<Rightarrow> goerr + string" where
  "render tm e = Inr
    (''# Post-mortem: '' @ en_playbook_id e @ newline @ newline
    @ ''- **ID do incidente:** '' @ en_id e @ newline
    @ ''- **Cluster:** '' @ en_cluster_id e @ newline
    @ ''- **Data/hora:** '' @ tm (en_time e) @ newline
    @ ''- **Solicitado por (grupos):** '' @ str_join '', '' (en_groups e) @ newline
    @ ''- **Status:** '' @ status_of e @ newline @ newline
    @ ''## Causa'' @ newline @ newline @ en_summary e @ newline @ newline
    @ ''## Decis'' @ a_tilde @ ''o de pol'' @ i_acute @ ''tica'' @ newline @ newline
    @ ''- Permitido: '' @ fmt_bool (allow (en_decision e)) @ newline
    @ ''- Dry-run: '' @ fmt_bool (dry_run (en_decision e)) @ newline
    @ ''- Motivo: '' @ reason (en_decision e) @ newline
    @ render_commands (en_commands e) @ newline
    @ (case en_result e of None \<Rightarrow> [] | Some r \<Rightarrow> render_result r) @ newline)"

end
