(* ===== verification/McpTools.thy ===== *)
theory McpTools imports Transport AgentAuth Inventory Runbooks Postmortem begin

text \<open>
  internal/mcptools: the tools the hub offers to MCP clients (mcptools.go, toolaccess.go). \<open>tools\<close> is the
  \<open>Server\<close> struct; \<open>hub_ops\<close> are the seven operations it calls on \<open>transport.Server\<close>, and \<open>network_hub\<close> is
  that server as theory Transport models it. A tool handler returns an error or its output; the
  outputs are records with the fields of the \<open>Out\<close> structs; an \<open>In\<close> struct of one or two fields is passed as
  its fields. The texts of the tool descriptions are not modelled.
\<close>

section \<open>Which tools a caller sees (toolaccess.go)\<close>

type_synonym tool_access = "string \<rightharpoonup> string"

definition required_group :: "tool_access \<Rightarrow> string \<Rightarrow> string" where
  "required_group access tool = (case access tool of None \<Rightarrow> [] | Some r \<Rightarrow> r)"

definition tool_allows :: "(string \<Rightarrow> string) \<Rightarrow> tool_access \<Rightarrow> string \<Rightarrow> string list \<Rightarrow> bool" where
  "tool_allows up access tool groups =
    (let required = required_group access tool in
     if required = [] then True
     else list_ex (\<lambda>g. contains (to_upper up required) (to_upper up g)) groups)"

record tool_rule =
  tr_name :: string
  tr_group :: string

definition load_tool_access :: "goerr + tool_rule list \<Rightarrow> goerr + tool_access" where
  "load_tool_access decoded =
    (case decoded of
       Inl e \<Rightarrow> Inl (wrapf ''decoding tool access config: '' e)
     | Inr ts \<Rightarrow>
        (case find (\<lambda>t. tr_name t = []) ts of
           Some t \<Rightarrow> Inl (errorf (''tool access config entry missing name: {Name:'' @ tr_name t
             @ '' RequiresGroupName:'' @ tr_group t @ ''}''))
         | None \<Rightarrow> Inr (map_build (map (\<lambda>t. (tr_name t, tr_group t)) ts))))"

definition tool_names :: "string list" where
  "tool_names = [''scan_cluster'', ''troubleshoot'', ''approve_action'', ''get_postmortem'', ''list_nodes'']"

section \<open>The server\<close>

record 's hub_ops =
  hb_scan :: "string \<Rightarrow> string \<Rightarrow> ('s, goerr + scan_response) io"
  hb_diagnose :: "string \<Rightarrow> pb_signal \<Rightarrow> ('s, goerr + diagnose_response) io"
  hb_execute :: "string \<Rightarrow> string \<Rightarrow> pb_signal \<Rightarrow> ('s, goerr + execute_response) io"
  hb_get_logs :: "string \<Rightarrow> string \<Rightarrow> string \<Rightarrow> string \<Rightarrow> int \<Rightarrow> ('s, goerr + get_logs_response) io"
  hb_approve_action :: "string \<Rightarrow> string \<Rightarrow> pb_signal \<Rightarrow> string \<Rightarrow> meta \<Rightarrow> ('s, goerr + approve_action_response) io"
  hb_list_nodes :: "string \<Rightarrow> ('s, goerr + list_nodes_response) io"
  hb_clusters :: "('s, goerr + string list) io"

definition network_hub :: "'s network \<Rightarrow> 's hub_ops" where
  "network_hub N = \<lparr>hb_scan = hub_scan N, hb_diagnose = hub_diagnose N, hb_execute = hub_execute N,
     hb_get_logs = hub_get_logs N, hb_approve_action = hub_approve_action N,
     hb_list_nodes = hub_list_nodes N, hb_clusters = connected_clusters N\<rparr>"

text \<open>
  What the handlers use of Go's standard library: the Unicode tables of \<open>strings.ToUpper\<close>, \<open>ToLower\<close> and
  \<open>EqualFold\<close>, the clock (nanoseconds, UTC), random bytes and the format of a time; the similarity
  of runbooks (theory Runbooks); and whether the call's context has ended by now, which is the error OPA's
  evaluation then returns.
\<close>

record 's environment =
  ev_upper :: "string \<Rightarrow> string"
  ev_lower :: "string \<Rightarrow> string"
  ev_fold :: "string \<Rightarrow> string \<Rightarrow> bool"
  ev_now :: "'s \<Rightarrow> int \<times> 's"
  ev_random :: "'s \<Rightarrow> string \<times> 's"
  ev_format_time :: "int \<Rightarrow> string"
  ev_similarity :: similarity
  ev_stopped :: "'s \<Rightarrow> goerr option"

record 's tools =
  tl_hub :: "'s hub_ops"
  tl_policy :: engine
  tl_audit :: "'s audit_store"
  tl_execution_flag :: bool
  tl_prod_clusters :: "string \<rightharpoonup> bool"
  tl_caller_groups :: "string list"
  tl_runbooks :: "('s \<Rightarrow> runbook list) option"
  tl_inventory :: "(string \<Rightarrow> ('s, goerr + cluster_info option) io) option"
  tl_scope :: "scope option"
  tl_tool_access :: tool_access
  tl_env :: "'s environment"

definition registered :: "'s tools \<Rightarrow> string list" where
  "registered T = filter (\<lambda>n. tool_allows (ev_upper (tl_env T)) (tl_tool_access T) n (tl_caller_groups T)) tool_names"

definition agent_error :: "string \<Rightarrow> string \<Rightarrow> goerr" where
  "agent_error cid text = errorf (''agente do cluster '' @ cid @ '': '' @ text)"

definition scope_check :: "'s tools \<Rightarrow> string \<Rightarrow> cluster_info option \<Rightarrow> goerr + (cluster_info \<times> bool)" where
  "scope_check T cid found =
    (let info = (case found of None \<Rightarrow> no_info | Some i \<Rightarrow> i);
         known = (found \<noteq> None) in
     case tl_scope T of
       None \<Rightarrow> Inr (info, known)
     | Some sc \<Rightarrow>
        if \<not> known then
          Inl (errorf (''cluster '' @ fmt_q cid @ '' n'' @ a_tilde @ ''o est'' @ a_acute
            @ '' cadastrado no invent'' @ a_acute @ ''rio '' @ em_dash @ '' n'' @ a_tilde @ ''o '' @ e_acute
            @ '' poss'' @ i_acute @ ''vel validar a conta AWS para este chamador, acesso negado''))
        else if \<not> allows_account (Some sc) (ci_account info) then
          Inl (errorf (''cluster '' @ fmt_q cid @ '' est'' @ a_acute
            @ '' fora do escopo de conta AWS autorizado para este chamador''))
        else Inr (info, known))"

definition check_cluster_scope :: "'s tools \<Rightarrow> string \<Rightarrow> ('s, goerr + (cluster_info \<times> bool)) io" where
  "check_cluster_scope T cid =
    (case tl_inventory T of
       None \<Rightarrow> io_ret (scope_check T cid None)
     | Some lookup \<Rightarrow>
        io_wrap (lookup cid) (''consultando invent'' @ a_acute @ ''rio de clusters: '')
          (\<lambda>found. io_ret (scope_check T cid found)))"

definition cluster_env_of :: "'s tools \<Rightarrow> string \<Rightarrow> cluster_env" where
  "cluster_env_of T cid = (if tl_prod_clusters T cid = Some True then env_prod else env_nonprod)"

definition risk_rank :: "string \<rightharpoonup> int" where
  "risk_rank r =
    (if r = risk_safe then Some 0 else if r = risk_medium then Some 1 else if r = risk_high then Some 2 else None)"

fun max_risk_loop :: "proposed_action list \<Rightarrow> risk \<Rightarrow> int \<Rightarrow> bool \<Rightarrow> risk" where
  "max_risk_loop [] best rank only_high = (if only_high then risk_high else best)"
| "max_risk_loop (a # as) best rank only_high =
    (if pa_risk a = risk_high then max_risk_loop as best rank only_high
     else case risk_rank (pa_risk a) of
       Some r \<Rightarrow> if r > rank then max_risk_loop as (pa_risk a) r False else max_risk_loop as best rank False
     | None \<Rightarrow> max_risk_loop as best rank False)"

definition max_risk :: "proposed_action list \<Rightarrow> risk" where
  "max_risk as = max_risk_loop as risk_safe (-1) True"

section \<open>Reading tools\<close>

record pod_issue_out =
  po_namespace :: string
  po_name :: string
  po_kind :: string
  po_detail :: string

record scan_cluster_out =
  so_issues :: "pod_issue_out list"

definition issue_out :: "pod_issue \<Rightarrow> pod_issue_out" where
  "issue_out i = \<lparr>po_namespace = is_namespace i, po_name = is_name i, po_kind = is_kind i, po_detail = is_detail i\<rparr>"

definition scan_cluster :: "'s tools \<Rightarrow> string \<Rightarrow> string \<Rightarrow> ('s, goerr + scan_cluster_out) io" where
  "scan_cluster T cid ns =
    io_try (check_cluster_scope T cid) (\<lambda>e. io_ret (Inl e)) (\<lambda>_.
    io_try (hb_scan (tl_hub T) cid ns) (\<lambda>e. io_ret (Inl e)) (\<lambda>resp.
      io_ret (if sr_error resp \<noteq> [] then Inl (agent_error cid (sr_error resp)) 
        else Inr \<lparr>so_issues = map issue_out (sr_issues resp)\<rparr>)))"

text \<open>\<open>strings.EqualFold\<close>.\<close>

definition equal_fold :: "(string \<Rightarrow> string \<Rightarrow> bool) \<Rightarrow> string \<Rightarrow> string \<Rightarrow> bool" where
  "equal_fold tab a b = (if is_ascii a \<and> is_ascii b then map lower_char a = map lower_char b else tab a b)"

record node_out =
  nt_name :: string
  nt_zone :: string
  nt_region :: string
  nt_instance_type :: string
  nt_architecture :: string
  nt_ready :: bool

definition node_out_of :: "node_info \<Rightarrow> node_out" where
  "node_out_of n = \<lparr>nt_name = ni_name n, nt_zone = ni_zone n, nt_region = ni_region n,
     nt_instance_type = ni_instance_type n, nt_architecture = ni_architecture n, nt_ready = ni_ready n\<rparr>"

record list_nodes_out =
  no_cluster_id :: string
  no_known :: bool
  no_account :: string
  no_region :: string
  no_eks_name :: string
  no_nodes :: "node_out list"

definition list_nodes_tool :: "'s tools \<Rightarrow> string \<Rightarrow> string \<Rightarrow> ('s, goerr + list_nodes_out) io" where
  "list_nodes_tool T cid region =
    io_try (check_cluster_scope T cid) (\<lambda>e. io_ret (Inl e)) (\<lambda>(info, known).
      if region \<noteq> [] \<and> known \<and> ci_region info \<noteq> [] \<and> \<not> equal_fold (ev_fold (tl_env T)) (ci_region info) region then
        io_ret (Inl (errorf (''cluster '' @ fmt_q cid @ '' est'' @ a_acute @ '' registrado no invent'' @ a_acute
          @ ''rio como regi'' @ a_tilde @ ''o '' @ ci_region info
          @ '', n'' @ a_tilde @ ''o '' @ region @ '' '' @ em_dash @ '' confirme o cluster certo com o usu''
          @ a_acute @ ''rio antes de continuar'')))
      else
        io_try (hb_list_nodes (tl_hub T) cid) (\<lambda>e. io_ret (Inl e)) (\<lambda>resp.
          io_ret (if lnr_error resp \<noteq> [] then Inl (agent_error cid (lnr_error resp))
            else Inr \<lparr>no_cluster_id = cid, no_known = known,
              no_account = (if known then ci_account info else []), no_region = (if known then ci_region info else []),
              no_eks_name = (if known then ci_eks_name info else []), 
              no_nodes = map node_out_of (lnr_nodes resp)\<rparr>)))"

record list_clusters_out =
  lc_cluster_ids :: "string list"

definition list_clusters :: "'s tools \<Rightarrow> ('s, goerr + list_clusters_out) io" where
  "list_clusters T = io_wrap (hb_clusters (tl_hub T)) ''listando clusters: ''
     (\<lambda>ids. io_ret (Inr \<lparr>lc_cluster_ids = ids\<rparr>))"

section \<open>troubleshoot\<close>

record troubleshoot_in =
  ti_cluster_id :: string
  ti_kind :: string
  ti_namespace :: string
  ti_name :: string
  ti_node_name :: string

record attempt_out =
  ot_action :: string
  ot_description :: string
  ot_risk :: string
  ot_output :: string
  ot_error :: string
  ot_validated :: bool
  ot_rolled_back :: bool
  ot_skipped :: bool

definition attempt_out_of :: "attempt \<Rightarrow> attempt_out" where
  "attempt_out_of a = \<lparr>ot_action = at_action a, ot_description = at_description a, ot_risk = at_risk a,
     ot_output = at_output a, ot_error = at_error a, ot_validated = at_validated a,
     ot_rolled_back = at_rolled_back a, ot_skipped = at_skipped a\<rparr>"

record troubleshoot_out =
  to_incident_id :: string
  to_playbook_id :: string
  to_summary :: string
  to_allowed :: bool
  to_dry_run :: bool
  to_reason :: string
  to_commands :: "string list"
  to_resolved :: bool
  to_attempts :: "attempt_out list"

definition in_signal :: "troubleshoot_in \<Rightarrow> signal" where
  "in_signal i = \<lparr>sig_kind = ti_kind i, sig_namespace = ti_namespace i, sig_name = ti_name i,
     sig_node_name = ti_node_name i\<rparr>"

definition in_signal_record :: "troubleshoot_in \<Rightarrow> signal_record" where
  "in_signal_record i = \<lparr>sg_kind = ti_kind i, sg_namespace = ti_namespace i, sg_name = ti_name i,
     sg_node_name = ti_node_name i\<rparr>"

text \<open>\<open>audit.NewID()\<close>, then \<open>time.Now().UTC()\<close>.\<close>

definition stamp :: "'s tools \<Rightarrow> ('s, string \<times> int) io" where
  "stamp T =
    io_bind (io_call (ev_random (tl_env T))) (\<lambda>bytes.
    io_bind (io_call (ev_now (tl_env T))) (\<lambda>t0.
    io_bind (io_call (ev_now (tl_env T))) (\<lambda>t. io_ret (new_id t0 bytes, t))))"

text \<open>The end of every handler that records: append the entry, then answer.\<close>

definition record_entry :: "'s tools \<Rightarrow> audit_entry \<Rightarrow> 'a \<Rightarrow> ('s, goerr + 'a) io" where
  "record_entry T e out = io_check (as_append (tl_audit T) e) ''gravando auditoria: '' (io_ret (Inr out))"

definition confirm_via_logs :: "'s tools \<Rightarrow> troubleshoot_in \<Rightarrow> runbook \<Rightarrow> ('s, string \<times> string list) io" where
  "confirm_via_logs T i rb =
    (let (ns, name, dep) =
       (if rb_source rb \<noteq> [] \<and> rb_source rb \<noteq> ''self'' then
          (case str_cut ''/'' (rb_source rb) of
             Some (before, after) \<Rightarrow> (before, [], after)
           | None \<Rightarrow> (ti_namespace i, ti_name i, []))
        else (ti_namespace i, ti_name i, [])) in
     io_bind (hb_get_logs (tl_hub T) (ti_cluster_id i) ns name dep 0) (\<lambda>r.
       io_ret (case r of
         Inl e \<Rightarrow> (rb_title rb, [rb_body rb])
       | Inr resp \<Rightarrow>
           if glr_error resp \<noteq> [] \<or> \<not> matches_logs (ev_lower (tl_env T)) rb (glr_logs resp)
           then (rb_title rb, [rb_body rb])
           else (rb_title rb @ '' '' @ em_dash @ '' confirmado pelo log (assinatura conhecida encontrada)'',
                 [rb_body rb, ''Evid'' @ e_circ @ ''ncia no log:'' @ newline @ glr_logs resp]))))"

definition fallback_decision :: decision where
  "fallback_decision = \<lparr>allow = True, dry_run = True,
     reason = ''sem playbook automatizado para esse sinal '' @ em_dash @ '' resposta vem do cat'' @ a_acute
       @ ''logo de runbooks, sempre s'' @ o_acute @ '' como proposta'',
     dec_tier = []\<rparr>"

text \<open>The summary and the proposed commands of the fallback.\<close>

definition fallback_answer :: "'s tools \<Rightarrow> troubleshoot_in \<Rightarrow> ('s, string \<times> string list) io" where
  "fallback_answer T i =
    (case tl_runbooks T of
       None \<Rightarrow> io_ret (''nenhum playbook automatizado conhece o sinal '' @ fmt_q (ti_kind i)
         @ '', e n'' @ a_tilde @ ''o h'' @ a_acute @ '' cat'' @ a_acute
         @ ''logo de runbooks configurado neste hub.'', [])
     | Some entries \<Rightarrow>
        io_bind (\<lambda>s. (Ret (runbook_find (ev_similarity (tl_env T)) (entries s) (ti_kind i) (ti_kind i)), s)) (\<lambda>found.
          case found of
            Some rb \<Rightarrow> if rb_signatures rb \<noteq> [] then confirm_via_logs T i rb else io_ret (rb_title rb, [rb_body rb])
          | None \<Rightarrow> io_ret (''nenhum playbook automatizado nem entrada no cat'' @ a_acute
            @ ''logo de runbooks para o sinal ''
              @ fmt_q (ti_kind i) @ '' '' @ em_dash @ '' sem sugest'' @ a_tilde @ ''o autom'' @ a_acute
              @ ''tica pra esse caso ainda.'', [])))"

definition runbook_fallback :: "'s tools \<Rightarrow> troubleshoot_in \<Rightarrow> ('s, goerr + troubleshoot_out) io" where
  "runbook_fallback T i =
    io_bind (stamp T) (\<lambda>(eid, t).
    io_bind (fallback_answer T i) (\<lambda>(summary, commands).
      record_entry T
        \<lparr>en_id = eid, en_time = t, en_cluster_id = ti_cluster_id i, en_groups = tl_caller_groups T,
         en_playbook_id = ''runbook'', en_summary = summary, en_decision = fallback_decision, en_signal = no_signal,
         en_meta = Map.empty, en_proposed = [], en_commands = commands, en_result = None\<rparr>
        \<lparr>to_incident_id = eid, to_playbook_id = ''runbook'', to_summary = summary, to_allowed = True, to_dry_run = True,
         to_reason = reason fallback_decision, to_commands = commands, to_resolved = False, to_attempts = []\<rparr>))"

definition proposed_record_of :: "proposed_action \<Rightarrow> proposed_record" where
  "proposed_record_of a = \<lparr>pr_name = pa_name a, pr_description = pa_description a, pr_risk = pa_risk a\<rparr>"

definition command_line :: "proposed_action \<Rightarrow> string" where
  "command_line a = ''['' @ pa_risk a @ ''] '' @ pa_name a @ '' '' @ em_dash @ '' '' @ pa_description a"

definition attempt_record :: "attempt \<Rightarrow> attempt_result" where
  "attempt_record a = \<lparr>ar_action = at_action a, ar_description = at_description a, ar_risk = at_risk a,
     ar_output = at_output a, ar_err = at_error a, ar_snapshot = None, ar_validated = at_validated a,
     ar_rolled_back = at_rolled_back a, ar_skipped = at_skipped a\<rparr>"

text \<open>The audit trail's form of an attempt, from the answer's: what is answered is what is recorded.\<close>

definition recorded_as :: "attempt_out \<Rightarrow> attempt_result" where
  "recorded_as a = \<lparr>ar_action = ot_action a, ar_description = ot_description a, ar_risk = ot_risk a,
     ar_output = ot_output a, ar_err = ot_error a, ar_snapshot = None, ar_validated = ot_validated a,
     ar_rolled_back = ot_rolled_back a, ar_skipped = ot_skipped a\<rparr>"

lemma recorded_as_out [simp]: "recorded_as (attempt_out_of a) = attempt_record a"
  by (simp add: recorded_as_def attempt_out_of_def attempt_record_def)

lemma recorded_as_comp [simp]: "recorded_as \<circ> attempt_out_of = attempt_record"
  by (simp add: fun_eq_iff)

lemma attempt_out_fields [simp]:
  "ot_risk (attempt_out_of a) = at_risk a" "ot_validated (attempt_out_of a) = at_validated a"
  by (simp_all add: attempt_out_of_def)

definition run_request :: "'s tools \<Rightarrow> troubleshoot_in \<Rightarrow> proposed_action list \<Rightarrow> request" where
  "run_request T i as = \<lparr>rq_groups = tl_caller_groups T, rq_cluster_env = cluster_env_of T (ti_cluster_id i),
     rq_action_risk = max_risk as, rq_execution_flag = tl_execution_flag T\<rparr>"

text \<open>The entry and the answer before anything is run.\<close>

definition diagnosis_entry :: "'s tools \<Rightarrow> troubleshoot_in \<Rightarrow> diagnose_response \<Rightarrow> decision \<Rightarrow> string \<Rightarrow> int \<Rightarrow> audit_entry" where
  "diagnosis_entry T i diag d eid t =
    \<lparr>en_id = eid, en_time = t, en_cluster_id = ti_cluster_id i, en_groups = tl_caller_groups T,
     en_playbook_id = dr_playbook_id diag, en_summary = dr_summary diag, en_decision = d,
     en_signal = in_signal_record i, en_meta = dr_meta diag,
     en_proposed = map proposed_record_of (dr_proposed diag), en_commands = [], en_result = None\<rparr>"

definition diagnosis_out :: "diagnose_response \<Rightarrow> decision \<Rightarrow> string \<Rightarrow> troubleshoot_out" where
  "diagnosis_out diag d eid =
    \<lparr>to_incident_id = eid, to_playbook_id = dr_playbook_id diag, to_summary = dr_summary diag,
     to_allowed = allow d, to_dry_run = dry_run d, to_reason = reason d, to_commands = [], to_resolved = False,
     to_attempts = []\<rparr>"

text \<open>The three cases of the decision.\<close>

definition act_on_decision :: "'s tools \<Rightarrow> troubleshoot_in \<Rightarrow> diagnose_response \<Rightarrow> decision \<Rightarrow> string \<Rightarrow> int \<Rightarrow>
    ('s, goerr + troubleshoot_out) io" where
  "act_on_decision T i diag d eid t =
    (let entry = diagnosis_entry T i diag d eid t;
         out = diagnosis_out diag d eid in
     if \<not> allow d then record_entry T entry out
     else if dry_run d then
       (let cmds = map command_line (dr_proposed diag) in
        record_entry T (entry\<lparr>en_commands := cmds\<rparr>) (out\<lparr>to_commands := cmds\<rparr>))
     else
       io_wrap (hb_execute (tl_hub T) (ti_cluster_id i) (dr_playbook_id diag) (Some (in_signal i)))
         (''executando no cluster '' @ ti_cluster_id i @ '': '') (\<lambda>exec.
         if er_error exec \<noteq> [] then io_ret (Inl (agent_error (ti_cluster_id i) (er_error exec)))
         else record_entry T
           (entry\<lparr>en_result := Some \<lparr>res_playbook_id = dr_playbook_id diag, res_resolved = er_resolved exec,
              res_attempts = map attempt_record (er_attempts exec)\<rparr>\<rparr>)
           (out\<lparr>to_resolved := er_resolved exec, to_attempts := map attempt_out_of (er_attempts exec)\<rparr>)))"

text \<open>\<open>policy.Decide\<close> with the call's context.\<close>

definition policy_decision :: "'s tools \<Rightarrow> request \<Rightarrow> ('s, goerr + decision) io" where
  "policy_decision T req = (\<lambda>s. (Ret (decide (ev_stopped (tl_env T) s) (tl_policy T) req), s))"

definition troubleshoot :: "'s tools \<Rightarrow> troubleshoot_in \<Rightarrow> ('s, goerr + troubleshoot_out) io" where
  "troubleshoot T i =
    io_try (check_cluster_scope T (ti_cluster_id i)) (\<lambda>e. io_ret (Inl e)) (\<lambda>_.
    io_try (hb_diagnose (tl_hub T) (ti_cluster_id i) (Some (in_signal i))) (\<lambda>e. io_ret (Inl e)) (\<lambda>diag.
      if dr_error diag \<noteq> [] then io_ret (Inl (agent_error (ti_cluster_id i) (dr_error diag)))
      else if dr_no_playbook diag then runbook_fallback T i
      else io_wrap (policy_decision T (run_request T i (dr_proposed diag))) (''avaliando pol'' @ i_acute @ ''tica: '')
        (\<lambda>d. io_bind (stamp T) (\<lambda>(eid, t). act_on_decision T i diag d eid t))))"

section \<open>approve_action\<close>

record approve_out =
  ao_incident_id :: string
  ao_original_id :: string
  ao_attempt :: attempt_out

text \<open>The getters on a nil attempt.\<close>

definition attempt_of :: "attempt option \<Rightarrow> attempt" where
  "attempt_of a = (case a of Some x \<Rightarrow> x | None \<Rightarrow>
     \<lparr>at_action = [], at_risk = [], at_output = [], at_error = [], at_validated = False, at_rolled_back = False,
      at_description = [], at_skipped = False\<rparr>)"

definition record_signal :: "signal_record \<Rightarrow> signal" where
  "record_signal r = \<lparr>sig_kind = sg_kind r, sig_namespace = sg_namespace r, sig_name = sg_name r,
     sig_node_name = sg_node_name r\<rparr>"

definition approval_entry :: "'s tools \<Rightarrow> audit_entry \<Rightarrow> string \<Rightarrow> string \<Rightarrow> tier \<Rightarrow> attempt \<Rightarrow> string \<Rightarrow> int \<Rightarrow> audit_entry" where
  "approval_entry T e incident name tier a eid t =
    \<lparr>en_id = eid, en_time = t, en_cluster_id = en_cluster_id e, en_groups = tl_caller_groups T,
     en_playbook_id = en_playbook_id e,
     en_summary = ''aprova'' @ c_cedil @ a_tilde @ ''o expl'' @ i_acute @ ''cita de '' @ fmt_q name
       @ '' para o incidente '' @ incident,
     en_decision = \<lparr>allow = True, dry_run = False,
       reason = ''a'' @ c_cedil @ a_tilde
         @ ''o de alto risco aprovada explicitamente por chamador prod-admin'', dec_tier = tier\<rparr>,
     en_signal = en_signal e, en_meta = Map.empty, en_proposed = [], en_commands = [],
     en_result = Some \<lparr>res_playbook_id = en_playbook_id e, res_resolved = at_validated a,
       res_attempts = [attempt_record a]\<rparr>\<rparr>"

text \<open>What is checked of the incident's entry, in order; \<open>Inr\<close> is the caller's tier.\<close>

definition approval_check :: "'s tools \<Rightarrow> audit_entry \<Rightarrow> string \<Rightarrow> string \<Rightarrow> goerr + tier" where
  "approval_check T e incident name =
    (case find (\<lambda>p. pr_name p = name) (en_proposed e) of
       None \<Rightarrow> Inl (errorf (''a'' @ c_cedil @ a_tilde @ ''o '' @ fmt_q name @ '' n'' @ a_tilde
         @ ''o foi proposta no incidente '' @ incident))
     | Some target \<Rightarrow>
        if pr_risk target \<noteq> risk_high then
          Inl (errorf (''a'' @ c_cedil @ a_tilde @ ''o '' @ fmt_q name @ '' '' @ e_acute @ '' risco ''
            @ fmt_q (pr_risk target) @ '', n'' @ a_tilde @ ''o '' @ fmt_q ''high''
            @ '' '' @ em_dash @ '' n'' @ a_tilde @ ''o precisa de aprova'' @ c_cedil @ a_tilde @ ''o expl''
            @ i_acute @ ''cita, chame troubleshoot de novo''))
        else
          (case caller_tier (tl_policy T) (tl_caller_groups T) of
             (tier, ok) \<Rightarrow>
               if \<not> ok \<or> tier \<noteq> tier_prod_admin then
                 Inl (errorf (''aprovar uma a'' @ c_cedil @ a_tilde @ ''o de alto risco requer tier ''
                   @ fmt_q tier_prod_admin))
               else Inr tier))"

definition run_approval :: "'s tools \<Rightarrow> audit_entry \<Rightarrow> string \<Rightarrow> string \<Rightarrow> tier \<Rightarrow> ('s, goerr + approve_out) io" where
  "run_approval T e incident name tier =
    io_wrap (hb_approve_action (tl_hub T) (en_cluster_id e) (en_playbook_id e) (Some (record_signal (en_signal e))) name
        (en_meta e)) (''executando aprova'' @ c_cedil @ a_tilde @ ''o no cluster '' @ en_cluster_id e
          @ '': '') (\<lambda>resp.
      if aar_error resp \<noteq> [] then io_ret (Inl (agent_error (en_cluster_id e) (aar_error resp)))
      else
        let a = attempt_of (aar_attempt resp) in
        io_bind (stamp T) (\<lambda>(eid, t).
          record_entry T (approval_entry T e incident name tier a eid t)
            \<lparr>ao_incident_id = eid, ao_original_id = incident, ao_attempt = attempt_out_of a\<rparr>))"

definition approve_action :: "'s tools \<Rightarrow> string \<Rightarrow> string \<Rightarrow> ('s, goerr + approve_out) io" where
  "approve_action T incident name =
    (if \<not> tl_execution_flag T then
       io_ret (Inl (errorf (''execu'' @ c_cedil @ a_tilde @ ''o est'' @ a_acute
         @ '' desligada globalmente neste hub (--execution-enabled=false) '' @ em_dash @ '' aprova'' @ c_cedil
         @ a_tilde @ ''o expl'' @ i_acute @ ''cita n'' @ a_tilde @ ''o '' @ e_acute @ '' uma exce'' @ c_cedil
         @ a_tilde @ ''o a isso'')))
     else
       io_wrap (as_get (tl_audit T) incident) (''buscando incidente '' @ incident @ '': '') (\<lambda>found.
         case found of
           None \<Rightarrow> io_ret (Inl (errorf (''incidente '' @ fmt_q incident @ '' n'' @ a_tilde
             @ ''o encontrado'')))
         | Some e \<Rightarrow>
             io_try (check_cluster_scope T (en_cluster_id e)) (\<lambda>err. io_ret (Inl err)) (\<lambda>_.
               case approval_check T e incident name of
                 Inl err \<Rightarrow> io_ret (Inl err)
               | Inr tier \<Rightarrow> run_approval T e incident name tier)))"

section \<open>get_postmortem\<close>

definition get_postmortem :: "'s tools \<Rightarrow> string \<Rightarrow> ('s, goerr + string) io" where
  "get_postmortem T incident =
    io_wrap (as_get (tl_audit T) incident) (''buscando incidente '' @ incident @ '': '') (\<lambda>found.
      case found of
        None \<Rightarrow> io_ret (Inl (errorf (''incidente '' @ fmt_q incident @ '' n'' @ a_tilde
          @ ''o encontrado'')))
      | Some e \<Rightarrow> io_ret (render (ev_format_time (tl_env T)) e))"

section \<open>What the tools keep\<close>

text \<open>\<open>I\<close> is kept by everything a handler calls except \<open>Execute\<close> and \<open>ApproveAction\<close>.\<close>

definition hub_reads :: "'s tools \<Rightarrow> ('s \<Rightarrow> bool) \<Rightarrow> bool" where
  "hub_reads T I \<longleftrightarrow>
     (\<forall>lookup cid. tl_inventory T = Some lookup \<longrightarrow> keeps I (lookup cid))
   \<and> (\<forall>cid ns. keeps I (hb_scan (tl_hub T) cid ns)) \<and> (\<forall>cid sig. keeps I (hb_diagnose (tl_hub T) cid sig))
   \<and> (\<forall>cid ns name dep lines. keeps I (hb_get_logs (tl_hub T) cid ns name dep lines))
   \<and> (\<forall>cid. keeps I (hb_list_nodes (tl_hub T) cid)) \<and> keeps I (hb_clusters (tl_hub T))
   \<and> (\<forall>e. keeps I (as_append (tl_audit T) e)) \<and> (\<forall>i. keeps I (as_get (tl_audit T) i))
   \<and> keeps I (io_call (ev_now (tl_env T))) \<and> keeps I (io_call (ev_random (tl_env T)))"

lemma hub_readsD [keeps_intros]:
  assumes "hub_reads T I"
  shows "tl_inventory T = Some lookup \<Longrightarrow> keeps I (lookup cid)"
    and "keeps I (hb_scan (tl_hub T) cid ns)" and "keeps I (hb_diagnose (tl_hub T) cid sig)"
    and "keeps I (hb_get_logs (tl_hub T) cid ns name dep lines)" and "keeps I (hb_list_nodes (tl_hub T) cid)"
    and "keeps I (hb_clusters (tl_hub T))" and "keeps I (as_append (tl_audit T) e)"
    and "keeps I (as_get (tl_audit T) incident)" and "keeps I (io_call (ev_now (tl_env T)))"
    and "keeps I (io_call (ev_random (tl_env T)))"
  using assms by (simp_all add: hub_reads_def)

lemma keeps_pair [keeps_intros]: "keeps I (\<lambda>s. (Ret (f s), s))"
  by (simp add: keeps_def)

lemma keeps_check_scope [keeps_intros]: "hub_reads T I \<Longrightarrow> keeps I (check_cluster_scope T cid)"
  unfolding check_cluster_scope_def
  by (cases "tl_inventory T") (auto intro: keeps_intros)

lemma keeps_stamp [keeps_intros]: "hub_reads T I \<Longrightarrow> keeps I (stamp T)"
  unfolding stamp_def by (intro keeps_intros)

lemma keeps_record [keeps_intros]: "hub_reads T I \<Longrightarrow> keeps I (record_entry T e out)"
  unfolding record_entry_def by (intro keeps_intros)

lemma keeps_confirm [keeps_intros]: "hub_reads T I \<Longrightarrow> keeps I (confirm_via_logs T i rb)"
  unfolding confirm_via_logs_def Let_def by (intro keeps_intros)

lemma keeps_fallback [keeps_intros]: "hub_reads T I \<Longrightarrow> keeps I (runbook_fallback T i)"
  unfolding runbook_fallback_def fallback_answer_def by (intro keeps_intros)

lemma keeps_scan_tool: "hub_reads T I \<Longrightarrow> keeps I (scan_cluster T cid ns)"
  unfolding scan_cluster_def by (intro keeps_intros)

lemma keeps_list_nodes_tool: "hub_reads T I \<Longrightarrow> keeps I (list_nodes_tool T cid region)"
  unfolding list_nodes_tool_def by (intro keeps_intros)

lemma keeps_list_clusters: "hub_reads T I \<Longrightarrow> keeps I (list_clusters T)"
  unfolding list_clusters_def by (intro keeps_intros)

lemma keeps_postmortem: "hub_reads T I \<Longrightarrow> keeps I (get_postmortem T incident)"
  unfolding get_postmortem_def by (intro keeps_intros)

text \<open>Whether the policy, when its evaluation is not stopped, lets this diagnosis run for real; a decision
  the tool gets lets nothing more through.\<close>

definition lets_run :: "'s tools \<Rightarrow> troubleshoot_in \<Rightarrow> proposed_action list \<Rightarrow> bool" where
  "lets_run T i as = (case decide None (tl_policy T) (run_request T i as) of Inl e \<Rightarrow> False | Inr d \<Rightarrow> allow d \<and> \<not> dry_run d)"

lemma keeps_decision [keeps_intros]: "keeps I (policy_decision T req)"
  by (simp add: policy_decision_def keeps_pair)

lemma keeps_decide_then:
  assumes "\<not> lets_run T i as" and "\<And>d. \<not> (allow d \<and> \<not> dry_run d) \<Longrightarrow> keeps I (k d)"
  shows "keeps I (io_wrap (policy_decision T (run_request T i as)) msg k)"
proof -
  have "I (snd (io_wrap (policy_decision T (run_request T i as)) msg k s))" if s: "I s" for s
  proof (cases "decide (ev_stopped (tl_env T) s) (tl_policy T) (run_request T i as)")
    case (Inl e)
    with s show ?thesis by (simp add: io_wrap_def io_try_def io_bind_def policy_decision_def io_ret_apply)
  next
    case (Inr d)
    with assms(1) have "\<not> (allow d \<and> \<not> dry_run d)"
      using decide_stopped_executes_nothing by (cases "ev_stopped (tl_env T) s") (auto simp: lets_run_def)
    from keepsD [OF assms(2) [OF this] s] Inr show ?thesis
      by (simp add: io_wrap_def io_try_def io_bind_def policy_decision_def)
  qed
  then show ?thesis by (simp add: keeps_def)
qed

lemma keeps_act:
  "hub_reads T I \<Longrightarrow> \<not> (allow d \<and> \<not> dry_run d) \<Longrightarrow> keeps I (act_on_decision T i diag d eid t)"
  by (auto simp: act_on_decision_def Let_def intro: keeps_record)

text \<open>What \<open>troubleshoot\<close> does with a diagnosis a playbook made.\<close>

abbreviation decide_and_act :: "'s tools \<Rightarrow> troubleshoot_in \<Rightarrow> diagnose_response \<Rightarrow> ('s, goerr + troubleshoot_out) io" where
  "decide_and_act T i diag \<equiv>
    io_wrap (policy_decision T (run_request T i (dr_proposed diag))) (''avaliando pol'' @ i_acute @ ''tica: '')
      (\<lambda>d. io_bind (stamp T) (\<lambda>(eid, t). act_on_decision T i diag d eid t))"

lemma troubleshoot_stages:
  assumes r: "hub_reads T I"
    and rest: "\<And>s diag s'. \<lbrakk>I s; hb_diagnose (tl_hub T) (ti_cluster_id i) (Some (in_signal i)) s = (Ret (Inr diag), s'); I s';
        dr_error diag = []; \<not> dr_no_playbook diag\<rbrakk> \<Longrightarrow> I (snd (decide_and_act T i diag s'))"
  shows "keeps I (troubleshoot T i)"
  unfolding troubleshoot_def
proof (rule keeps_try [OF keeps_check_scope [OF r] keeps_pure(1)], rule keeps_try_from)
  fix s diag s'
  assume s: "I s" and d: "hb_diagnose (tl_hub T) (ti_cluster_id i) (Some (in_signal i)) s = (Ret (Inr diag), s')" and s': "I s'"
  show "I (snd ((if dr_error diag \<noteq> [] then io_ret (Inl (agent_error (ti_cluster_id i) (dr_error diag)))
      else if dr_no_playbook diag then runbook_fallback T i else decide_and_act T i diag) s'))"
    using rest [OF s d s'] s' keepsD [OF keeps_fallback [OF r, of i] s'] by (auto simp: io_ret_apply)
qed (intro keeps_pure hub_readsD r)+

lemma decide_and_act_keeps:
  assumes r: "hub_reads T I"
    and x: "lets_run T i (dr_proposed diag) \<Longrightarrow> keeps I (hb_execute (tl_hub T) (ti_cluster_id i) (dr_playbook_id diag) (Some (in_signal i)))"
  shows "keeps I (decide_and_act T i diag)"
proof (cases "lets_run T i (dr_proposed diag)")
  case True
  have "keeps I (act_on_decision T i diag d eid t)" for d eid t
    unfolding act_on_decision_def Let_def by (intro keeps_if keeps_record keeps_wrap keeps_pure x [OF True] r)
  then show ?thesis by (intro keeps_wrap keeps_decision keeps_bind keeps_stamp keeps_case_prod r)
next
  case False
  then show ?thesis by (rule keeps_decide_then) (intro keeps_bind keeps_stamp keeps_case_prod keeps_act r)
qed

lemma keeps_troubleshoot:
  assumes r: "hub_reads T I"
    and no: "\<And>diag s s'. I s \<Longrightarrow> hb_diagnose (tl_hub T) (ti_cluster_id i) (Some (in_signal i)) s = (Ret (Inr diag), s') \<Longrightarrow>
        dr_error diag = [] \<Longrightarrow> \<not> dr_no_playbook diag \<Longrightarrow> \<not> lets_run T i (dr_proposed diag)"
  shows "keeps I (troubleshoot T i)"
  by (rule troubleshoot_stages [OF r], rule keepsD [OF decide_and_act_keeps [OF r]]) (use no in blast)+

text \<open>What lets the caller approve: execution on, and the highest tier.\<close>

definition may_approve :: "'s tools \<Rightarrow> bool" where
  "may_approve T = (tl_execution_flag T \<and> caller_tier (tl_policy T) (tl_caller_groups T) = (tier_prod_admin, True))"

lemma approval_check_Inr:
  "approval_check T e incident name = Inr tier \<longleftrightarrow>
     (\<exists>p. find (\<lambda>p. pr_name p = name) (en_proposed e) = Some p \<and> pr_risk p = risk_high)
     \<and> caller_tier (tl_policy T) (tl_caller_groups T) = (tier_prod_admin, True) \<and> tier = tier_prod_admin"
  by (auto simp: approval_check_def split: option.splits prod.splits if_splits)

lemma keeps_approve:
  assumes r: "hub_reads T I" and no: "\<not> may_approve T"
  shows "keeps I (approve_action T incident name)"
proof (cases "tl_execution_flag T")
  case False
  then show ?thesis by (simp add: approve_action_def)
next
  case True
  with no have "\<exists>err. approval_check T e incident name = Inl err" for e
    using approval_check_Inr [of T e incident name] by (cases "approval_check T e incident name") (auto simp: may_approve_def)
  then have "keeps I (case approval_check T e incident name of Inl err \<Rightarrow> io_ret (Inl err)
      | Inr tier \<Rightarrow> run_approval T e incident name tier)" for e
    by (metis keeps_pure(1) sum.case(1))
  then show ?thesis
    unfolding approve_action_def using True
    by (simp, intro keeps_wrap hub_readsD [OF r] keeps_case_option keeps_pure keeps_try keeps_check_scope r)
qed

lemma approve_keeps_at:
  assumes r: "hub_reads T I" and s: "I s"
    and a: "\<And>e s' pid sig m. may_approve T \<Longrightarrow> as_get (tl_audit T) incident s = (Ret (Inr (Some e)), s') \<Longrightarrow>
      keeps I (hb_approve_action (tl_hub T) (en_cluster_id e) pid sig name m)"
  shows "I (snd (approve_action T incident name s))"
proof (cases "may_approve T")
  case False
  from keepsD [OF keeps_approve [OF r this] s] show ?thesis .
next
  case True
  then have flag: "tl_execution_flag T" by (simp add: may_approve_def)
  have run: "keeps I (run_approval T e incident name tier)"
    if "as_get (tl_audit T) incident s = (Ret (Inr (Some e)), s')" for e s' tier
    unfolding run_approval_def Let_def
    by (intro keeps_wrap keeps_if keeps_pure keeps_bind keeps_stamp keeps_case_prod keeps_record a [OF True that] r)
  show ?thesis
    unfolding approve_action_def if_not_P [OF not_not [THEN iffD2, OF flag]]
  proof (rule wrap_keeps_at [OF hub_readsD(8) [OF r] s])
    fix found s' assume get: "as_get (tl_audit T) incident s = (Ret (Inr found), s')" and s': "I s'"
    show "I (snd ((case found of
        None \<Rightarrow> io_ret (Inl (errorf (''incidente '' @ fmt_q incident @ '' n'' @ a_tilde @ ''o encontrado'')))
      | Some e \<Rightarrow> io_try (check_cluster_scope T (en_cluster_id e)) (\<lambda>err. io_ret (Inl err)) (\<lambda>_.
          case approval_check T e incident name of
            Inl err \<Rightarrow> io_ret (Inl err) | Inr tier \<Rightarrow> run_approval T e incident name tier)) s'))"
    proof (cases found)
      case None
      with s' show ?thesis by (simp add: io_ret_apply)
    next
      case (Some e)
      have "keeps I (io_try (check_cluster_scope T (en_cluster_id e)) (\<lambda>err. io_ret (Inl err)) (\<lambda>_.
          case approval_check T e incident name of
            Inl err \<Rightarrow> io_ret (Inl err) | Inr tier \<Rightarrow> run_approval T e incident name tier))"
        by (intro keeps_try keeps_check_scope keeps_pure keeps_case_sum run [OF get [unfolded Some]] r)
      from keepsD [OF this s'] Some show ?thesis by simp
    qed
  qed
qed

section \<open>What the tools refuse\<close>

lemma check_scope_refused:
  assumes "tl_inventory T = Some lookup" and "tl_scope T = Some sc"
    and "lookup cid s = (Ret (Inr found), s1)"
    and "\<And>info. found = Some info \<Longrightarrow> \<not> allows_account (Some sc) (ci_account info)"
  shows "\<exists>err. check_cluster_scope T cid s = (Ret (Inl err), s1)"
  using assms by (cases found) (auto simp: check_cluster_scope_def scope_check_def io_wrap_def io_try_def io_bind_def io_ret_apply)

lemma check_scope_Inr:
  assumes "check_cluster_scope T cid s = (Ret (Inr (info, known)), s1)" and "tl_scope T = Some sc"
  shows "\<exists>lookup. tl_inventory T = Some lookup \<and> lookup cid s = (Ret (Inr (Some info)), s1)
    \<and> allows_account (Some sc) (ci_account info)"
  using assms
  by (auto simp: check_cluster_scope_def scope_check_def Let_def io_wrap_Inr split: option.splits if_splits)

lemma refused_by_scope:
  assumes "check_cluster_scope T cid s = (Ret (Inl err), s1)"
  shows "scan_cluster T cid ns s = (Ret (Inl err), s1)" and "list_nodes_tool T cid region s = (Ret (Inl err), s1)"
    and "ti_cluster_id i = cid \<Longrightarrow> troubleshoot T i s = (Ret (Inl err), s1)"
  using assms by (simp_all add: scan_cluster_def list_nodes_tool_def troubleshoot_def io_try_def io_bind_def io_ret_apply)

lemma approve_refused_by_scope:
  assumes "as_get (tl_audit T) incident s0 = (Ret (Inr (Some e)), s)" and "tl_execution_flag T"
    and "check_cluster_scope T (en_cluster_id e) s = (Ret (Inl err), s1)"
  shows "approve_action T incident name s0 = (Ret (Inl err), s1)"
  using assms by (simp add: approve_action_def io_wrap_def io_try_def io_bind_def io_ret_apply)

section \<open>What the tools record\<close>

lemma record_entry_Inr:
  "record_entry T e out s = (Ret (Inr r), s') \<longleftrightarrow> as_append (tl_audit T) e s = (Ret None, s') \<and> r = out"
  by (auto simp: record_entry_def io_check_Inr)

lemma act_recorded:
  assumes "act_on_decision T i diag d eid t s = (Ret (Inr out), s')"
  shows "\<exists>e s1. as_append (tl_audit T) e s1 = (Ret None, s') \<and> en_id e = eid \<and> to_incident_id out = eid
    \<and> en_cluster_id e = ti_cluster_id i \<and> en_groups e = tl_caller_groups T \<and> en_signal e = in_signal_record i
    \<and> en_proposed e = map proposed_record_of (dr_proposed diag) \<and> en_decision e = d
    \<and> to_allowed out = allow d \<and> to_dry_run out = dry_run d \<and> en_commands e = to_commands out
    \<and> (en_result e \<noteq> None \<longleftrightarrow> allow d \<and> \<not> dry_run d)
    \<and> (\<forall>r. en_result e = Some r \<longrightarrow> res_resolved r = to_resolved out
         \<and> res_attempts r = map recorded_as (to_attempts out))"
proof (cases "allow d \<and> \<not> dry_run d")
  case True
  with assms have "io_wrap (hb_execute (tl_hub T) (ti_cluster_id i) (dr_playbook_id diag) (Some (in_signal i)))
         (''executando no cluster '' @ ti_cluster_id i @ '': '') (\<lambda>exec.
         if er_error exec \<noteq> [] then io_ret (Inl (agent_error (ti_cluster_id i) (er_error exec)))
         else record_entry T
           (diagnosis_entry T i diag d eid t\<lparr>en_result := Some \<lparr>res_playbook_id = dr_playbook_id diag,
              res_resolved = er_resolved exec, res_attempts = map attempt_record (er_attempts exec)\<rparr>\<rparr>)
           (diagnosis_out diag d eid\<lparr>to_resolved := er_resolved exec, to_attempts := map attempt_out_of (er_attempts exec)\<rparr>)) s
      = (Ret (Inr out), s')"
    by (simp add: act_on_decision_def Let_def)
  then obtain exec :: execute_response and s1 where "(if er_error exec \<noteq> [] then io_ret (Inl (agent_error (ti_cluster_id i) (er_error exec)))
         else record_entry T
           (diagnosis_entry T i diag d eid t\<lparr>en_result := Some \<lparr>res_playbook_id = dr_playbook_id diag,
              res_resolved = er_resolved exec, res_attempts = map attempt_record (er_attempts exec)\<rparr>\<rparr>)
           (diagnosis_out diag d eid\<lparr>to_resolved := er_resolved exec, to_attempts := map attempt_out_of (er_attempts exec)\<rparr>)) s1
      = (Ret (Inr out), s')"
    unfolding io_wrap_Inr by (elim exE conjE) (rule that)
  then have
    app: "as_append (tl_audit T) (diagnosis_entry T i diag d eid t\<lparr>en_result := Some \<lparr>res_playbook_id = dr_playbook_id diag,
        res_resolved = er_resolved exec, res_attempts = map attempt_record (er_attempts exec)\<rparr>\<rparr>) s1 = (Ret None, s')"
    and out: "out = diagnosis_out diag d eid\<lparr>to_resolved := er_resolved exec, to_attempts := map attempt_out_of (er_attempts exec)\<rparr>"
    by (simp_all add: record_entry_Inr split: if_splits)
  show ?thesis by (rule exI, rule exI, rule conjI, rule app) (simp add: out True diagnosis_entry_def diagnosis_out_def)
next
  case False
  let ?cmds = "if allow d then map command_line (dr_proposed diag) else []"
  from False assms have app: "as_append (tl_audit T) (diagnosis_entry T i diag d eid t\<lparr>en_commands := ?cmds\<rparr>) s = (Ret None, s')"
    and out: "out = diagnosis_out diag d eid\<lparr>to_commands := ?cmds\<rparr>"
    by (auto simp: act_on_decision_def Let_def record_entry_Inr diagnosis_entry_def diagnosis_out_def split: if_splits)
  show ?thesis
    by (rule exI, rule exI, rule conjI, rule app) (use False in \<open>simp add: out diagnosis_entry_def diagnosis_out_def\<close>)
qed

lemma run_approval_Inr:
  assumes "run_approval T e incident name tier s = (Ret (Inr out), s')"
  shows "\<exists>resp s1 s2 t. hb_approve_action (tl_hub T) (en_cluster_id e) (en_playbook_id e)
        (Some (record_signal (en_signal e))) name (en_meta e) s = (Ret (Inr resp), s1)
    \<and> aar_error resp = [] \<and> ao_attempt out = attempt_out_of (attempt_of (aar_attempt resp))
    \<and> as_append (tl_audit T) (approval_entry T e incident name tier (attempt_of (aar_attempt resp)) (ao_incident_id out) t) s2 = (Ret None, s')
    \<and> ao_original_id out = incident"
proof -
  from assms obtain resp s1 eid t s2 where
    "hb_approve_action (tl_hub T) (en_cluster_id e) (en_playbook_id e) (Some (record_signal (en_signal e))) name
        (en_meta e) s = (Ret (Inr resp), s1)" "aar_error resp = []"
    "as_append (tl_audit T) (approval_entry T e incident name tier (attempt_of (aar_attempt resp)) eid t) s2 = (Ret None, s')"
    "out = \<lparr>ao_incident_id = eid, ao_original_id = incident, ao_attempt = attempt_out_of (attempt_of (aar_attempt resp))\<rparr>"
    by (auto simp: run_approval_def io_wrap_Inr Let_def io_bind_eq_Ret record_entry_Inr split: if_splits)
  then show ?thesis by (intro exI conjI) simp_all
qed

section \<open>The highest risk that can run\<close>

lemma max_risk_loop_spec:
  assumes "rank = -1 \<and> best = risk_safe \<or> risk_rank best = Some rank \<and> best \<noteq> risk_high" and "oh \<Longrightarrow> rank = -1"
  shows "max_risk_loop as best rank oh =
    (if oh \<and> (\<forall>a \<in> set as. pa_risk a = risk_high) then risk_high
     else if best = risk_medium \<or> (\<exists>a \<in> set as. pa_risk a = risk_medium) then risk_medium else risk_safe)"
  using assms
proof (induction as best rank oh rule: max_risk_loop.induct)
  case (1 best rank oh)
  then show ?case by (auto simp: risk_rank_def split: if_splits)
next
  case (2 a as best rank oh)
  consider "pa_risk a = risk_high" | "pa_risk a = risk_medium" | "pa_risk a = risk_safe"
    | "risk_rank (pa_risk a) = None"
    by (cases "pa_risk a = risk_high"; cases "pa_risk a = risk_medium"; cases "pa_risk a = risk_safe")
      (simp_all add: risk_rank_def)
  then show ?case
  proof cases
    case 1
    with 2 show ?thesis by simp
  next
    case 2
    note m = this
    then have r: "risk_rank (pa_risk a) = Some 1" and n: "pa_risk a \<noteq> risk_high" by (simp_all add: risk_rank_def)
    show ?thesis
    proof (cases "1 > rank")
      case True
      with "2.IH"(3) [OF n r True] m n show ?thesis by (simp add: risk_rank_def)
    next
      case False
      with "2.prems" have "best = risk_medium" by (auto simp: risk_rank_def split: if_splits)
      with "2.IH"(4) [OF n r False] "2.prems" False r m n show ?thesis by (auto simp: risk_rank_def)
    qed
  next
    case 3
    note sf = this
    then have r: "risk_rank (pa_risk a) = Some 0" and n: "pa_risk a \<noteq> risk_high" by (simp_all add: risk_rank_def)
    show ?thesis
    proof (cases "0 > rank")
      case True
      with "2.prems" have "best = risk_safe" by (auto simp: risk_rank_def split: if_splits)
      with "2.IH"(3) [OF n r True] sf True n show ?thesis by (simp add: risk_rank_def)
    next
      case False
      with "2.prems" have "\<not> oh" by auto
      with "2.IH"(4) [OF n r False] "2.prems" False r sf n show ?thesis by auto
    qed
  next
    case 4
    then have n: "pa_risk a \<noteq> risk_high" "pa_risk a \<noteq> risk_medium" by (auto simp: risk_rank_def)
    with "2.IH"(2) [OF n(1) 4] "2.prems" 4 show ?thesis by auto
  qed
qed

lemma max_risk_cases:
  "max_risk as = (if \<forall>a \<in> set as. pa_risk a = risk_high then risk_high
     else if \<exists>a \<in> set as. pa_risk a = risk_medium then risk_medium else risk_safe)"
  by (simp add: max_risk_def max_risk_loop_spec)

end
