(* ===== verification/AgentCore.thy ===== *)
theory AgentCore imports Wire begin

text \<open>
  internal/agentcore: the handler of one cluster-agent, over the client \<open>K\<close> and the registered
  playbooks \<open>ps\<close> (agentcore.go), the scan of a namespace (scan.go) and the log heuristic
  (execformat_heuristic.go).

  The lemmas: what a pod status is classified as; that a scan never indexes an empty status list;
  that diagnosis, scan, logs and nodes only read; that an execution runs no high-risk action; that
  an approval runs the one action named, and panics for the action of core/execformaterror, which
  has no \<open>Run\<close>.
\<close>

section \<open>Diagnose and Execute\<close>

definition from_proto_signal :: "pb_signal \<Rightarrow> signal" where
  "from_proto_signal s = \<lparr>sig_kind = sig_get s sig_kind, sig_namespace = sig_get s sig_namespace,
     sig_name = sig_get s sig_name, sig_node_name = sig_get s sig_node_name\<rparr>"

definition agent_diagnose ::
  "'s kube \<Rightarrow> 's playbook list \<Rightarrow> signal \<Rightarrow> ('s, goerr + ('s playbook \<times> finding \<times> 's ladder)) io" where
  "agent_diagnose K ps sig =
    (case registry_find ps sig of
       None \<Rightarrow> io_ret (Inl (err_no_playbook sig))
     | Some p \<Rightarrow> io_wrap (pb_diagnose p K sig) (''playbook '' @ pb_id p @ '': '') (\<lambda>f.
         io_ret (Inr (p, f, pb_ladder p K f))))"

definition redact_meta :: "meta \<Rightarrow> meta" where
  "redact_meta m = (\<lambda>k. map_option redact_text (m k))"

definition propose :: "'s action \<Rightarrow> proposed_action" where
  "propose a = \<lparr>pa_name = act_name a, pa_description = redact_text (act_description a), pa_risk = act_risk a\<rparr>"

definition no_playbook_diagnosis :: diagnosis where
  "no_playbook_diagnosis = \<lparr>dg_playbook_id = [], dg_summary = [], dg_proposed = [], dg_meta = Map.empty,
     dg_no_playbook = True\<rparr>"

definition handle_diagnose ::
  "'s kube \<Rightarrow> 's playbook list \<Rightarrow> pb_signal \<Rightarrow> ('s, goerr + diagnosis) io" where
  "handle_diagnose K ps psig =
    (let sig = from_proto_signal psig in
     if registry_find ps sig = None then io_ret (Inr no_playbook_diagnosis)
     else io_try (agent_diagnose K ps sig) (\<lambda>e. io_ret (Inl e)) (\<lambda>(p, f, l).
       io_ret (Inr \<lparr>dg_playbook_id = pb_id p, dg_summary = redact_text (fi_summary f),
         dg_proposed = map propose (lad_actions l), dg_meta = redact_meta (fi_meta f),
         dg_no_playbook = False\<rparr>)))"

definition to_attempt :: "attempt_result \<Rightarrow> attempt" where
  "to_attempt a = \<lparr>at_action = ar_action a, at_risk = ar_risk a, at_output = ar_output a,
     at_error = ar_err a, at_validated = ar_validated a, at_rolled_back = ar_rolled_back a,
     at_description = ar_description a, at_skipped = ar_skipped a\<rparr>"

definition msg_mismatch :: "string \<Rightarrow> string \<Rightarrow> string \<Rightarrow> string" where
  "msg_mismatch now what asked = ''playbook mismatch: signal now matches '' @ fmt_q now @ '', '' @ what
     @ '' was requested for '' @ fmt_q asked @ '' (cluster state likely changed)''"

definition handle_execute ::
  "'s kube \<Rightarrow> 's playbook list \<Rightarrow> string \<Rightarrow> pb_signal \<Rightarrow> ('s, goerr + (bool \<times> attempt list)) io" where
  "handle_execute K ps pid psig =
    io_try (agent_diagnose K ps (from_proto_signal psig)) (\<lambda>e. io_ret (Inl e)) (\<lambda>(p, f, l).
      if pb_id p \<noteq> pid then io_ret (Inl (errorf (msg_mismatch (pb_id p) ''execute'' pid)))
      else io_try (run_ladder l) (\<lambda>e. io_ret (Inl e)) (\<lambda>r.
        io_ret (Inr (res_resolved r, map to_attempt (res_attempts r)))))"

section \<open>ApproveAction\<close>

definition approval_ladder ::
  "'s kube \<Rightarrow> 's playbook list \<Rightarrow> 's playbook \<Rightarrow> signal \<Rightarrow> meta \<Rightarrow> ('s, goerr + 's ladder) io" where
  "approval_ladder K ps p sig m =
    (case pb_recheck p of
       Some recheck \<Rightarrow>
         io_wrap (recheck K sig m) (''playbook '' @ pb_id p @ '': rechecando antes de aprovar: '') (\<lambda>r.
           case r of
             None \<Rightarrow> io_ret (Inl (errorf (''playbook '' @ pb_id p @ '': o problema j'' @ a_acute @ '' n'' @ a_tilde
               @ ''o est'' @ a_acute @ '' mais presente '' @ em_dash @ '' aprova'' @ c_cedil @ a_tilde
               @ ''o cancelada, nada a rodar'')))
           | Some (f, l) \<Rightarrow> io_ret (Inr l))
     | None \<Rightarrow> io_try (agent_diagnose K ps sig) (\<lambda>e. io_ret (Inl e)) (\<lambda>(_, _, l). io_ret (Inr l)))"

definition handle_approve_action ::
  "'s kube \<Rightarrow> 's playbook list \<Rightarrow> string \<Rightarrow> pb_signal \<Rightarrow> string \<Rightarrow> meta \<Rightarrow> ('s, goerr + attempt) io" where
  "handle_approve_action K ps pid psig name m =
    (let sig = from_proto_signal psig in
     case registry_find ps sig of
       None \<Rightarrow> io_ret (Inl (err_no_playbook sig))
     | Some p \<Rightarrow>
        if pb_id p \<noteq> pid then io_ret (Inl (errorf (msg_mismatch (pb_id p) ''approve_action'' pid)))
        else io_try (approval_ladder K ps p sig m) (\<lambda>e. io_ret (Inl e)) (\<lambda>l.
          case find (\<lambda>a. act_name a = name) (lad_actions l) of
            None \<Rightarrow> io_ret (Inl (errorf (''action '' @ fmt_q name @ '' n'' @ a_tilde @ ''o est'' @ a_acute
              @ '' na ladder atual do playbook '' @ fmt_q pid)))
          | Some a \<Rightarrow> io_bind (run_approved a) (\<lambda>r. io_ret (Inr (to_attempt r)))))"

section \<open>GetLogs and ListNodes\<close>

definition log_text :: "goerr + string \<Rightarrow> string" where
  "log_text r = (case r of Inl _ \<Rightarrow> [] | Inr l \<Rightarrow> l)"

definition read_logs :: "'s kube \<Rightarrow> string \<Rightarrow> string \<Rightarrow> int \<Rightarrow> ('s, goerr + string) io" where
  "read_logs K ns pod tail =
    io_bind (container_logs K ns pod False tail) (\<lambda>r.
    io_bind (if trim_space (log_text r) = [] then
               io_bind (container_logs K ns pod True tail) (\<lambda>prev.
                 io_ret (if trim_space (log_text prev) \<noteq> [] then prev else r))
             else io_ret r) (\<lambda>r'.
      io_ret (case r' of
          Inl e \<Rightarrow> Inl (wrapf (''lendo log de '' @ slash ns pod @ '': '') e)
        | Inr logs \<Rightarrow> Inr (redact_text logs))))"

definition handle_get_logs ::
  "'s kube \<Rightarrow> string \<Rightarrow> string \<Rightarrow> string \<Rightarrow> int \<Rightarrow> ('s, goerr + string) io" where
  "handle_get_logs K ns name dep tail =
    (let n = (if tail \<le> 0 then 50 else tail) in
     if dep \<noteq> [] then
       io_wrap (pod_for_deployment K ns dep) (''resolvendo pod do deployment '' @ slash ns dep @ '': '')
         (\<lambda>pod. read_logs K ns pod n)
     else read_logs K ns name n)"

definition handle_list_nodes :: "'s kube \<Rightarrow> ('s, goerr + node_info list) io" where
  "handle_list_nodes K = io_wrap (list_nodes K) ''listando nodes: '' (\<lambda>ns. io_ret (Inr ns))"

section \<open>The exec-format heuristic\<close>

definition sig_no_such_file :: re where
  "sig_no_such_file = Cat Bol (Cat (lit_fold ''exec '')
     (Cat (plus (Cls (\<lambda>c. \<not> re_space c \<and> c \<noteq> CHR '':'')))
       (lit_fold '': no such file or directory'')))"

definition exec_format_signatures :: "re list" where
  "exec_format_signatures =
    [lit_fold ''exec format error'', lit_fold ''exec user process caused'', sig_no_such_file]"

definition looks_like_exec_format_error :: "string \<Rightarrow> bool" where
  "looks_like_exec_format_error logs =
    list_ex (\<lambda>line. list_ex (\<lambda>r. match_string r line) exec_format_signatures) (str_split newline logs)"

section \<open>Classification of a pod\<close>

definition scheduling_failure_message :: "pod \<Rightarrow> string" where
  "scheduling_failure_message p =
    (case find (\<lambda>c. cd_type c = ''PodScheduled'' \<and> cd_status c = ''False'') (pod_conditions p) of
       None \<Rightarrow> [] | Some c \<Rightarrow> cd_message c)"

definition transient_waiting_reasons :: "string list" where
  "transient_waiting_reasons = [''ContainerCreating'', ''PodInitializing'']"

definition waiting_is :: "container_status \<Rightarrow> (waiting_state \<Rightarrow> bool) \<Rightarrow> bool" where
  "waiting_is cs P = (case st_waiting (cs_state cs) of None \<Rightarrow> False | Some w \<Rightarrow> P w)"

definition waiting_text :: "container_status \<Rightarrow> string" where
  "waiting_text cs = (case st_waiting (cs_state cs) of None \<Rightarrow> [] | Some w \<Rightarrow> wt_message w)"

definition waiting_reason :: "container_status \<Rightarrow> string" where
  "waiting_reason cs = (case st_waiting (cs_state cs) of None \<Rightarrow> [] | Some w \<Rightarrow> wt_reason w)"

definition term_of :: "container_status \<Rightarrow> terminated_state option" where
  "term_of cs = (case st_terminated (cs_state cs) of
      Some t \<Rightarrow> Some t | None \<Rightarrow> st_terminated (cs_last_state cs))"

text \<open>One iteration of the loop of \<open>classifyPod\<close>: \<open>None\<close> goes on to the next container.\<close>

definition classify_status :: "container_status \<Rightarrow> (string \<times> string) option" where
  "classify_status cs =
    (if st_running (cs_state cs) then None
     else if waiting_is cs (\<lambda>w. wt_reason w \<in> {''ImagePullBackOff'', ''ErrImagePull''})
     then Some (''PodImagePullBackOff'', waiting_text cs)
     else if waiting_is cs (\<lambda>w. wt_reason w \<in> {''CreateContainerConfigError'', ''CreateContainerError''})
     then Some (''PodCreateContainerError'', waiting_text cs)
     else case term_of cs of
       Some t \<Rightarrow>
         if tm_reason t = ''OOMKilled'' then Some (''PodOOMKilled'', tm_message t)
         else if waiting_is cs (\<lambda>w. wt_reason w = ''CrashLoopBackOff'')
         then Some (''PodCrashLoopBackOff'', waiting_text cs)
         else if tm_exit_code t \<noteq> 0 \<and> cs_restart_count cs > 0 then Some (''PodUnknownError'', tm_message t)
         else if waiting_is cs (\<lambda>w. wt_reason w \<noteq> [] \<and> wt_reason w \<notin> set transient_waiting_reasons)
         then Some (''PodUnknownError'', waiting_reason cs @ '': '' @ waiting_text cs)
         else None
     | None \<Rightarrow>
         if waiting_is cs (\<lambda>w. wt_reason w = ''CrashLoopBackOff'')
         then Some (''PodCrashLoopBackOff'', waiting_text cs)
         else if waiting_is cs (\<lambda>w. wt_reason w \<noteq> [] \<and> wt_reason w \<notin> set transient_waiting_reasons)
         then Some (''PodUnknownError'', waiting_reason cs @ '': '' @ waiting_text cs)
         else None)"

fun classify_statuses :: "container_status list \<Rightarrow> (string \<times> string) option" where
  "classify_statuses [] = None"
| "classify_statuses (cs # css) =
    (case classify_status cs of Some r \<Rightarrow> Some r | None \<Rightarrow> classify_statuses css)"

definition classify_pod :: "pod \<Rightarrow> (string \<times> string) option" where
  "classify_pod p =
    (if pod_phase p = ''Pending'' \<and> pod_statuses p = [] then Some (''PodPending'', scheduling_failure_message p)
     else classify_statuses (pod_statuses p))"

section \<open>Scan\<close>

definition msg_index :: string where
  "msg_index = ''index out of range [0] with length 0''"

definition blank_logs :: "goerr + string \<Rightarrow> bool" where
  "blank_logs r = (case r of Inl _ \<Rightarrow> True | Inr l \<Rightarrow> trim_space l = [])"

definition refine_exec_format_error :: "'s kube \<Rightarrow> pod \<Rightarrow> ('s, (string \<times> string) option) io" where
  "refine_exec_format_error K p =
    io_bind (container_logs K (pod_namespace p) (pod_name p) False 20) (\<lambda>r.
    io_bind (if blank_logs r then
               (case pod_statuses p of
                  [] \<Rightarrow> io_panic msg_index
                | cs # _ \<Rightarrow> if cs_restart_count cs > 0
                    then container_logs K (pod_namespace p) (pod_name p) True 20 else io_ret r)
             else io_ret r) (\<lambda>r'.
      io_ret (case r' of
          Inl _ \<Rightarrow> None
        | Inr logs \<Rightarrow> if looks_like_exec_format_error logs
            then Some (''PodExecFormatError'', trim_space logs) else None)))"

definition issue_of :: "pod \<Rightarrow> string \<times> string \<Rightarrow> pod_issue" where
  "issue_of p kd = \<lparr>is_namespace = pod_namespace p, is_name = pod_name p, is_kind = fst kd,
     is_detail = redact_text (snd kd)\<rparr>"

fun scan_pods :: "'s kube \<Rightarrow> pod list \<Rightarrow> pod_issue list \<Rightarrow> ('s, pod_issue list) io" where
  "scan_pods K [] issues = io_ret issues"
| "scan_pods K (p # ps) issues =
    (case classify_pod p of
       None \<Rightarrow> scan_pods K ps issues
     | Some (kind, detail) \<Rightarrow>
         io_bind (if kind = ''PodUnknownError'' then
                    io_bind (refine_exec_format_error K p) (\<lambda>r.
                      io_ret (case r of None \<Rightarrow> (kind, detail) | Some kd \<Rightarrow> kd))
                  else io_ret (kind, detail)) (\<lambda>kd.
           scan_pods K ps (issues @ [issue_of p kd])))"

definition handle_scan :: "'s kube \<Rightarrow> string \<Rightarrow> ('s, goerr + pod_issue list) io" where
  "handle_scan K ns = io_try (list_pods K ns) (\<lambda>e. io_ret (Inl e)) (\<lambda>ps.
     io_bind (scan_pods K ps []) (\<lambda>issues. io_ret (Inr issues)))"

section \<open>The handler\<close>

definition agent_handler :: "'s kube \<Rightarrow> 's playbook list \<Rightarrow> 's handler" where
  "agent_handler K ps =
    \<lparr>h_diagnose = handle_diagnose K ps, h_execute = handle_execute K ps, h_scan = handle_scan K,
     h_approve_action = handle_approve_action K ps, h_get_logs = handle_get_logs K,
     h_list_nodes = handle_list_nodes K\<rparr>"

section \<open>Classification\<close>

lemma classify_status_kind:
  "classify_status cs = Some (kind, detail) \<Longrightarrow>
    kind \<in> {''PodImagePullBackOff'', ''PodCreateContainerError'', ''PodOOMKilled'',
      ''PodCrashLoopBackOff'', ''PodUnknownError''} \<and> \<not> st_running (cs_state cs)"
  by (auto simp: classify_status_def split: if_splits option.splits)

lemma classify_statuses_Some:
  "classify_statuses css = Some r \<Longrightarrow>
    \<exists>pre cs post. css = pre @ cs # post \<and> classify_status cs = Some r \<and> (\<forall>c \<in> set pre. classify_status c = None)"
proof (induction css)
  case Nil
  then show ?case by simp
next
  case (Cons c css)
  show ?case
  proof (cases "classify_status c")
    case None
    with Cons.prems have "classify_statuses css = Some r" by simp
    from Cons.IH [OF this] obtain pre cs post where
      "css = pre @ cs # post" "classify_status cs = Some r" "\<forall>c \<in> set pre. classify_status c = None"
      by blast
    with None show ?thesis by (intro exI [of _ "c # pre"] exI [of _ cs] exI [of _ post]) simp
  next
    case (Some x)
    with Cons.prems show ?thesis by (intro exI [of _ "[]"] exI [of _ c] exI [of _ css]) simp
  qed
qed

lemma classify_statuses_None: "classify_statuses css = None \<longleftrightarrow> (\<forall>cs \<in> set css. classify_status cs = None)"
  by (induction css) (auto split: option.splits)

lemma classify_pod_kind:
  assumes "classify_pod p = Some (kind, detail)"
  shows "kind = ''PodPending'' \<and> pod_statuses p = []
    \<or> kind \<in> {''PodImagePullBackOff'', ''PodCreateContainerError'', ''PodOOMKilled'',
        ''PodCrashLoopBackOff'', ''PodUnknownError''}
      \<and> (\<exists>cs \<in> set (pod_statuses p). \<not> st_running (cs_state cs) \<and> classify_status cs = Some (kind, detail))"
proof (cases "pod_phase p = ''Pending'' \<and> pod_statuses p = []")
  case True
  with assms show ?thesis by (simp add: classify_pod_def)
next
  case False
  with assms have "classify_statuses (pod_statuses p) = Some (kind, detail)"
    by (auto simp: classify_pod_def split: if_splits)
  from classify_statuses_Some [OF this] have
    "\<exists>cs \<in> set (pod_statuses p). classify_status cs = Some (kind, detail)" by auto
  then obtain cs where cs: "cs \<in> set (pod_statuses p)" "classify_status cs = Some (kind, detail)" ..
  from classify_status_kind [OF cs(2)] cs show ?thesis by (intro disjI2 conjI bexI [of _ cs]) simp_all
qed

lemma unknown_has_status: "classify_pod p = Some (''PodUnknownError'', d) \<Longrightarrow> pod_statuses p \<noteq> []"
  by (auto dest!: classify_pod_kind)

section \<open>Scan\<close>

lemma refine_returns:
  assumes "pod_statuses p \<noteq> []"
  shows "returns (refine_exec_format_error K p)"
proof -
  obtain cs css where "pod_statuses p = cs # css" using assms by (cases "pod_statuses p") simp_all
  then show ?thesis
    by (auto simp: refine_exec_format_error_def split: sum.splits intro!: total_intros)
qed

lemma refine_keeps [keeps_intros]: "kube_reads K I \<Longrightarrow> keeps I (refine_exec_format_error K p)"
  unfolding refine_exec_format_error_def
  by (intro keeps_intros) (auto split: list.splits intro!: keeps_intros)

lemma scan_pods_returns: "returns (scan_pods K ps issues)"
proof (induction ps arbitrary: issues)
  case Nil
  then show ?case by simp
next
  case (Cons p ps)
  have "returns (refine_exec_format_error K p)" if "classify_pod p = Some (''PodUnknownError'', d)" for d
    using refine_returns [OF unknown_has_status [OF that]] .
  then show ?case
    by (auto split: option.splits prod.splits intro!: total_intros Cons.IH)
qed

lemma scan_pods_keeps: "kube_reads K I \<Longrightarrow> keeps I (scan_pods K ps issues)"
  by (induction ps arbitrary: issues) (auto split: option.splits intro!: keeps_intros)

lemma handle_scan_returns: "returns (handle_scan K ns)"
  unfolding handle_scan_def by (intro total_intros scan_pods_returns)

lemma handle_scan_keeps: "kube_reads K I \<Longrightarrow> keeps I (handle_scan K ns)"
  unfolding handle_scan_def by (intro keeps_intros scan_pods_keeps)

text \<open>What a scan reports, pod by pod: the classified pods, in order, an unknown error possibly
  refined, every detail redacted.\<close>

definition reports :: "pod \<Rightarrow> pod_issue \<Rightarrow> bool" where
  "reports p i \<longleftrightarrow> (\<exists>kind detail. classify_pod p = Some (kind, detail)
     \<and> is_namespace i = pod_namespace p \<and> is_name i = pod_name p
     \<and> (is_kind i = kind \<and> is_detail i = redact_text detail
        \<or> kind = ''PodUnknownError'' \<and> is_kind i = ''PodExecFormatError'' \<and> redacted (is_detail i)))"

lemma refine_kind:
  "refine_exec_format_error K p s = (Ret (Some (k, d)), s') \<Longrightarrow> k = ''PodExecFormatError''"
  unfolding refine_exec_format_error_def
  by (auto simp: io_bind_eq_Ret case_sum_Some split: if_splits)

lemma scan_pods_reports:
  assumes "scan_pods K ps issues s = (Ret out, s')"
  shows "\<exists>new. out = issues @ new \<and> list_all2 reports (filter (\<lambda>p. classify_pod p \<noteq> None) ps) new"
  using assms
proof (induction ps arbitrary: issues s)
  case Nil
  then show ?case by simp
next
  case (Cons p ps)
  show ?case
  proof (cases "classify_pod p")
    case None
    with Cons show ?thesis by simp
  next
    case (Some kd)
    obtain kind detail where kd: "kd = (kind, detail)" by (cases kd)
    from Cons.prems Some kd obtain kd' s1 where
      first: "(if kind = ''PodUnknownError'' then
          io_bind (refine_exec_format_error K p) (\<lambda>r.
            io_ret (case r of None \<Rightarrow> (kind, detail) | Some kd \<Rightarrow> kd))
        else io_ret (kind, detail)) s = (Ret kd', s1)"
      and rest: "scan_pods K ps (issues @ [issue_of p kd']) s1 = (Ret out, s')"
      by (auto simp: io_bind_eq_Ret)
    have "reports p (issue_of p kd')"
    proof (cases "kind = ''PodUnknownError''")
      case False
      with first Some kd show ?thesis by (auto simp: reports_def issue_of_def)
    next
      case True
      with first obtain r where r: "refine_exec_format_error K p s = (Ret r, s1)"
        and kd': "kd' = (case r of None \<Rightarrow> (kind, detail) | Some kd \<Rightarrow> kd)"
        by (auto simp: io_bind_eq_Ret)
      show ?thesis
      proof (cases r)
        case None
        with kd' Some kd show ?thesis by (auto simp: reports_def issue_of_def)
      next
        case (Some x)
        with refine_kind [of K p s "fst x" "snd x"] r have "fst x = ''PodExecFormatError''" by simp
        with Some kd' True \<open>classify_pod p = Some kd\<close> kd show ?thesis
          by (auto simp: reports_def issue_of_def redacted_def)
      qed
    qed
    moreover from Cons.IH [OF rest] obtain new where
      "out = (issues @ [issue_of p kd']) @ new" "list_all2 reports (filter (\<lambda>p. classify_pod p \<noteq> None) ps) new"
      by blast
    ultimately show ?thesis using Some by (intro exI [of _ "issue_of p kd' # new"]) simp
  qed
qed

lemma handle_scan_reports:
  assumes "handle_scan K ns s = (Ret (Inr issues), s')"
  shows "\<exists>ps s1. k_list_pods K ns [] s = (Inr ps, s1)
    \<and> list_all2 reports (filter (\<lambda>p. classify_pod p \<noteq> None) ps) issues"
proof -
  from assms obtain ps s1 where l: "list_pods K ns s = (Ret (Inr ps), s1)"
    and sc: "scan_pods K ps [] s1 = (Ret issues, s')"
    by (auto simp: handle_scan_def io_try_eq_Ret io_bind_eq_Ret)
  from l have "k_list_pods K ns [] s = (Inr ps, s1)"
    by (auto simp: list_pods_def io_wrap_Inr io_call_def split: prod.splits)
  with scan_pods_reports [OF sc] show ?thesis by auto
qed

section \<open>Logs and nodes\<close>

lemma read_logs_effects:
  shows "returns (read_logs K ns pod t)" and "kube_reads K I \<Longrightarrow> keeps I (read_logs K ns pod t)"
  unfolding read_logs_def by (intro total_intros, (intro keeps_intros; assumption))

lemma handle_get_logs_effects:
  shows "returns (handle_get_logs K ns name dep t)"
    and "kube_reads K I \<Longrightarrow> keeps I (handle_get_logs K ns name dep t)"
  unfolding handle_get_logs_def Let_def
  by (intro total_intros read_logs_effects, (intro keeps_intros read_logs_effects; assumption))

lemma handle_list_nodes_effects:
  shows "returns (handle_list_nodes K)" and "kube_reads K I \<Longrightarrow> keeps I (handle_list_nodes K)"
  unfolding handle_list_nodes_def by (intro total_intros, (intro keeps_intros; assumption))

lemma read_logs_redacted:
  "read_logs K ns pod t s = (Ret (Inr l), s') \<Longrightarrow> \<exists>raw. l = redact_text raw"
  by (auto simp: read_logs_def io_bind_eq_Ret case_sum_Inr)

lemma handle_get_logs_redacted:
  "handle_get_logs K ns name dep t s = (Ret (Inr l), s') \<Longrightarrow> \<exists>raw. l = redact_text raw"
  by (auto simp: handle_get_logs_def Let_def io_wrap_Inr dest: read_logs_redacted split: if_splits)

section \<open>The handler over a set of playbooks\<close>

text \<open>The contract the handler relies on: its registry holds playbooks, and a recheck reads only and
  rebuilds the playbook's own ladder.\<close>

locale playbook_set =
  fixes ps :: "'s playbook list"
  assumes members: "p \<in> set ps \<Longrightarrow> \<exists>kind. playbook p kind"
    and recheck_returns: "p \<in> set ps \<Longrightarrow> pb_recheck p = Some rc \<Longrightarrow> returns (rc K sig m)"
    and recheck_reads: "p \<in> set ps \<Longrightarrow> pb_recheck p = Some rc \<Longrightarrow> kube_reads K I \<Longrightarrow> keeps I (rc K sig m)"
    and recheck_ladder: "p \<in> set ps \<Longrightarrow> pb_recheck p = Some rc \<Longrightarrow>
      rc K sig m s = (Ret (Inr (Some (f, l))), s') \<Longrightarrow> l = pb_ladder p K f \<and> fi_signal f = sig"
begin

lemma found:
  assumes "registry_find ps sig = Some p"
  shows "p \<in> set ps" and "\<exists>kind. playbook p kind"
  using registry_find_in [OF assms] members by auto

lemma agent_diagnose_returns: "returns (agent_diagnose K ps sig)"
proof (cases "registry_find ps sig")
  case None
  then show ?thesis by (simp add: agent_diagnose_def)
next
  case (Some p)
  then obtain kind where "playbook p kind" using found by blast
  from playbook.diagnose_returns [OF this] Some show ?thesis
    by (auto simp: agent_diagnose_def intro!: total_intros)
qed

lemma agent_diagnose_keeps:
  assumes "kube_reads K I"
  shows "keeps I (agent_diagnose K ps sig)"
proof (cases "registry_find ps sig")
  case None
  then show ?thesis by (simp add: agent_diagnose_def)
next
  case (Some p)
  then obtain kind where "playbook p kind" using found by blast
  from playbook.diagnose_reads [OF this assms] Some show ?thesis
    by (auto simp: agent_diagnose_def intro!: keeps_intros)
qed

lemma agent_diagnose_Inr:
  assumes "agent_diagnose K ps sig s = (Ret (Inr (p, f, l)), s')"
  shows "registry_find ps sig = Some p" "l = pb_ladder p K f" "fi_signal f = sig"
proof -
  from assms obtain q where q: "registry_find ps sig = Some q"
    by (auto simp: agent_diagnose_def split: option.splits)
  with assms have d: "pb_diagnose p K sig s = (Ret (Inr f), s')" and p: "p = q" and l: "l = pb_ladder p K f"
    by (auto simp: agent_diagnose_def io_wrap_Inr)
  from q p show "registry_find ps sig = Some p" by simp
  from l show "l = pb_ladder p K f" .
  from found [OF q] p obtain kind where "playbook p kind" by blast
  from playbook.diagnose_signal [OF this d] show "fi_signal f = sig" .
qed

lemma handle_diagnose_returns: "returns (handle_diagnose K ps psig)"
  unfolding handle_diagnose_def Let_def by (intro total_intros agent_diagnose_returns)

lemma handle_diagnose_keeps: "kube_reads K I \<Longrightarrow> keeps I (handle_diagnose K ps psig)"
  unfolding handle_diagnose_def Let_def by (intro keeps_intros agent_diagnose_keeps)

lemma handle_execute_returns:
  assumes "playbook_clock K tm"
  shows "returns (handle_execute K ps pid psig)"
proof -
  have "\<exists>r s'. handle_execute K ps pid psig s = (Ret r, s')" for s
  proof -
    obtain x s1 where x: "agent_diagnose K ps (from_proto_signal psig) s = (Ret x, s1)"
      by (rule returnsE [OF agent_diagnose_returns])
    show ?thesis
    proof (cases x)
      case (Inl e)
      with x show ?thesis by (simp add: handle_execute_def io_try_def io_bind_def io_ret_apply)
    next
      case (Inr v)
      obtain p f l where v: "v = (p, f, l)" by (cases v)
      note d = agent_diagnose_Inr [OF x [unfolded Inr v]]
      from found [OF d(1)] obtain kind where "playbook p kind" by blast
      from playbook.run_gives_result [OF this assms, of f s1] d(2) obtain r s2
        where "run_ladder l s1 = (Ret (Inr r), s2)" by blast
      with x Inr v show ?thesis by (simp add: handle_execute_def io_try_def io_bind_def io_ret_apply)
    qed
  qed
  then show ?thesis by (simp add: returns_def)
qed

lemma handle_execute_Inr:
  assumes "handle_execute K ps pid psig s = (Ret (Inr (resolved, ats)), s')"
  shows "\<exists>p f rs. registry_find ps (from_proto_signal psig) = Some p \<and> pb_id p = pid
    \<and> fi_signal f = from_proto_signal psig
    \<and> run_spec (lad_actions (pb_ladder p K f)) rs resolved \<and> ats = map to_attempt rs"
proof -
  from assms obtain p f l s1 where x: "agent_diagnose K ps (from_proto_signal psig) s = (Ret (Inr (p, f, l)), s1)"
    and rest: "(if pb_id p \<noteq> pid then io_ret (Inl (errorf (msg_mismatch (pb_id p) ''execute'' pid)))
      else io_try (run_ladder l) (\<lambda>e. io_ret (Inl e)) (\<lambda>r.
        io_ret (Inr (res_resolved r, map to_attempt (res_attempts r))))) s1 = (Ret (Inr (resolved, ats)), s')"
    by (auto simp: handle_execute_def io_try_eq_Ret)
  from rest obtain r where r: "run_ladder l s1 = (Ret (Inr r), s')" and pid: "pb_id p = pid"
    and "resolved = res_resolved r" "ats = map to_attempt (res_attempts r)"
    by (auto simp: io_try_eq_Ret split: if_splits)
  with run_ladder_spec [OF r] agent_diagnose_Inr [OF x] show ?thesis by blast
qed

text \<open>Frame rule for an execution: only the actions of the named playbook that are not high-risk run.\<close>

lemma handle_execute_keeps:
  assumes "kube_reads K I"
    and "\<And>p f a. registry_find ps (from_proto_signal psig) = Some p \<Longrightarrow> pb_id p = pid \<Longrightarrow>
      a \<in> set (lad_actions (pb_ladder p K f)) \<Longrightarrow> act_risk a \<noteq> risk_high \<Longrightarrow> action_keeps I a"
  shows "keeps I (handle_execute K ps pid psig)"
proof -
  have "I (snd (handle_execute K ps pid psig s))" if s: "I s" for s
  proof -
    obtain x s1 where x: "agent_diagnose K ps (from_proto_signal psig) s = (Ret x, s1)"
      by (rule returnsE [OF agent_diagnose_returns])
    from keepsD [OF agent_diagnose_keeps [OF assms(1)] s] x have s1: "I s1" by (metis snd_conv)
    show ?thesis
    proof (cases x)
      case (Inl e)
      with x s1 show ?thesis by (simp add: handle_execute_def io_try_def io_bind_def io_ret_apply)
    next
      case (Inr v)
      obtain p f l where v: "v = (p, f, l)" by (cases v)
      note d = agent_diagnose_Inr [OF x [unfolded Inr v]]
      let ?run = "io_try (run_ladder l) (\<lambda>e. io_ret (Inl e)) (\<lambda>r.
        io_ret (Inr (res_resolved r, map to_attempt (res_attempts r))))"
      have "keeps I ?run" if "pb_id p = pid"
        by (intro keeps_intros run_ladder_keeps assms(2) [OF d(1) that]) (simp_all add: d(2))
      from keepsD [OF this s1] x Inr v s1 show ?thesis
        by (simp add: handle_execute_def io_try_def io_bind_def io_ret_apply)
    qed
  qed
  then show ?thesis by (simp add: keeps_def)
qed

subsection \<open>Approvals\<close>

lemma approval_ladder_effects:
  assumes "p \<in> set ps"
  shows "returns (approval_ladder K ps p sig m)" and "kube_reads K I \<Longrightarrow> keeps I (approval_ladder K ps p sig m)"
proof -
  show "returns (approval_ladder K ps p sig m)"
    unfolding approval_ladder_def
    by (cases "pb_recheck p")
      (auto intro!: total_intros agent_diagnose_returns recheck_returns [OF assms])
  show "kube_reads K I \<Longrightarrow> keeps I (approval_ladder K ps p sig m)"
    unfolding approval_ladder_def
    by (cases "pb_recheck p")
      (auto intro!: keeps_intros agent_diagnose_keeps recheck_reads [OF assms])
qed

lemma approval_ladder_Inr:
  assumes p: "registry_find ps sig = Some p" and "approval_ladder K ps p sig m s = (Ret (Inr l), s')"
  shows "\<exists>f. l = pb_ladder p K f \<and> fi_signal f = sig"
proof (cases "pb_recheck p")
  case None
  with assms(2) obtain q f where "agent_diagnose K ps sig s = (Ret (Inr (q, f, l)), s')"
    by (auto simp: approval_ladder_def io_try_eq_Ret)
  from agent_diagnose_Inr [OF this] p show ?thesis by auto
next
  case (Some rc)
  with assms(2) obtain f where "rc K sig m s = (Ret (Inr (Some (f, l))), s')"
    by (auto simp: approval_ladder_def io_wrap_Inr split: option.splits)
  from recheck_ladder [OF found(1) [OF p] Some this] show ?thesis by auto
qed

text \<open>An approval runs the one action of the named playbook that has the name, and nothing else.\<close>

lemma handle_approve_keeps:
  assumes "kube_reads K I"
    and "\<And>p f a. registry_find ps (from_proto_signal psig) = Some p \<Longrightarrow> pb_id p = pid \<Longrightarrow>
      a \<in> set (lad_actions (pb_ladder p K f)) \<Longrightarrow> act_name a = name \<Longrightarrow> action_keeps I a"
  shows "keeps I (handle_approve_action K ps pid psig name m)"
proof -
  let ?sig = "from_proto_signal psig"
  have "I (snd (handle_approve_action K ps pid psig name m s))" if s: "I s" for s
  proof (cases "registry_find ps ?sig")
    case None
    with s show ?thesis by (simp add: handle_approve_action_def)
  next
    case (Some p)
    show ?thesis
    proof (cases "pb_id p = pid")
      case False
      with Some s show ?thesis by (simp add: handle_approve_action_def Let_def)
    next
      case True
      note eff = approval_ladder_effects [OF found(1) [OF Some]]
      obtain x s1 where x: "approval_ladder K ps p ?sig m s = (Ret x, s1)"
        by (rule returnsE [OF eff(1)])
      from keepsD [OF eff(2) [OF assms(1)] s] x have s1: "I s1" by (metis snd_conv)
      show ?thesis
      proof (cases x)
        case (Inl e)
        with x s1 Some True show ?thesis
          by (simp add: handle_approve_action_def Let_def io_try_def io_bind_def io_ret_apply)
      next
        case (Inr l)
        from approval_ladder_Inr [OF Some x [unfolded Inr]] obtain f where l: "l = pb_ladder p K f" by blast
        have "keeps I (case find (\<lambda>a. act_name a = name) (lad_actions l) of
            None \<Rightarrow> io_ret (Inl (errorf (''action '' @ fmt_q name @ '' n'' @ a_tilde @ ''o est'' @ a_acute
              @ '' na ladder atual do playbook '' @ fmt_q pid)))
          | Some a \<Rightarrow> io_bind (run_approved a) (\<lambda>r. io_ret (Inr (to_attempt r))))"
          using assms(2) [OF Some True]
          by (auto simp: run_approved_def l dest!: find_SomeD split: option.splits
              intro!: keeps_intros run_one_keeps)
        from keepsD [OF this s1] x Inr Some True show ?thesis
          by (simp add: handle_approve_action_def Let_def io_try_def io_bind_def io_ret_apply)
      qed
    qed
  qed
  then show ?thesis by (simp add: keeps_def)
qed

lemma handle_approve_Inr:
  assumes "handle_approve_action K ps pid psig name m s = (Ret (Inr at), s')"
  shows "\<exists>p f a r s1. registry_find ps (from_proto_signal psig) = Some p \<and> pb_id p = pid
    \<and> fi_signal f = from_proto_signal psig
    \<and> find (\<lambda>a. act_name a = name) (lad_actions (pb_ladder p K f)) = Some a
    \<and> run_approved a s1 = (Ret r, s') \<and> at = to_attempt r \<and> at_action at = name"
proof -
  let ?sig = "from_proto_signal psig"
  from assms obtain p where p: "registry_find ps ?sig = Some p" and pid: "pb_id p = pid"
    by (auto simp: handle_approve_action_def Let_def split: option.splits if_splits)
  with assms obtain l s1 where l: "approval_ladder K ps p ?sig m s = (Ret (Inr l), s1)"
    and rest: "(case find (\<lambda>a. act_name a = name) (lad_actions l) of
            None \<Rightarrow> io_ret (Inl (errorf (''action '' @ fmt_q name @ '' n'' @ a_tilde @ ''o est'' @ a_acute
              @ '' na ladder atual do playbook '' @ fmt_q pid)))
          | Some a \<Rightarrow> io_bind (run_approved a) (\<lambda>r. io_ret (Inr (to_attempt r)))) s1 = (Ret (Inr at), s')"
    by (auto simp: handle_approve_action_def Let_def io_try_eq_Ret)
  from approval_ladder_Inr [OF p l] obtain f where f: "l = pb_ladder p K f" "fi_signal f = ?sig" by blast
  from rest obtain a r where a: "find (\<lambda>a. act_name a = name) (lad_actions l) = Some a"
    and r: "run_approved a s1 = (Ret r, s')" "at = to_attempt r"
    by (auto simp: io_bind_eq_Ret split: option.splits)
  from find_SomeD [OF a] have nm: "act_name a = name" by simp
  from run_one_ok [OF r(1) [unfolded run_approved_def]] nm r(2) have "at_action at = name"
    by (simp add: attempt_ok_def to_attempt_def)
  with p pid f a r show ?thesis by blast
qed

end

lemma oom_recheck_effects:
  shows "returns (oom_recheck lif K sig m)" and "kube_reads K I \<Longrightarrow> keeps I (oom_recheck lif K sig m)"
  unfolding oom_recheck_def Let_def
  by (intro total_intros, (intro keeps_intros; assumption))

lemma oom_recheck_ladder:
  "oom_recheck lif K sig m s = (Ret (Inr (Some (f, l))), s') \<Longrightarrow> l = oom_ladder lif K f \<and> fi_signal f = sig"
  by (auto simp: oom_recheck_def Let_def io_wrap_Inr split: if_splits)

interpretation agent: playbook_set "default_playbooks ns" for ns
proof unfold_locales
  show "p \<in> set (default_playbooks ns) \<Longrightarrow> \<exists>kind. playbook p kind" for p
    by (rule default_playbook_contract)
next
  fix p :: "'a playbook" and rc
  assume "p \<in> set (default_playbooks ns)" and "pb_recheck p = Some rc"
  then have p: "p = oom_killed (0, 1)" "rc = oom_recheck (0, 1)"
    by (auto simp: default_playbooks_def default_playbook_defs)
  show "returns (rc K sig m)" for K sig m by (simp add: p oom_recheck_effects)
  show "kube_reads K I \<Longrightarrow> keeps I (rc K sig m)" for K sig m I by (simp add: p oom_recheck_effects)
  show "rc K sig m s = (Ret (Inr (Some (f, l))), s') \<Longrightarrow> l = pb_ladder p K f \<and> fi_signal f = sig"
    for K sig m s f l s'
    using oom_recheck_ladder [of "(0, 1)" K sig m s f l s'] by (simp add: p oom_killed_def)
qed

text \<open>A request that runs actions keeps what no call through the client breaks.\<close>

lemma handler_writes_keep:
  assumes "kube_keeps K I"
  shows "keeps I (handle_execute K (default_playbooks ns) pid psig)"
    and "keeps I (handle_approve_action K (default_playbooks ns) pid psig name m)"
proof -
  have "action_keeps I a" if "registry_find (default_playbooks ns) sig = Some p" "a \<in> set (lad_actions (pb_ladder p K f))" for sig p a f
    using default_ladder_keeps [OF assms conjunct1 [OF registry_find_in [OF that(1)]] that(2)] .
  with assms show "keeps I (handle_execute K (default_playbooks ns) pid psig)"
    "keeps I (handle_approve_action K (default_playbooks ns) pid psig name m)"
    by (auto simp: kube_keeps_def intro!: agent.handle_execute_keeps agent.handle_approve_keeps)
qed

section \<open>Particular playbooks\<close>

lemma find_by_kind:
  assumes "registry_find (default_playbooks ns) sig = Some p"
  shows "sig_kind sig = ''PodOOMKilled'' \<Longrightarrow> p = oom_killed (0, 1)"
    and "sig_kind sig = ''PodExecFormatError'' \<Longrightarrow> p = exec_format_error"
  using assms by (simp_all add: registry_find_def default_playbooks_def default_playbook_defs)

text \<open>
  Executing the OOM ladder on its own restarts the pod and nothing else: whatever reads, the clock and
  the deletion of a pod keep, it keeps; so the memory limit only changes on approval.
\<close>

lemma restart_action_keeps:
  assumes reads: "kube_reads K I" and del: "\<And>ns n. keeps I (io_call (k_delete_pod K ns n))"
  shows "action_keeps I (restart_pod_action K ns pod dep b)"
proof -
  have run: "keeps I (as_pair (restart_pod K ns pod))"
    unfolding as_pair_def restart_pod_def by (intro keeps_intros del)
  have poll: "keeps I (wait_for K t check)" if "keeps I check" for t check
    unfolding wait_for_def poll_for_def
    by (intro keeps_intros poll_loop_keeps that kube_reads_calls [OF reads])
  have "keeps I (restart_validate K ns pod dep b)"
    unfolding restart_validate_def wait_replicas_def
    by (intro keeps_intros poll reads)
  with run show ?thesis by (simp add: action_keeps_def restart_pod_action_def)
qed

lemma execute_oom_restarts_only:
  fixes K :: "'a kube"
  assumes "kube_reads K I" and "\<And>ns n. keeps I (io_call (k_delete_pod K ns n))"
    and "sig_get psig sig_kind = ''PodOOMKilled''"
  shows "keeps I (handle_execute K (default_playbooks ns) pid psig)"
proof (rule agent.handle_execute_keeps [OF assms(1)])
  fix p :: "'a playbook" and f and a :: "'a action"
  assume "registry_find (default_playbooks ns) (from_proto_signal psig) = Some p"
  from find_by_kind(1) [OF this] assms(3) have p: "p = oom_killed (0, 1)"
    by (simp add: from_proto_signal_def)
  assume "a \<in> set (lad_actions (pb_ladder p K f))" and "act_risk a \<noteq> risk_high"
  then obtain ns pod dep b where "a = restart_pod_action K ns pod dep b"
    by (auto simp: p oom_killed_def oom_ladder_def Let_def split: if_splits)
  with restart_action_keeps [OF assms(1,2)] show "action_keeps I a" by simp
qed

text \<open>Executing core/execformaterror only reads.\<close>

lemma execute_efe_reads_only:
  fixes K :: "'a kube"
  assumes "kube_reads K I" and "sig_get psig sig_kind = ''PodExecFormatError''"
  shows "keeps I (handle_execute K (default_playbooks ns) pid psig)"
proof (rule agent.handle_execute_keeps [OF assms(1)])
  fix p :: "'a playbook" and f and a :: "'a action"
  assume "registry_find (default_playbooks ns) (from_proto_signal psig) = Some p"
  from find_by_kind(2) [OF this] assms(2) have p: "p = exec_format_error"
    by (simp add: from_proto_signal_def)
  assume "a \<in> set (lad_actions (pb_ladder p K f))" and "act_risk a \<noteq> risk_high"
  then show "action_keeps I a" by (simp add: p exec_format_error_def efe_ladder_def)
qed

text \<open>Approving its action panics, whatever the diagnosis found.\<close>

lemma approve_efe_panics:
  fixes K :: "'a kube"
  assumes "sig_get psig sig_kind = ''PodExecFormatError''"
    and trm: "container_termination K (sig_get psig sig_namespace) (sig_get psig sig_name) s = (Ret (Inr info), s1)"
  shows "\<exists>s'. handle_approve_action K (default_playbooks ns) efe_id psig
    ''corrigir incompatibilidade de arquitetura'' m s = (Panic msg_nil_call, s')"
proof -
  let ?sig = "from_proto_signal psig"
  have find: "registry_find (default_playbooks ns) ?sig = Some (exec_format_error :: 'a playbook)"
    using assms(1) by (simp add: registry_find_def default_playbooks_def default_playbook_defs from_proto_signal_def)
  obtain x s2 where x: "efe_diagnose K ?sig s = (Ret x, s2)" by (rule returnsE [OF efe_diagnose_facts(1)])
  have "\<exists>f. x = Inr f"
  proof -
    define rest where "rest = (\<lambda>info. (let summary = efe_summary ?sig info;
          fin = (\<lambda>extra m. io_ret (Inr \<lparr>fi_signal = ?sig, fi_summary = summary @ extra, fi_meta = m\<rparr>)) in
      io_try (pod_node_name_of K (sig_namespace ?sig) (sig_name ?sig)) (\<lambda>_. fin [] Map.empty) (\<lambda>nodename.
      if nodename = [] then fin [] Map.empty
      else io_try (node_architecture K nodename) (\<lambda>_. fin [] Map.empty) (\<lambda>failed.
      if failed = [] then fin [] Map.empty
      else io_try (cluster_architectures K) (\<lambda>_. fin [] (efe_meta nodename failed [])) (\<lambda>archs.
        let other = efe_other failed archs in
        fin (efe_arch_summary nodename failed other) (efe_meta nodename failed other))))) :: ('a, goerr + finding) io)"
    have "rest info s1 = (Ret x, s2)"
      using x trm by (simp add: efe_diagnose_def io_wrap_def io_try_def io_bind_def from_proto_signal_def
          rest_def)
    then show ?thesis
      unfolding rest_def Let_def
      by (auto simp: io_try_eq_Ret split: if_splits)
  qed
  then obtain f where "x = Inr f" ..
  with x have "approval_ladder K (default_playbooks ns) exec_format_error ?sig m s
      = (Ret (Inr (efe_ladder K f)), s2)"
    by (simp add: approval_ladder_def exec_format_error_def agent_diagnose_def find [unfolded exec_format_error_def]
        io_try_def io_wrap_def io_bind_def io_ret_apply)
  with find show ?thesis
    by (simp add: handle_approve_action_def Let_def exec_format_error_def efe_ladder_def io_try_def io_bind_def
        io_ret_apply efe_action_def run_approved_def run_one_nil_run)
qed

text \<open>An OOM approval whose Deployment has all its replicas ready is refused without a write.\<close>

lemma approve_oom_recovered:
  fixes K :: "'a kube"
  assumes reads: "kube_reads K I" and "I s"
    and kind: "sig_get psig sig_kind = ''PodOOMKilled''"
    and dep: "m ''deployment'' = Some dep" "dep \<noteq> []"
    and want: "deployment_replicas K (sig_get psig sig_namespace) dep s = (Ret (Inr want), s1)"
    and ready: "deployment_ready_replicas K (sig_get psig sig_namespace) dep s1 = (Ret (Inr ready), s2)"
    and "want \<le> ready"
  shows "\<exists>e. handle_approve_action K (default_playbooks ns) oom_id psig name m s = (Ret (Inl e), s2)"
    and "I s2"
proof -
  let ?sig = "from_proto_signal psig"
  have find: "registry_find (default_playbooks ns) ?sig = Some (oom_killed (0, 1) :: 'a playbook)"
    using kind by (simp add: registry_find_def default_playbooks_def default_playbook_defs from_proto_signal_def)
  have "oom_recheck (0, 1) K ?sig m s = (Ret (Inr None), s2)"
    using dep want ready \<open>want \<le> ready\<close>
    by (simp add: oom_recheck_def meta_get_def Let_def io_wrap_def io_try_def io_bind_def io_ret_apply
        from_proto_signal_def)
  then have "\<exists>e. approval_ladder K (default_playbooks ns) (oom_killed (0, 1)) ?sig m s = (Ret (Inl e), s2)"
    by (simp add: approval_ladder_def oom_killed_def io_wrap_def io_try_def io_bind_def io_ret_apply)
  with find show "\<exists>e. handle_approve_action K (default_playbooks ns) oom_id psig name m s = (Ret (Inl e), s2)"
    by (auto simp: handle_approve_action_def Let_def oom_killed_def io_try_def io_bind_def io_ret_apply)
  have "I s1" using keepsD [OF client_reads_keep(6) [OF reads] \<open>I s\<close>] want by (metis snd_conv)
  with keepsD [OF client_reads_keep(7) [OF reads]] ready show "I s2" by (metis snd_conv)
qed

end
