(* ===== verification/RoleCluster.thy ===== *)
theory RoleCluster imports Inventory Transport AgentCore begin

text \<open>
  internal/rolecluster: clusters the hub reaches by assuming an AWS role. A client built by
  \<open>k8sclient.NewFromAWSRole\<close> is a reference of type \<open>'c\<close> (the AWS SDK builds it), \<open>mg_kube\<close> the cluster
  API behind it; the Manager's map of handlers lives in the world, where other requests change it
  too, so the handler's two looks at it are made on the world of their moment.
\<close>

record ('c, 's) manager =
  mg_inventory :: "(string \<Rightarrow> ('s, goerr + cluster_info option) io) option"
  mg_registry :: "'s playbook list"
  mg_new_client :: "string \<Rightarrow> string \<Rightarrow> string \<Rightarrow> ('s, goerr + 'c) io"
  mg_kube :: "'c \<Rightarrow> 's kube"
  mg_handlers :: "'s \<Rightarrow> (string \<rightharpoonup> 'c)"
  mg_set_handlers :: "(string \<rightharpoonup> 'c) \<Rightarrow> 's \<Rightarrow> 's"

text \<open>\<open>NewManager\<close>; the constructor of clients and the place of the map are those of \<open>M\<close>.\<close>

definition new_manager :: "('c, 's) manager \<Rightarrow> (string \<Rightarrow> ('s, goerr + cluster_info option) io) option \<Rightarrow>
    's playbook list \<Rightarrow> ('c, 's) manager" where
  "new_manager M lookup ps = M\<lparr>mg_inventory := lookup, mg_registry := ps\<rparr>"

definition read_only_role_name :: string where "read_only_role_name = ''k8s-ts-mcp-readonly''"

definition role_arn :: "string \<Rightarrow> string" where
  "role_arn account = ''arn:aws:iam::'' @ account @ '':role/'' @ read_only_role_name"

definition manager_cluster_ids :: "'s \<Rightarrow> string list \<times> 's" where
  "manager_cluster_ids s = ([], s)"

text \<open>The \<open>agentcore.Handler\<close> around a client.\<close>

definition role_handler :: "('c, 's) manager \<Rightarrow> 'c \<Rightarrow> 's handler" where
  "role_handler M c = agent_handler (mg_kube M c) (mg_registry M)"

text \<open>The second look: whichever handler landed first is kept.\<close>

definition manager_keep :: "('c, 's) manager \<Rightarrow> string \<Rightarrow> 'c \<Rightarrow> ('s, 's role_answer) io" where
  "manager_keep M cid c = (\<lambda>s.
     case mg_handlers M s cid of
       Some d \<Rightarrow> (Ret (RoleHandler (role_handler M d)), s)
     | None \<Rightarrow> (Ret (RoleHandler (role_handler M c)), mg_set_handlers M ((mg_handlers M s)(cid \<mapsto> c)) s))"

definition manager_build :: "('c, 's) manager \<Rightarrow> string \<Rightarrow> ('s, 's role_answer) io" where
  "manager_build M cid =
    (case mg_inventory M of
       None \<Rightarrow> io_ret RoleNotMine
     | Some lookup \<Rightarrow>
        io_try (lookup cid)
          (\<lambda>e. io_ret (RoleFailed (wrapf (''looking up cluster '' @ cid @ '' in inventory: '') e))) (\<lambda>found.
        case found of
          None \<Rightarrow> io_ret RoleNotMine
        | Some info \<Rightarrow>
            let eks = (if ci_eks_name info = [] then cid else ci_eks_name info) in
            io_try (mg_new_client M (role_arn (ci_account info)) eks (ci_region info))
              (\<lambda>e. io_ret (RoleFailed (wrapf (''building client for cluster '' @ cid @ '' (account ''
                 @ ci_account info @ ''): '') e)))
              (\<lambda>c. manager_keep M cid c)))"

definition manager_handler :: "('c, 's) manager \<Rightarrow> string \<Rightarrow> ('s, 's role_answer) io" where
  "manager_handler M cid = (\<lambda>s.
     case mg_handlers M s cid of
       Some c \<Rightarrow> (Ret (RoleHandler (role_handler M c)), s)
     | None \<Rightarrow> manager_build M cid s)"

text \<open>The map of handlers is read back as it was written.\<close>

definition manager_map :: "('c, 's) manager \<Rightarrow> bool" where
  "manager_map M \<longleftrightarrow> (\<forall>H s. mg_handlers M (mg_set_handlers M H s) = H)"

text \<open>What building a client may do to the map: handlers cached by others appear, none changes.\<close>

definition builds_keep_handlers :: "('c, 's) manager \<Rightarrow> bool" where
  "builds_keep_handlers M \<longleftrightarrow> (\<forall>d c. let I = (\<lambda>s. mg_handlers M s d = Some c) in
      (\<forall>lookup cid. mg_inventory M = Some lookup \<longrightarrow> keeps I (lookup cid))
    \<and> (\<forall>arn eks region. keeps I (mg_new_client M arn eks region)))"

section \<open>Lemmas\<close>

lemma manager_hit:
  "mg_handlers M s cid = Some c \<Longrightarrow> manager_handler M cid s = (Ret (RoleHandler (role_handler M c)), s)"
  by (simp add: manager_handler_def)

lemma manager_keep_keeps:
  assumes "manager_map M"
  shows "keeps (\<lambda>s. mg_handlers M s d = Some c) (manager_keep M cid b)"
  using assms by (auto simp: keeps_def manager_keep_def manager_map_def split: option.splits)

lemma manager_handler_keeps:
  assumes map: "manager_map M" and build: "builds_keep_handlers M"
  shows "keeps (\<lambda>s. mg_handlers M s d = Some c) (manager_handler M cid)"
proof -
  have kb: "keeps (\<lambda>s. mg_handlers M s d = Some c) (manager_build M cid)"
    unfolding manager_build_def Let_def
    using build unfolding builds_keep_handlers_def Let_def
    by (cases "mg_inventory M") (auto intro!: keeps_intros manager_keep_keeps [OF map])
  show ?thesis
    unfolding keeps_def manager_handler_def
    using keepsD [OF kb] by (auto split: option.splits)
qed

lemma manager_handler_cached:
  assumes map: "manager_map M" and h: "manager_handler M cid s = (Ret (RoleHandler h), s')"
  shows "\<exists>c. mg_handlers M s' cid = Some c \<and> h = role_handler M c"
proof (cases "mg_handlers M s cid")
  case (Some c)
  with h show ?thesis by (auto simp: manager_hit)
next
  case None
  with h have "manager_build M cid s = (Ret (RoleHandler h), s')" by (simp add: manager_handler_def)
  then obtain c s1 where "manager_keep M cid c s1 = (Ret (RoleHandler h), s')"
    by (auto simp: manager_build_def Let_def io_try_eq_Ret split: option.splits)
  with map show ?thesis by (auto simp: manager_keep_def manager_map_def split: option.splits)
qed

lemma manager_handler_first:
  assumes "mg_handlers M s cid = None" and "mg_inventory M = Some lookup"
    and "lookup cid s = (Ret (Inr (Some info)), s1)"
    and "mg_new_client M (role_arn (ci_account info)) (if ci_eks_name info = [] then cid else ci_eks_name info)
           (ci_region info) s1 = (Ret (Inr c), s2)"
    and "mg_handlers M s2 cid = None"
  shows "manager_handler M cid s
    = (Ret (RoleHandler (role_handler M c)), mg_set_handlers M ((mg_handlers M s2)(cid \<mapsto> c)) s2)"
  using assms by (simp add: manager_handler_def manager_build_def Let_def io_try_def io_bind_def manager_keep_def)

end
