(* ===== verification/TlsUtil.thy ===== *)
theory TlsUtil imports Prelude begin

text \<open>
  internal/tlsutil: the transport credentials of both ends of the gRPC channel. Reading files and parsing
  PEM are crypto/tls and os: the record \<open>tls_files\<close>. Certificates are of type \<open>'c\<close>, CA pools of type \<open>'p\<close>.
\<close>

record ('c, 'p) tls_files =
  tf_key_pair :: "string \<Rightarrow> string \<Rightarrow> goerr + 'c"
  tf_read :: "string \<Rightarrow> goerr + string"
  tf_parse_pem :: "string \<Rightarrow> 'p option"

text \<open>The fields of \<open>tls.Config\<close> the code sets; a nil pool of roots is the system's.\<close>

record ('c, 'p) tls_config =
  tc_certificate :: 'c
  tc_root_cas :: "'p option"
  tc_client_cas :: "'p option"
  tc_require_client :: bool

datatype ('c, 'p) transport_creds = Insecure | Tls "('c, 'p) tls_config"

definition load_cert_and_ca :: "('c, 'p) tls_files \<Rightarrow> string \<Rightarrow> string \<Rightarrow> string \<Rightarrow> goerr + ('c \<times> 'p)" where
  "load_cert_and_ca F cert key ca =
    (case tf_key_pair F cert key of
       Inl e \<Rightarrow> Inl (wrapf (''loading cert/key pair ('' @ cert @ '', '' @ key @ ''): '') e)
     | Inr c \<Rightarrow> (case tf_read F ca of
         Inl e \<Rightarrow> Inl (wrapf (''reading CA file '' @ ca @ '': '') e)
       | Inr pem \<Rightarrow> (case tf_parse_pem F pem of
           None \<Rightarrow> Inl (errorf (''no valid certificates found in CA file '' @ ca))
         | Some pool \<Rightarrow> Inr (c, pool))))"

definition client_credentials ::
  "('c, 'p) tls_files \<Rightarrow> string \<Rightarrow> string \<Rightarrow> string \<Rightarrow> bool \<Rightarrow> goerr + ('c, 'p) transport_creds" where
  "client_credentials F cert key ca insecure =
    (if insecure then Inr Insecure
     else case load_cert_and_ca F cert key ca of
       Inl e \<Rightarrow> Inl e
     | Inr (c, pool) \<Rightarrow> Inr (Tls \<lparr>tc_certificate = c, tc_root_cas = Some pool, tc_client_cas = None,
         tc_require_client = False\<rparr>))"

definition server_credentials ::
  "('c, 'p) tls_files \<Rightarrow> string \<Rightarrow> string \<Rightarrow> string \<Rightarrow> bool \<Rightarrow> goerr + ('c, 'p) transport_creds" where
  "server_credentials F cert key ca insecure =
    (if insecure then Inr Insecure
     else case load_cert_and_ca F cert key ca of
       Inl e \<Rightarrow> Inl e
     | Inr (c, pool) \<Rightarrow> Inr (Tls \<lparr>tc_certificate = c, tc_root_cas = None, tc_client_cas = Some pool,
         tc_require_client = True\<rparr>))"

text \<open>The pool a CA file holds.\<close>

definition ca_of :: "('c, 'p) tls_files \<Rightarrow> string \<Rightarrow> 'p option" where
  "ca_of F ca = (case tf_read F ca of Inl _ \<Rightarrow> None | Inr pem \<Rightarrow> tf_parse_pem F pem)"

lemma load_cert_and_ca_Inr:
  "load_cert_and_ca F cert key ca = Inr (c, pool) \<longleftrightarrow> tf_key_pair F cert key = Inr c \<and> ca_of F ca = Some pool"
  by (auto simp: load_cert_and_ca_def ca_of_def split: sum.splits option.splits)

text \<open>Without the insecure flag, credentials that are built are TLS over the CA file.\<close>

lemma client_credentials_tls:
  assumes "client_credentials F cert key ca False = Inr creds"
  shows "\<exists>c. creds = Tls c \<and> tc_root_cas c \<noteq> None \<and> tc_root_cas c = ca_of F ca"
  using assms by (auto simp: client_credentials_def load_cert_and_ca_Inr split: sum.splits)

lemma server_credentials_tls:
  assumes "server_credentials F cert key ca False = Inr creds"
  shows "\<exists>c. creds = Tls c \<and> tc_require_client c \<and> tc_client_cas c \<noteq> None \<and> tc_client_cas c = ca_of F ca"
  using assms by (auto simp: server_credentials_def load_cert_and_ca_Inr split: sum.splits)

end
