(* ===== verification/HubServer.thy ===== *)
theory HubServer imports McpTools RoleCluster TlsUtil begin

text \<open>
  cmd/hub-server: how the hub is put together from its flags (main), and the tools of one MCP session,
  which differ from the hub's only by the scope and groups of the caller's token. What main reads from
  files and servers is the record \<open>boot\<close>; a \<open>log.Fatalf\<close> is an error. The start of the listeners is
  not modelled.
\<close>

section \<open>Helpers\<close>

text \<open>\<open>env\<close> is the process environment; an unset variable reads as empty.\<close>

definition env_or :: "(string \<Rightarrow> string) \<Rightarrow> string \<Rightarrow> string \<Rightarrow> string" where
  "env_or env key fallback = (if env key \<noteq> [] then env key else fallback)"

definition split_csv :: "string \<Rightarrow> string list" where
  "split_csv s = (if trim_space s = [] then [] else comma_values s)"

definition to_set :: "string \<Rightarrow> (string \<rightharpoonup> bool)" where
  "to_set csv = map_build (map (\<lambda>x. (x, True)) (split_csv csv))"

definition decode_groups :: "goerr + group_mapping \<Rightarrow> goerr + group_mapping" where
  "decode_groups decoded = (case decoded of Inl e \<Rightarrow> Inl (wrapf ''decoding group mapping: '' e) | Inr m \<Rightarrow> Inr m)"

section \<open>Starting\<close>

record flags =
  fl_cert :: string
  fl_key :: string
  fl_ca :: string
  fl_insecure :: bool
  fl_group_mapping :: string
  fl_audit_path :: string
  fl_execution :: bool
  fl_prod_clusters :: string
  fl_test_groups :: string
  fl_redis_addr :: string
  fl_self_addr :: string
  fl_runbooks :: string
  fl_calico_ns :: string
  fl_inventory_path :: string
  fl_inventory_url :: string
  fl_agent_scopes :: string
  fl_tool_access :: string

record ('c, 'p) boot =
  bo_open :: "string \<Rightarrow> goerr option"
  bo_groups :: "string \<Rightarrow> goerr + group_mapping"
  bo_inventory :: "string \<Rightarrow> goerr + cluster_info list"
  bo_agents :: "string \<Rightarrow> goerr + agent_config list"
  bo_tools :: "string \<Rightarrow> goerr + tool_rule list"
  bo_runbooks :: "string \<Rightarrow> goerr + string"
  bo_dir :: "string \<Rightarrow> string"
  bo_mkdir :: "string \<Rightarrow> goerr option"
  bo_create :: "string \<Rightarrow> goerr option"
  bo_redis :: "string \<Rightarrow> goerr option"
  bo_tls :: "('c, 'p) tls_files"

text \<open>\<open>os.Open\<close>, then \<open>load\<close>.\<close>

definition with_file :: "('c, 'p) boot \<Rightarrow> string \<Rightarrow> string \<Rightarrow> string \<Rightarrow> goerr + 'a \<Rightarrow> goerr + 'a" where
  "with_file B path opening reading loaded =
    (case bo_open B path of
       Some e \<Rightarrow> Inl (wrapf opening e)
     | None \<Rightarrow> (case loaded of Inl e \<Rightarrow> Inl (wrapf reading e) | Inr x \<Rightarrow> Inr x))"

definition load_group_mapping :: "('c, 'p) boot \<Rightarrow> string \<Rightarrow> goerr + group_mapping" where
  "load_group_mapping B path =
    (if path = [] then Inr [''infra-prod-admins'' \<mapsto> tier_prod_admin]
     else case bo_open B path of
       Some e \<Rightarrow> Inl e
     | None \<Rightarrow> decode_groups (bo_groups B path))"

text \<open>Which inventory the hub uses: the API wins over the file; neither, none.\<close>

datatype inventory_source = NoInventory | ApiInventory string | FileInventory "cluster_info list"

definition choose_inventory :: "('c, 'p) boot \<Rightarrow> flags \<Rightarrow> goerr + inventory_source" where
  "choose_inventory B F =
    (if fl_inventory_url F \<noteq> [] then Inr (ApiInventory (fl_inventory_url F))
     else if fl_inventory_path F \<noteq> [] then
       (case with_file B (fl_inventory_path F) ''hub-server: abrindo --cluster-inventory-path: ''
           ''hub-server: lendo --cluster-inventory-path: '' (load_inventory (bo_inventory B (fl_inventory_path F))) of
          Inl e \<Rightarrow> Inl e | Inr cs \<Rightarrow> Inr (FileInventory cs))
     else Inr NoInventory)"

definition inventory_of :: "(string \<Rightarrow> 's http_client) \<Rightarrow> inventory_source \<Rightarrow>
    (string \<Rightarrow> ('s, goerr + cluster_info option) io) option" where
  "inventory_of http src =
    (case src of
       NoInventory \<Rightarrow> None
     | ApiInventory url \<Rightarrow> Some (http_lookup ((http url)\<lparr>hc_base_url := url\<rparr>))
     | FileInventory cs \<Rightarrow> Some (inventory_lookup (Some (new_inventory cs))))"

record ('c, 'p) hub_parts =
  hp_engine :: engine
  hp_shared_registry :: bool
  hp_inventory :: inventory_source
  hp_agents :: "agent_config list option"
  hp_tool_access :: tool_access
  hp_runbooks :: "runbook list option"
  hp_prod_clusters :: "string \<rightharpoonup> bool"
  hp_caller_groups :: "string list"
  hp_execution :: bool
  hp_calico_ns :: string
  hp_creds :: "('c, 'p) transport_creds"

text \<open>The steps of main in order; each may end the process.\<close>

definition check_redis :: "('c, 'p) boot \<Rightarrow> flags \<Rightarrow> goerr option" where
  "check_redis B F =
    (if fl_redis_addr F = [] then None
     else if fl_self_addr F = [] then
       Some (errorf (''hub-server: --self-addr '' @ e_acute @ '' obrigat'' @ o_acute
         @ ''rio quando --redis-addr '' @ e_acute @ '' informado (endere'' @ c_cedil @ ''o desta r'' @ e_acute
         @ ''plica alcan'' @ c_cedil @ a_acute @ ''vel pelas outras)''))
     else case bo_redis B (fl_redis_addr F) of
       Some e \<Rightarrow> Some (wrapf (''hub-server: conectando no Redis '' @ fl_redis_addr F @ '': '') e)
     | None \<Rightarrow> (case client_credentials (bo_tls B) (fl_cert F) (fl_key F) (fl_ca F) (fl_insecure F) of
         Inl e \<Rightarrow> Some (wrapf (''hub-server: carregando credenciais de peer (r'' @ e_acute
           @ ''plica-a-r'' @ e_acute @ ''plica): '') e)
       | Inr _ \<Rightarrow> None))"

definition load_scopes :: "('c, 'p) boot \<Rightarrow> flags \<Rightarrow> goerr + agent_config list option" where
  "load_scopes B F =
    (if fl_agent_scopes F = [] then Inr None
     else case with_file B (fl_agent_scopes F) ''hub-server: abrindo --agent-scopes-config: ''
         ''hub-server: lendo --agent-scopes-config: '' (load_agents (bo_agents B (fl_agent_scopes F))) of
       Inl e \<Rightarrow> Inl e | Inr as \<Rightarrow> Inr (Some as))"

definition load_tool_rules :: "('c, 'p) boot \<Rightarrow> flags \<Rightarrow> goerr + tool_access" where
  "load_tool_rules B F =
    (if fl_tool_access F = [] then Inr Map.empty
     else with_file B (fl_tool_access F) ''hub-server: abrindo --tool-access-config: ''
       ''hub-server: lendo --tool-access-config: '' (load_tool_access (bo_tools B (fl_tool_access F))))"

definition load_runbooks :: "('c, 'p) boot \<Rightarrow> flags \<Rightarrow> goerr + runbook list option" where
  "load_runbooks B F =
    (if fl_runbooks F = [] then Inr None
     else case new_store (fl_runbooks F) (bo_runbooks B (fl_runbooks F)) of
       Inl e \<Rightarrow> Inl (wrapf ''hub-server: carregando runbooks: '' e) | Inr es \<Rightarrow> Inr (Some es))"

definition load_grpc_creds :: "('c, 'p) boot \<Rightarrow> flags \<Rightarrow> goerr + ('c, 'p) transport_creds" where
  "load_grpc_creds B F =
    (case server_credentials (bo_tls B) (fl_cert F) (fl_key F) (fl_ca F) (fl_insecure F) of
       Inl e \<Rightarrow> Inl (wrapf ''hub-server: carregando credenciais mTLS: '' e) | Inr creds \<Rightarrow> Inr creds)"

definition start_hub :: "('c, 'p) boot \<Rightarrow> flags \<Rightarrow> goerr + ('c, 'p) hub_parts" where
  "start_hub B F =
    (case load_group_mapping B (fl_group_mapping F) of Inl e \<Rightarrow> Inl (wrapf ''hub-server: '' e) | Inr groups \<Rightarrow>
    (case new_file_store (bo_dir B) (bo_mkdir B) (bo_create B) (fl_audit_path F) of Some e \<Rightarrow> Inl (wrapf ''hub-server: abrindo audit store: '' e) | None \<Rightarrow>
    (case check_redis B F of Some e \<Rightarrow> Inl e | None \<Rightarrow>
    (case choose_inventory B F of Inl e \<Rightarrow> Inl e | Inr inven \<Rightarrow>
    (case load_scopes B F of Inl e \<Rightarrow> Inl e | Inr agents \<Rightarrow>
    (case load_tool_rules B F of Inl e \<Rightarrow> Inl e | Inr access \<Rightarrow>
    (case load_runbooks B F of Inl e \<Rightarrow> Inl e | Inr books \<Rightarrow>
    (case load_grpc_creds B F of Inl e \<Rightarrow> Inl e | Inr creds \<Rightarrow>
      Inr \<lparr>hp_engine = new_engine groups, hp_shared_registry = (fl_redis_addr F \<noteq> []), hp_inventory = inven,
        hp_agents = agents, hp_tool_access = access, hp_runbooks = books,
        hp_prod_clusters = to_set (fl_prod_clusters F), hp_caller_groups = split_csv (fl_test_groups F),
        hp_execution = fl_execution F, hp_calico_ns = fl_calico_ns F, hp_creds = creds\<rparr>))))))))"

text \<open>
  The hub's tools from these parts. The network is the transport server (its role resolver is there
  exactly when there is an inventory, its registry when Redis is configured); \<open>books\<close> reads the
  runbooks currently loaded, which \<open>WatchAndReload\<close> replaces.
\<close>

definition hub_network :: "('k, 'p) hub_parts \<Rightarrow> (string \<Rightarrow> 's http_client) \<Rightarrow> ('c, 's) manager \<Rightarrow> 's registry_ops \<Rightarrow>
    's network \<Rightarrow> 's network" where
  "hub_network P http M R N = N
    \<lparr>nw_role := (case hp_inventory P of NoInventory \<Rightarrow> None
       | src \<Rightarrow> Some (manager_handler (new_manager M (inventory_of http src) (default_playbooks (hp_calico_ns P))))),
     nw_role_ids := manager_cluster_ids,
     nw_registry := (if hp_shared_registry P then Some R else None),
     nw_peer_creds := hp_shared_registry P\<rparr>"

definition hub_tools :: "('k, 'p) hub_parts \<Rightarrow> (string \<Rightarrow> 's http_client) \<Rightarrow> 's network \<Rightarrow> 's audit_store \<Rightarrow>
    ('s \<Rightarrow> runbook list) \<Rightarrow> 's environment \<Rightarrow> 's tools" where
  "hub_tools P http N A books E =
    \<lparr>tl_hub = network_hub N, tl_policy = hp_engine P, tl_audit = A, tl_execution_flag = hp_execution P,
     tl_prod_clusters = hp_prod_clusters P, tl_caller_groups = hp_caller_groups P,
     tl_runbooks = (case hp_runbooks P of None \<Rightarrow> None | Some _ \<Rightarrow> Some books),
     tl_inventory = inventory_of http (hp_inventory P), tl_scope = None, tl_tool_access = hp_tool_access P,
     tl_env = E\<rparr>"

section \<open>Sessions\<close>

text \<open>\<open>newSessionServer\<close>: \<open>auth\<close> is the Authorization header.\<close>

definition session_tools :: "token_registry option \<Rightarrow> string \<Rightarrow> 's tools \<Rightarrow> 's tools" where
  "session_tools reg auth T =
    (case reg of
       None \<Rightarrow> T
     | Some r \<Rightarrow>
        let scope = (case resolve_token (Some r) (token_from_header auth) of
            Some sc \<Rightarrow> sc | None \<Rightarrow> deny_all_scope) in
        T\<lparr>tl_scope := Some scope, tl_caller_groups := ss_groups scope\<rparr>)"

section \<open>Lemmas\<close>

lemma start_hub_creds:
  assumes "start_hub B F = Inr P"
  shows "server_credentials (bo_tls B) (fl_cert F) (fl_key F) (fl_ca F) (fl_insecure F) = Inr (hp_creds P)
    \<and> hp_execution P = fl_execution F \<and> (hp_shared_registry P \<longrightarrow> check_redis B F = None \<and> fl_self_addr F \<noteq> [])"
proof -
  have "fl_redis_addr F \<noteq> [] \<Longrightarrow> check_redis B F = None \<Longrightarrow> fl_self_addr F \<noteq> []"
    by (auto simp: check_redis_def)
  with assms show ?thesis by (auto simp: start_hub_def load_grpc_creds_def split: sum.splits option.splits)
qed

end
