(* ===== verification/HubProps.thy ===== *)
theory HubProps imports HubServer begin

text \<open>
  What the hub's tools guarantee: who can make them change a cluster, what they record, what they refuse,
  and that they answer. \<open>hub_reads T I\<close> says of a predicate \<open>I\<close> on the world that no call of the tools but
  \<open>Execute\<close> and \<open>ApproveAction\<close> breaks it; what breaks it is then one of these two calls.
\<close>

section \<open>A concrete hub\<close>

text \<open>One cluster, whose agent counts the executions and approvals it is asked for, an audit trail in
memory and a clock that stands still.\<close>

record hub_world =
  hw_runs :: nat
  hw_approvals :: nat
  hw_log :: "audit_entry list"

definition new_world :: hub_world where
  "new_world = \<lparr>hw_runs = 0, hw_approvals = 0, hw_log = []\<rparr>"

definition demo_proposal :: "string \<Rightarrow> string \<Rightarrow> proposed_action" where
  "demo_proposal name r = \<lparr>pa_name = name, pa_description = ''d'', pa_risk = r\<rparr>"

definition demo_diagnosis :: "proposed_action list \<Rightarrow> diagnose_response" where
  "demo_diagnosis as = \<lparr>dr_request_id = [], dr_playbook_id = ''p'', dr_summary = ''s'', dr_proposed = as,
     dr_error = [], dr_no_playbook = False, dr_meta = Map.empty\<rparr>"

definition demo_attempt :: attempt where
  "demo_attempt = \<lparr>at_action = ''a'', at_risk = ''safe'', at_output = [], at_error = [], at_validated = True,
     at_rolled_back = False, at_description = ''d'', at_skipped = False\<rparr>"

definition demo_hub :: "proposed_action list \<Rightarrow> string \<Rightarrow> hub_world hub_ops" where
  "demo_hub as err =
    \<lparr>hb_scan = (\<lambda>cid ns. io_ret (Inr \<lparr>sr_request_id = [], sr_issues = [], sr_error = []\<rparr>)),
     hb_diagnose = (\<lambda>cid sig. io_ret (Inr (demo_diagnosis as))),
     hb_execute = (\<lambda>cid pid sig s. (Ret (Inr \<lparr>er_request_id = [], er_resolved = True, er_attempts = [demo_attempt],
        er_error = err\<rparr>), s\<lparr>hw_runs := Suc (hw_runs s)\<rparr>)),
     hb_get_logs = (\<lambda>cid ns name dep n. io_ret (Inr \<lparr>glr_request_id = [], glr_logs = [], glr_error = []\<rparr>)),
     hb_approve_action = (\<lambda>cid pid sig name m s. (Ret (Inr \<lparr>aar_request_id = [], aar_attempt = Some demo_attempt,
        aar_error = []\<rparr>), s\<lparr>hw_approvals := Suc (hw_approvals s)\<rparr>)),
     hb_list_nodes = (\<lambda>cid. io_ret (Inr \<lparr>lnr_request_id = [], lnr_nodes = [], lnr_error = []\<rparr>)),
     hb_clusters = io_ret (Inr [''c1''])\<rparr>"

definition demo_store :: "hub_world audit_store" where
  "demo_store =
    \<lparr>as_append = (\<lambda>e s. (Ret None, s\<lparr>hw_log := hw_log s @ [e]\<rparr>)),
     as_list = (\<lambda>cid s. (Ret (Inr (filter (\<lambda>e. en_cluster_id e = cid) (hw_log s))), s)),
     as_get = (\<lambda>i s. (Ret (Inr (find (\<lambda>e. en_id e = i) (hw_log s))), s))\<rparr>"

definition demo_env :: "'s environment" where
  "demo_env = \<lparr>ev_upper = (\<lambda>t. t), ev_lower = (\<lambda>t. t), ev_fold = (\<lambda>a b. a = b), ev_now = (\<lambda>s. (7, s)),
     ev_random = (\<lambda>s. (''x'', s)), ev_format_time = fmt_d,
     ev_similarity = \<lparr>sm_lower = (\<lambda>t. t), sm_runes = map (\<lambda>c. ([c], True))\<rparr>, ev_stopped = (\<lambda>s. None)\<rparr>"

definition demo_tools :: "proposed_action list \<Rightarrow> string \<Rightarrow> tier \<Rightarrow> hub_world tools" where
  "demo_tools as err tier =
    \<lparr>tl_hub = demo_hub as err, tl_policy = new_engine [''g'' \<mapsto> tier], tl_audit = demo_store,
     tl_execution_flag = True, tl_prod_clusters = [''c1'' \<mapsto> True], tl_caller_groups = [''g''],
     tl_runbooks = None, tl_inventory = Some (inventory_lookup (Some
        (new_inventory [\<lparr>ci_cluster_id = ''c1'', ci_account = ''111'', ci_region = ''r'', ci_eks_name = []\<rparr>]))),
     tl_scope = None, tl_tool_access = Map.empty, tl_env = demo_env\<rparr>"

definition demo_in :: troubleshoot_in where
  "demo_in = \<lparr>ti_cluster_id = ''c1'', ti_kind = ''k'', ti_namespace = ''n'', ti_name = ''x'', ti_node_name = []\<rparr>"

lemma demo_inventory [simp]:
  "inventory_lookup (Some (new_inventory [\<lparr>ci_cluster_id = ''c1'', ci_account = ''111'', ci_region = ''r'', ci_eks_name = []\<rparr>])) cid s
    = (Ret (Inr (if cid = ''c1'' then Some \<lparr>ci_cluster_id = ''c1'', ci_account = ''111'', ci_region = ''r'', ci_eks_name = []\<rparr>
        else None)), s)"
  by (simp add: inventory_lookup_def new_inventory_def map_build.simps)

lemma demo_reads:
  assumes "\<And>s L. I (s\<lparr>hw_log := L\<rparr>) = I s"
  shows "hub_reads (demo_tools as err tier) I"
  using assms
  by (auto simp: hub_reads_def demo_tools_def demo_hub_def demo_store_def demo_env_def keeps_def io_call_def)

lemma demo_scope: "check_cluster_scope (demo_tools as err tier) ''c1'' s = (Ret (Inr
    (\<lparr>ci_cluster_id = ''c1'', ci_account = ''111'', ci_region = ''r'', ci_eks_name = []\<rparr>, True)), s)"
  by (simp add: check_cluster_scope_def scope_check_def demo_tools_def io_wrap_def io_try_def io_bind_def io_ret_apply)

lemma demo_stamp: "stamp (demo_tools as err tier) s = (Ret (new_id 7 ''x'', 7), s)"
  by (simp add: stamp_def demo_tools_def demo_env_def io_bind_def io_call_def io_ret_apply)

lemma demo_calls:
  "hb_diagnose (tl_hub (demo_tools as err tier)) cid sig s = (Ret (Inr (demo_diagnosis as)), s)"
  "hb_execute (tl_hub (demo_tools as err tier)) cid pid sig s = (Ret (Inr \<lparr>er_request_id = [], er_resolved = True,
      er_attempts = [demo_attempt], er_error = err\<rparr>), s\<lparr>hw_runs := Suc (hw_runs s)\<rparr>)"
  "hb_approve_action (tl_hub (demo_tools as err tier)) cid pid sig name m s = (Ret (Inr \<lparr>aar_request_id = [],
      aar_attempt = Some demo_attempt, aar_error = []\<rparr>), s\<lparr>hw_approvals := Suc (hw_approvals s)\<rparr>)"
  "as_append (tl_audit (demo_tools as err tier)) e s = (Ret None, s\<lparr>hw_log := hw_log s @ [e]\<rparr>)"
  "as_get (tl_audit (demo_tools as err tier)) j s = (Ret (Inr (find (\<lambda>e. en_id e = j) (hw_log s))), s)"
  by (simp_all add: demo_tools_def demo_hub_def demo_store_def)

lemma demo_in_cluster [simp]: "ti_cluster_id demo_in = ''c1''"
  by (simp add: demo_in_def)

lemma demo_flag: "tl_execution_flag (demo_tools as err tier)"
  by (simp add: demo_tools_def)

lemma demo_tier: "highest_tier (eng_groups (tl_policy (demo_tools as err tier_prod_admin)))
    (tl_caller_groups (demo_tools as err tier_prod_admin)) = (tier_prod_admin, True)"
  by (simp add: demo_tools_def new_engine_def highest_tier_def tier_rank_def tier_defs)

lemma demo_caller: "caller_tier (tl_policy (demo_tools as err tier_prod_admin))
    (tl_caller_groups (demo_tools as err tier_prod_admin)) = (tier_prod_admin, True)"
  using demo_tier by (simp add: caller_tier_def)

lemma demo_prod: "cluster_env_of (demo_tools as err tier) ''c1'' = env_prod"
  by (simp add: cluster_env_of_def demo_tools_def)

lemma demo_not_stopped: "ev_stopped (tl_env (demo_tools as err tier)) s = None"
  by (simp add: demo_tools_def demo_env_def)

text \<open>The steps of \<open>troubleshoot\<close> for a diagnosis, one after the other.\<close>

lemma troubleshoot_steps:
  assumes "check_cluster_scope T (ti_cluster_id i) s = (Ret (Inr x), s1)"
    and "hb_diagnose (tl_hub T) (ti_cluster_id i) (Some (in_signal i)) s1 = (Ret (Inr diag), s2)"
    and "dr_error diag = []" and "\<not> dr_no_playbook diag"
    and "ev_stopped (tl_env T) s2 = None" and "decide None (tl_policy T) (run_request T i (dr_proposed diag)) = Inr d"
    and "stamp T s2 = (Ret (eid, t), s3)"
  shows "troubleshoot T i s = act_on_decision T i diag d eid t s3"
  using assms by (simp add: troubleshoot_def policy_decision_def io_wrap_def io_try_def io_bind_def)

lemma demo_troubleshoot:
  assumes "decide None (tl_policy (demo_tools as err tier)) (run_request (demo_tools as err tier) demo_in as) = Inr d"
  shows "troubleshoot (demo_tools as err tier) demo_in s
    = act_on_decision (demo_tools as err tier) demo_in (demo_diagnosis as) d (new_id 7 ''x'') 7 s"
proof (rule troubleshoot_steps)
  show "check_cluster_scope (demo_tools as err tier) (ti_cluster_id demo_in) s
      = (Ret (Inr (\<lparr>ci_cluster_id = ''c1'', ci_account = ''111'', ci_region = ''r'', ci_eks_name = []\<rparr>, True)), s)"
    using demo_scope by simp
qed (use assms in \<open>simp_all add: demo_calls demo_diagnosis_def demo_stamp demo_not_stopped\<close>)

section \<open>Who can change a cluster\<close>

text \<open>The policy's answer for a diagnosis, in terms of the caller, the cluster and the risks proposed.\<close>

definition administers :: "tier \<Rightarrow> cluster_env \<Rightarrow> bool" where
  "administers t env \<longleftrightarrow> (if env = env_prod then t = tier_prod_admin else t \<in> {tier_nonprod_admin, tier_prod_admin})"

lemma lets_run_iff:
  "lets_run T i as \<longleftrightarrow> tl_execution_flag T
    \<and> (\<exists>t. highest_tier (eng_groups (tl_policy T)) (tl_caller_groups T) = (t, True) \<and> t \<noteq> tier_read_only
        \<and> (\<exists>a \<in> set as. pa_risk a \<noteq> risk_high)
        \<and> ((\<exists>a \<in> set as. pa_risk a = risk_medium) \<longrightarrow> administers t (cluster_env_of T (ti_cluster_id i))))"
proof (cases "highest_tier (eng_groups (tl_policy T)) (tl_caller_groups T)")
  case (Pair t ok)
  show ?thesis
  proof (cases ok)
    case True
    with Pair have "highest_tier (eng_groups (tl_policy T)) (rq_groups (run_request T i as)) = (t, True)"
      by (simp add: run_request_def)
    from decide_table [OF this] obtain d where d: "decide None (tl_policy T) (run_request T i as) = Inr d"
      and al: "allow d \<longleftrightarrow> max_risk as = ''high'' \<or> t = ''readonly'' \<or> max_risk as = ''safe''
         \<or> max_risk as = ''medium'' \<and>
           (cluster_env_of T (ti_cluster_id i) = ''nonprod'' \<and> t \<in> {''nonprod-admin'', ''prod-admin''}
            \<or> cluster_env_of T (ti_cluster_id i) = ''prod'' \<and> t = ''prod-admin'')"
      and dry: "\<not> dry_run d \<longleftrightarrow> tl_execution_flag T \<and> t \<noteq> ''readonly'' \<and>
         (max_risk as = ''safe''
         \<or> max_risk as = ''medium'' \<and>
           (cluster_env_of T (ti_cluster_id i) = ''nonprod'' \<and> t \<in> {''nonprod-admin'', ''prod-admin''}
            \<or> cluster_env_of T (ti_cluster_id i) = ''prod'' \<and> t = ''prod-admin''))"
      by (auto simp: run_request_def)
    have env: "cluster_env_of T (ti_cluster_id i) \<in> {''prod'', ''nonprod''}"
      by (simp add: cluster_env_of_def env_defs)
    have "lets_run T i as \<longleftrightarrow> allow d \<and> \<not> dry_run d" by (simp add: lets_run_def d)
    also have "\<dots> \<longleftrightarrow> tl_execution_flag T \<and> t \<noteq> tier_read_only \<and> (max_risk as = risk_safe
        \<or> max_risk as = risk_medium \<and> administers t (cluster_env_of T (ti_cluster_id i)))"
      using env unfolding al dry by (auto simp: risk_defs tier_defs env_defs administers_def)
    also have "\<dots> \<longleftrightarrow> tl_execution_flag T \<and> t \<noteq> tier_read_only \<and> (\<exists>a \<in> set as. pa_risk a \<noteq> risk_high)
        \<and> ((\<exists>a \<in> set as. pa_risk a = risk_medium) \<longrightarrow> administers t (cluster_env_of T (ti_cluster_id i)))"
      unfolding max_risk_cases by (auto simp del: risk_distinct simp: risk_distinct)
    finally show ?thesis using Pair True by simp
  next
    case False
    with Pair show ?thesis by (simp add: lets_run_def decide_def run_request_def no_group_decision_def)
  qed
qed

text \<open>Whatever \<open>troubleshoot\<close> changes beyond what diagnosing and recording change, it changes under the
  documented conditions: execution is switched on, the caller has a tier other than readonly, the
  agent's diagnosis proposed an action that is not of high risk, and if it proposed one of medium
  risk, the caller's tier administers the cluster's environment.\<close>

theorem troubleshoot_changes_only_authorised:
  assumes reads: "hub_reads T I" and "I s" and "\<not> I (snd (troubleshoot T i s))"
  shows "tl_execution_flag T
    \<and> (\<exists>t. highest_tier (eng_groups (tl_policy T)) (tl_caller_groups T) = (t, True) \<and> t \<noteq> tier_read_only
        \<and> (\<exists>diag s1 s2. I s1 \<and> hb_diagnose (tl_hub T) (ti_cluster_id i) (Some (in_signal i)) s1 = (Ret (Inr diag), s2)
            \<and> dr_error diag = [] \<and> (\<exists>a \<in> set (dr_proposed diag). pa_risk a \<noteq> risk_high)
            \<and> ((\<exists>a \<in> set (dr_proposed diag). pa_risk a = risk_medium)
                 \<longrightarrow> administers t (cluster_env_of T (ti_cluster_id i)))))"
proof -
  have "\<not> keeps I (troubleshoot T i)" using assms(2,3) by (auto simp: keeps_def)
  then obtain diag s1 s2 where "I s1" "hb_diagnose (tl_hub T) (ti_cluster_id i) (Some (in_signal i)) s1 = (Ret (Inr diag), s2)"
    and "dr_error diag = []" "lets_run T i (dr_proposed diag)"
    using keeps_troubleshoot [OF reads] by blast
  then show ?thesis unfolding lets_run_iff by blast
qed

lemma prod_admin_facts: "administers tier_prod_admin env_prod" "tier_prod_admin \<noteq> tier_read_only"
  by (simp_all add: administers_def tier_defs)

lemma demo_lets_run: "\<exists>d. decide None (tl_policy (demo_tools [demo_proposal ''a'' risk_medium] err tier_prod_admin))
      (run_request (demo_tools [demo_proposal ''a'' risk_medium] err tier_prod_admin) demo_in [demo_proposal ''a'' risk_medium]) = Inr d
    \<and> allow d \<and> \<not> dry_run d"
proof -
  have "lets_run (demo_tools [demo_proposal ''a'' risk_medium] err tier_prod_admin) demo_in [demo_proposal ''a'' risk_medium]"
    by (simp add: lets_run_iff demo_tier demo_prod demo_flag prod_admin_facts demo_proposal_def)
  then show ?thesis by (auto simp: lets_run_def split: sum.splits)
qed

lemma demo_hub_run:
  "hw_runs (snd (troubleshoot (demo_tools [demo_proposal ''a'' risk_medium] err tier_prod_admin) demo_in new_world)) = 1"
proof -
  obtain d where d: "decide None (tl_policy (demo_tools [demo_proposal ''a'' risk_medium] err tier_prod_admin))
      (run_request (demo_tools [demo_proposal ''a'' risk_medium] err tier_prod_admin) demo_in [demo_proposal ''a'' risk_medium]) = Inr d"
    "allow d" "\<not> dry_run d" using demo_lets_run by blast
  from d(2,3) show ?thesis
    by (simp add: demo_troubleshoot [OF d(1)] act_on_decision_def Let_def io_wrap_def io_try_def io_bind_def demo_calls
        record_entry_def io_check_def io_ret_apply new_world_def)
qed

theorem troubleshoot_changes_only_authorised_witness:
  "administers tier_prod_admin env_prod \<and>
   hw_runs (snd (troubleshoot (demo_tools [demo_proposal ''a'' risk_medium] [] tier_prod_admin) demo_in new_world)) = 1"
proof -
  let ?T = "demo_tools [demo_proposal ''a'' risk_medium] [] tier_prod_admin"
  have "hub_reads ?T (\<lambda>w. hw_runs w = 0)" by (rule demo_reads) simp
  from troubleshoot_changes_only_authorised [OF this, of new_world demo_in] demo_hub_run [of "[]"]
  obtain t dg s1 s2 where t: "highest_tier (eng_groups (tl_policy ?T)) (tl_caller_groups ?T) = (t, True)"
    and dg: "hb_diagnose (tl_hub ?T) (ti_cluster_id demo_in) (Some (in_signal demo_in)) s1 = (Ret (Inr dg), s2)"
    and adm: "(\<exists>a \<in> set (dr_proposed dg). pa_risk a = risk_medium) \<longrightarrow> administers t (cluster_env_of ?T (ti_cluster_id demo_in))"
    by (simp only: new_world_def hub_world.simps) auto
  from t have "t = tier_prod_admin" by (simp add: demo_tier)
  moreover from dg have "dg = demo_diagnosis [demo_proposal ''a'' risk_medium]" by (simp add: demo_calls)
  ultimately have "administers tier_prod_admin env_prod"
    using adm by (simp add: demo_prod demo_diagnosis_def demo_proposal_def)
  with demo_hub_run show ?thesis by blast
qed

section \<open>Approvals\<close>

text \<open>C7: \<open>approve_action\<close> changes something beyond the audit trail only when execution is switched on, the
  caller's highest tier is prod-admin, and the incident read from the audit trail proposed an action
  of that name whose first proposal is of high risk, on a cluster the caller's scope allows.\<close>

theorem approve_changes_only_authorised:
  assumes reads: "hub_reads T I" and start: "I s" and changed: "\<not> I (snd (approve_action T incident name s))"
  shows "tl_execution_flag T \<and> caller_tier (tl_policy T) (tl_caller_groups T) = (tier_prod_admin, True)
    \<and> (\<exists>e p s1 s2 x. as_get (tl_audit T) incident s = (Ret (Inr (Some e)), s1)
         \<and> find (\<lambda>p. pr_name p = name) (en_proposed e) = Some p \<and> pr_risk p = risk_high
         \<and> check_cluster_scope T (en_cluster_id e) s1 = (Ret (Inr x), s2))"
proof -
  have may: "may_approve T" using keeps_approve [OF reads] start changed by (auto simp: keeps_def)
  then have flag: "tl_execution_flag T" by (simp add: may_approve_def)
  obtain o1 s1 where g: "as_get (tl_audit T) incident s = (o1, s1)" by (cases "as_get (tl_audit T) incident s")
  have I1: "I s1" using keepsD [OF hub_readsD(8) [OF reads] start] g by (metis snd_conv)
  note unf = approve_action_def flag io_wrap_def io_try_def io_bind_def g
  have "\<exists>e. o1 = Ret (Inr (Some e))"
    using changed I1 by (auto simp: unf split: outcome.splits sum.splits option.splits)
  then obtain e where e: "o1 = Ret (Inr (Some e))" by blast
  obtain o2 s2 where c: "check_cluster_scope T (en_cluster_id e) s1 = (o2, s2)"
    by (cases "check_cluster_scope T (en_cluster_id e) s1")
  have I2: "I s2" using keepsD [OF keeps_check_scope [OF reads] I1] c by (metis snd_conv)
  have "\<exists>x. o2 = Ret (Inr x)"
    using changed I2 by (auto simp: unf e c split: outcome.splits sum.splits)
  then obtain x where x: "o2 = Ret (Inr x)" by blast
  have "\<exists>tier. approval_check T e incident name = Inr tier"
    using changed I2 by (cases "approval_check T e incident name") (auto simp: unf e c x)
  then obtain p where "find (\<lambda>p. pr_name p = name) (en_proposed e) = Some p" "pr_risk p = risk_high"
    unfolding approval_check_Inr by blast
  with may g e c x show ?thesis unfolding may_approve_def by blast
qed

definition demo_incident :: audit_entry where
  "demo_incident = \<lparr>en_id = ''i'', en_time = 1, en_cluster_id = ''c1'', en_groups = [], en_playbook_id = ''p'',
     en_summary = [], en_decision = \<lparr>allow = True, dry_run = True, reason = [], dec_tier = []\<rparr>,
     en_signal = no_signal, en_meta = Map.empty,
     en_proposed = [\<lparr>pr_name = ''a'', pr_description = [], pr_risk = risk_high\<rparr>], en_commands = [], en_result = None\<rparr>"

definition incident_world :: hub_world where
  "incident_world = \<lparr>hw_runs = 0, hw_approvals = 0, hw_log = [demo_incident]\<rparr>"

lemma demo_approve:
  "\<exists>out. approve_action (demo_tools [] [] tier_prod_admin) ''i'' ''a'' incident_world
     = (Ret (Inr out), incident_world\<lparr>hw_approvals := 1, hw_log := [demo_incident,
         approval_entry (demo_tools [] [] tier_prod_admin) demo_incident ''i'' ''a'' tier_prod_admin demo_attempt (new_id 7 ''x'') 7]\<rparr>)
     \<and> ao_attempt out = attempt_out_of demo_attempt \<and> ao_incident_id out = new_id 7 ''x''"
proof -
  have c: "approval_check (demo_tools [] [] tier_prod_admin) demo_incident ''i'' ''a'' = Inr tier_prod_admin"
    by (simp add: approval_check_Inr demo_caller demo_incident_def)
  have s: "check_cluster_scope (demo_tools [] [] tier_prod_admin) (en_cluster_id demo_incident) w
      = (Ret (Inr (\<lparr>ci_cluster_id = ''c1'', ci_account = ''111'', ci_region = ''r'', ci_eks_name = []\<rparr>, True)), w)" for w
    using demo_scope by (simp add: demo_incident_def)
  have i: "en_id demo_incident = ''i''" by (simp add: demo_incident_def)
  show ?thesis
    by (simp add: approve_action_def demo_flag io_wrap_def io_try_def io_bind_def demo_calls incident_world_def i s c
        run_approval_def attempt_of_def Let_def demo_stamp record_entry_def io_check_def io_ret_apply)
qed

theorem approve_changes_only_authorised_witness:
  "hw_approvals (snd (approve_action (demo_tools [] [] tier_prod_admin) ''i'' ''a'' incident_world)) = 1
   \<and> (\<exists>(e :: audit_entry) p. find (\<lambda>p. pr_name p = ''a'') (en_proposed e) = Some p \<and> pr_risk p = risk_high)"
proof -
  have r: "hub_reads (demo_tools [] [] tier_prod_admin) (\<lambda>w. hw_approvals w = 0)" by (rule demo_reads) simp
  have a: "hw_approvals (snd (approve_action (demo_tools [] [] tier_prod_admin) ''i'' ''a'' incident_world)) = 1"
    using demo_approve by auto
  have "hw_approvals incident_world = 0" by (simp add: incident_world_def)
  from approve_changes_only_authorised [OF r this, of "''i''" "''a''"] a show ?thesis by auto
qed


section \<open>The audit trail\<close>

lemma fallback_recorded:
  assumes "runbook_fallback T i s = (Ret (Inr out), s')"
  shows "\<exists>e s1. as_append (tl_audit T) e s1 = (Ret None, s') \<and> en_id e = to_incident_id out
    \<and> en_cluster_id e = ti_cluster_id i \<and> en_groups e = tl_caller_groups T \<and> to_allowed out = allow (en_decision e)
    \<and> to_dry_run out = dry_run (en_decision e) \<and> en_commands e = to_commands out
    \<and> (en_result e \<noteq> None \<longleftrightarrow> to_allowed out \<and> \<not> to_dry_run out)
    \<and> (\<forall>r. en_result e = Some r \<longrightarrow> res_resolved r = to_resolved out
         \<and> res_attempts r = map recorded_as (to_attempts out))"
  using assms
  by (auto simp: runbook_fallback_def io_bind_eq_Ret record_entry_Inr fallback_decision_def)

text \<open>C18: an answer of \<open>troubleshoot\<close> is given only once the entry with its incident id is in the audit
  trail, and the entry says what the answer says: the cluster, the caller's groups, whether it was
  allowed and a dry run, the proposed commands, and a result with the attempts made exactly when the
  actions were run.\<close>

theorem troubleshoot_recorded:
  assumes "troubleshoot T i s = (Ret (Inr out), s')"
  shows "\<exists>e s1. as_append (tl_audit T) e s1 = (Ret None, s') \<and> en_id e = to_incident_id out
    \<and> en_cluster_id e = ti_cluster_id i \<and> en_groups e = tl_caller_groups T \<and> to_allowed out = allow (en_decision e)
    \<and> to_dry_run out = dry_run (en_decision e) \<and> en_commands e = to_commands out
    \<and> (en_result e \<noteq> None \<longleftrightarrow> to_allowed out \<and> \<not> to_dry_run out)
    \<and> (\<forall>r. en_result e = Some r \<longrightarrow> res_resolved r = to_resolved out
         \<and> res_attempts r = map recorded_as (to_attempts out))"
proof -
  from assms obtain diag s1 where
    "(if dr_error diag \<noteq> [] then io_ret (Inl (agent_error (ti_cluster_id i) (dr_error diag)))
      else if dr_no_playbook diag then runbook_fallback T i
      else io_wrap (policy_decision T (run_request T i (dr_proposed diag))) (''avaliando pol'' @ i_acute @ ''tica: '')
        (\<lambda>d. io_bind (stamp T) (\<lambda>(eid, t). act_on_decision T i diag d eid t))) s1 = (Ret (Inr out), s')"
    by (auto simp: troubleshoot_def io_try_eq_Ret)
  then consider "runbook_fallback T i s1 = (Ret (Inr out), s')"
    | d eid t s2 where "act_on_decision T i diag d eid t s2 = (Ret (Inr out), s')"
    by (auto simp: io_wrap_Inr io_bind_eq_Ret split: if_splits)
  then show ?thesis
  proof cases
    case 1
    then show ?thesis by (rule fallback_recorded)
  next
    case (2 d eid t s2)
    from act_recorded [OF this] obtain e s3 where "as_append (tl_audit T) e s3 = (Ret None, s')" "en_id e = eid"
      "to_incident_id out = eid" "en_cluster_id e = ti_cluster_id i" "en_groups e = tl_caller_groups T"
      "en_decision e = d" "to_allowed out = allow d" "to_dry_run out = dry_run d" "en_commands e = to_commands out"
      "en_result e \<noteq> None \<longleftrightarrow> allow d \<and> \<not> dry_run d"
      "\<forall>r. en_result e = Some r \<longrightarrow> res_resolved r = to_resolved out
         \<and> res_attempts r = map recorded_as (to_attempts out)"
      by blast
    then show ?thesis by (intro exI [of _ e] exI [of _ s3]) simp
  qed
qed

lemma demo_answer_run:
  "\<exists>out s'. troubleshoot (demo_tools [demo_proposal ''a'' risk_medium] [] tier_prod_admin) demo_in new_world
      = (Ret (Inr out), s') \<and> to_allowed out \<and> \<not> to_dry_run out"
proof -
  obtain d where d: "decide None (tl_policy (demo_tools [demo_proposal ''a'' risk_medium] [] tier_prod_admin))
      (run_request (demo_tools [demo_proposal ''a'' risk_medium] [] tier_prod_admin) demo_in [demo_proposal ''a'' risk_medium]) = Inr d"
    "allow d" "\<not> dry_run d" using demo_lets_run by blast
  from d(2,3) show ?thesis
    by (simp add: demo_troubleshoot [OF d(1)] act_on_decision_def Let_def io_wrap_def io_try_def io_bind_def demo_calls
        record_entry_def io_check_def io_ret_apply new_world_def diagnosis_out_def)
qed

theorem troubleshoot_recorded_witness:
  "\<exists>out s' e. troubleshoot (demo_tools [demo_proposal ''a'' risk_medium] [] tier_prod_admin) demo_in new_world
      = (Ret (Inr out), s') \<and> last (hw_log s') = e \<and> en_id e = to_incident_id out \<and> en_result e \<noteq> None"
proof -
  obtain out s' where r: "troubleshoot (demo_tools [demo_proposal ''a'' risk_medium] [] tier_prod_admin) demo_in new_world
      = (Ret (Inr out), s')" and o': "to_allowed out" "\<not> to_dry_run out" using demo_answer_run by blast
  from troubleshoot_recorded [OF r] o' obtain e s1 where
    "as_append (tl_audit (demo_tools [demo_proposal ''a'' risk_medium] [] tier_prod_admin)) e s1 = (Ret None, s')"
    "en_id e = to_incident_id out" "en_result e \<noteq> None" by blast
  moreover from this(1) have "last (hw_log s') = e" by (auto simp: demo_calls)
  ultimately show ?thesis using r by blast
qed

text \<open>C19: an answer of \<open>approve_action\<close> reports the attempt the cluster's agent made for exactly the
  incident's playbook, signal and recorded context, and is given only once that attempt is in the
  audit trail under the answer's new incident id, as an executed decision of a prod-admin.\<close>

theorem approve_recorded:
  assumes "approve_action T incident name s = (Ret (Inr out), s')"
  shows "\<exists>e resp e' s1 s2 s3 s4. as_get (tl_audit T) incident s = (Ret (Inr (Some e)), s1)
    \<and> hb_approve_action (tl_hub T) (en_cluster_id e) (en_playbook_id e) (Some (record_signal (en_signal e))) name
        (en_meta e) s2 = (Ret (Inr resp), s3)
    \<and> aar_error resp = [] \<and> ao_attempt out = attempt_out_of (attempt_of (aar_attempt resp))
    \<and> as_append (tl_audit T) e' s4 = (Ret None, s') \<and> en_id e' = ao_incident_id out
    \<and> en_cluster_id e' = en_cluster_id e \<and> allow (en_decision e') \<and> \<not> dry_run (en_decision e')
    \<and> dec_tier (en_decision e') = tier_prod_admin
    \<and> en_result e' = Some \<lparr>res_playbook_id = en_playbook_id e, res_resolved = ot_validated (ao_attempt out),
        res_attempts = [recorded_as (ao_attempt out)]\<rparr>"
proof -
  have flag: "tl_execution_flag T" using assms by (auto simp: approve_action_def split: if_splits)
  obtain o1 s1 where g: "as_get (tl_audit T) incident s = (o1, s1)" by (cases "as_get (tl_audit T) incident s")
  note unf = approve_action_def flag io_wrap_def io_try_def io_bind_def g
  have "\<exists>e. o1 = Ret (Inr (Some e))"
    using assms by (auto simp: unf split: outcome.splits sum.splits option.splits)
  then obtain e where e: "o1 = Ret (Inr (Some e))" by blast
  obtain o2 s2 where c: "check_cluster_scope T (en_cluster_id e) s1 = (o2, s2)"
    by (cases "check_cluster_scope T (en_cluster_id e) s1")
  have "\<exists>x. o2 = Ret (Inr x)" using assms by (auto simp: unf e c split: outcome.splits sum.splits)
  then obtain x where x: "o2 = Ret (Inr x)" by blast
  obtain tier where chk: "approval_check T e incident name = Inr tier"
    using assms by (cases "approval_check T e incident name") (auto simp: unf e c x)
  have app: "run_approval T e incident name tier s2 = (Ret (Inr out), s')" using assms by (simp add: unf e c x chk)
  have get: "as_get (tl_audit T) incident s = (Ret (Inr (Some e)), s1)" by (simp add: g e)
  from chk have "tier = tier_prod_admin" by (simp add: approval_check_Inr)
  with run_approval_Inr [OF app] get show ?thesis
    by (elim exE conjE) (intro exI conjI, assumption+, simp_all add: approval_entry_def)
qed

theorem approve_recorded_witness:
  "\<exists>out s'. approve_action (demo_tools [] [] tier_prod_admin) ''i'' ''a'' incident_world = (Ret (Inr out), s')
    \<and> ao_attempt out = attempt_out_of demo_attempt \<and> en_id (last (hw_log s')) = ao_incident_id out"
proof -
  obtain out s' where r: "approve_action (demo_tools [] [] tier_prod_admin) ''i'' ''a'' incident_world = (Ret (Inr out), s')"
    and a: "ao_attempt out = attempt_out_of demo_attempt" using demo_approve by blast
  from approve_recorded [OF r] obtain e' s4 where
    "as_append (tl_audit (demo_tools [] [] tier_prod_admin)) e' s4 = (Ret None, s')" "en_id e' = ao_incident_id out" by blast
  then have "en_id (last (hw_log s')) = ao_incident_id out" by (auto simp: demo_calls)
  with r a show ?thesis by blast
qed

end
