(* ===== verification/SimCluster.thy ===== *)
theory SimCluster imports Playbooks begin

text \<open>
  A concrete cluster: pods, deployments and a clock behind the API of \<open>kube\<close>. It is the instance at
  which the witnesses of the properties about effects are evaluated, and shows that the laws those
  properties assume of the API (\<open>kube_reads\<close>, \<open>playbook_clock\<close>, \<open>replica_spec\<close>) can hold together.
\<close>

record cluster =
  cl_pods :: "pod list"
  cl_deps :: "string \<Rightarrow> string \<Rightarrow> deployment option"
  cl_nodes :: "node list"
  cl_logs :: string
  cl_now :: int

definition not_found :: goerr where
  "not_found = GoErr ''not found'' True"

definition get_or :: "'a option \<Rightarrow> goerr + 'a" where
  "get_or x = (case x of None \<Rightarrow> Inl not_found | Some v \<Rightarrow> Inr v)"

definition is_pod :: "string \<Rightarrow> string \<Rightarrow> pod \<Rightarrow> bool" where
  "is_pod ns n p = (pod_namespace p = ns \<and> pod_name p = n)"

definition sim_kube :: "'z cluster_scheme kube" where
  "sim_kube = \<lparr>
     k_get_pod = (\<lambda>ns n s. (get_or (find (is_pod ns n) (cl_pods s)), s)),
     k_list_pods = (\<lambda>ns l s. (Inr (filter (\<lambda>p. ns = [] \<or> pod_namespace p = ns) (cl_pods s)), s)),
     k_delete_pod = (\<lambda>ns n s. (if find (is_pod ns n) (cl_pods s) = None then Some not_found else None,
        s\<lparr>cl_pods := filter (\<lambda>p. \<not> is_pod ns n p) (cl_pods s)\<rparr>)),
     k_pod_logs = (\<lambda>ns n prev tail s. (Inr (cl_logs s), s)),
     k_get_deployment = (\<lambda>ns n s. (get_or (cl_deps s ns n), s)),
     k_update_deployment = (\<lambda>ns n d s. (None, s\<lparr>cl_deps := (cl_deps s)(ns := (cl_deps s ns)(n \<mapsto> d))\<rparr>)),
     k_get_replicaset = (\<lambda>ns n s. (Inr [\<lparr>or_kind = ''Deployment'', or_name = ''web''\<rparr>], s)),
     k_get_daemonset = (\<lambda>ns n s. (Inr (Selector []), s)),
     k_selector_string = (\<lambda>sel. Inr []),
     k_delete_hpa = (\<lambda>ns n s. (None, s)),
     k_get_scaled_object = (\<lambda>ns n s. (Inr UOther, s)),
     k_nested_slice = (\<lambda>u path. None),
     k_list_nodes = (\<lambda>s. (Inr (cl_nodes s), s)),
     k_get_node = (\<lambda>n s. (get_or (find (\<lambda>x. nd_name x = n) (cl_nodes s)), s)),
     k_quantity_string = (\<lambda>q. fmt_d (q_value q)),
     k_now = (\<lambda>s. (cl_now s, s)),
     k_sleep = (\<lambda>d s. ((), s\<lparr>cl_now := cl_now s + max 0 d\<rparr>)),
     k_after = (\<lambda>d s. (None, s\<lparr>cl_now := cl_now s + max 0 d\<rparr>)),
     k_max_polls = 100\<rparr>"

text \<open>One crash-looping pod \<open>web-1\<close> of the deployment \<open>web\<close>, whose three replicas are ready.\<close>

definition web_pod :: pod where
  "web_pod = \<lparr>pod_namespace = ''ns'', pod_name = ''web-1'',
     pod_owners = [\<lparr>or_kind = ''ReplicaSet'', or_name = ''web-rs''\<rparr>], pod_node_name = ''n1'',
     pod_phase = ''Running'',
     pod_statuses = [\<lparr>cs_state = \<lparr>st_waiting = Some \<lparr>wt_reason = ''CrashLoopBackOff'', wt_message = ''back-off''\<rparr>,
         st_running = False, st_terminated = None\<rparr>,
       cs_last_state = \<lparr>st_waiting = None, st_running = False, st_terminated = None\<rparr>,
       cs_restart_count = 7\<rparr>],
     pod_conditions = []\<rparr>"

definition web_deployment :: deployment where
  "web_deployment = \<lparr>dep_replicas = Some 3, dep_selector = Selector [], dep_annotations = None,
     dep_containers = [\<lparr>ct_limits = Some [''memory'' \<mapsto> \<lparr>q_value = 1000, q_format = ''DecimalSI''\<rparr>]\<rparr>],
     dep_ready_replicas = 3\<rparr>"

definition web_node :: node where
  "web_node = \<lparr>nd_name = ''n1'', nd_labels = Map.empty, nd_architecture = ''amd64'', nd_conditions = []\<rparr>"

definition web_cluster :: cluster where
  "web_cluster = \<lparr>cl_pods = [web_pod], cl_deps = (\<lambda>ns n. if ns = ''ns'' \<and> n = ''web'' then Some web_deployment else None),
     cl_nodes = [web_node], cl_logs = [], cl_now = 0\<rparr>"

definition web_signal :: "string \<Rightarrow> signal" where
  "web_signal kind = \<lparr>sig_kind = kind, sig_namespace = ''ns'', sig_name = ''web-1'', sig_node_name = []\<rparr>"

lemma web_facts [simp]:
  "cl_deps web_cluster ''ns'' ''web'' = Some web_deployment" "dep_replicas web_deployment = Some 3"
  "cl_now web_cluster = 0" "dep_ready_replicas web_deployment = 3"
  "dep_containers web_deployment = [\<lparr>ct_limits = Some [''memory'' \<mapsto> \<lparr>q_value = 1000, q_format = ''DecimalSI''\<rparr>]\<rparr>]"
  by (simp_all add: web_cluster_def web_deployment_def)

lemma keeps_sim_read: "(\<And>s. snd (f s) = s) \<Longrightarrow> keeps I (io_call f)"
  by (rule keeps_call) simp

lemma sim_reads_pure:
  assumes "\<And>s d. I s \<Longrightarrow> I (s\<lparr>cl_now := cl_now s + max 0 d\<rparr>)"
  shows "kube_reads sim_kube I"
  using assms unfolding kube_reads_def sim_kube_def
  by (auto intro!: keeps_sim_read keeps_call)

lemma sim_clock: "playbook_clock sim_kube cl_now"
  unfolding playbook_clock_def
  by (auto simp: sim_kube_def kube_writes_def intro!: sim_reads_pure [unfolded sim_kube_def] keeps_call)

lemma sim_replica_spec: "replica_spec sim_kube ns n (\<lambda>s. map_option effective_replicas (cl_deps s ns n))"
  by (auto simp: replica_spec_def sim_kube_def get_or_def split: option.splits)

lemma sim_reads_deps: "kube_reads sim_kube (\<lambda>s. cl_deps s = D)"
  by (rule sim_reads_pure) simp

lemma sim_reads_pods: "kube_reads sim_kube (\<lambda>s. cl_pods s = P)"
  by (rule sim_reads_pure) simp

section \<open>Running it\<close>

lemmas effect_eval = io_try_def io_wrap_def io_check_def io_bind_def io_call_def io_ret_apply io_panic_apply

lemmas sim_eval = sim_kube_def web_cluster_def web_pod_def web_deployment_def web_node_def web_signal_def
  get_or_def is_pod_def not_found_def

lemma poll_loop_hit:
  assumes "check s = (Ret (Inr True), s')" and "0 < n"
  shows "poll_loop K step deadline check n s = (Ret (True, None), s')"
  using assms by (cases n) (simp_all add: effect_eval)

definition after_restart :: cluster where
  "after_restart = web_cluster\<lparr>cl_pods := []\<rparr>"

lemma sim_restart: "restart_pod sim_kube ''ns'' ''web-1'' web_cluster =
    (Ret (Inr ''pod ns/web-1 deleted, controller will recreate it''), after_restart)"
  by (simp add: restart_pod_def effect_eval sim_eval after_restart_def slash_def)

lemma sim_gone: "pod_gone sim_kube ''ns'' ''web-1'' after_restart = (Ret (Inr True), after_restart)"
  by (simp add: pod_gone_def pod_phase_of_def get_pod_def effect_eval sim_eval after_restart_def slash_def)

lemma sim_wait:
  assumes "check after_restart = (Ret (Inr True), after_restart)"
  shows "wait_for sim_kube timeout check after_restart = (Ret (True, None), after_restart)"
proof -
  have "k_now sim_kube after_restart = (cl_now after_restart, after_restart)" and "0 < k_max_polls sim_kube"
    by (simp_all add: sim_kube_def)
  with poll_loop_hit [where check = check, OF assms] show ?thesis
    by (simp add: wait_for_def poll_for_def io_bind_def io_call_def)
qed

lemma sim_replicas:
  "deployment_replicas sim_kube ''ns'' ''web'' after_restart = (Ret (Inr 3), after_restart)"
  "replicas_ready sim_kube ''ns'' ''web'' 3 after_restart = (Ret (Inr True), after_restart)"
  by (simp_all add: deployment_replicas_def replicas_ready_def deployment_ready_replicas_def get_deployment_def
      effect_eval sim_eval after_restart_def)

lemma sim_validate:
  "restart_validate sim_kube ''ns'' ''web-1'' ''web'' True after_restart = (Ret (True, None), after_restart)"
  by (simp add: restart_validate_def wait_replicas_def sim_wait sim_gone sim_replicas io_try_def io_bind_def)

lemma sim_run_restart: "\<exists>at. run_one (restart_pod_action sim_kube ''ns'' ''web-1'' ''web'' True) web_cluster
      = (Ret at, after_restart) \<and> ar_validated at"
  by (simp add: run_one_def restart_pod_action_def run_body_def run_validate_def as_pair_def io_try_def io_bind_def
      io_ret_apply sim_restart sim_validate Let_def)

lemma sim_diagnose_pull:
  "\<exists>f. ipb_diagnose sim_kube (web_signal ''PodImagePullBackOff'') web_cluster = (Ret (Inr f), web_cluster)
    \<and> fi_meta f = [''deployment'' \<mapsto> ''web'']"
  by (simp add: ipb_diagnose_def with_owner_def container_waiting_def owning_deployment_name_def get_pod_def
      owner_of_kind_def effect_eval sim_eval deployment_meta_def)

end
