(* ===== verification/HubAccess.thy ===== *)
theory HubAccess imports HubProps SimCluster begin

text \<open>
  Isolation of callers and the composition of the hub's parts: account scopes, sessions without a known
  token, answering, the audit trail behind FileStore, and a request that goes from a tool through the
  role resolver to the agent's handler.
\<close>

section \<open>Scopes\<close>

text \<open>C10: a cluster outside the caller's accounts, or unknown to the inventory, is refused by every tool that
  reaches a cluster, with an error and in the state the inventory lookup left: neither the hub nor the
  audit trail is called after it.\<close>

theorem out_of_scope_refused:
  assumes "tl_inventory T = Some lookup" and "tl_scope T = Some sc"
    and "lookup cid s = (Ret (Inr found), s1)"
    and "\<forall>info. found = Some info \<longrightarrow> \<not> allows_account (Some sc) (ci_account info)"
  shows "\<exists>err. scan_cluster T cid ns s = (Ret (Inl err), s1) \<and> list_nodes_tool T cid region s = (Ret (Inl err), s1)
    \<and> (ti_cluster_id i = cid \<longrightarrow> troubleshoot T i s = (Ret (Inl err), s1))
    \<and> (\<forall>incident e s0. tl_execution_flag T \<longrightarrow> as_get (tl_audit T) incident s0 = (Ret (Inr (Some e)), s)
         \<longrightarrow> en_cluster_id e = cid \<longrightarrow> approve_action T incident name s0 = (Ret (Inl err), s1))"
proof -
  from assms obtain err where err: "check_cluster_scope T cid s = (Ret (Inl err), s1)"
    using check_scope_refused [OF assms(1-3)] by blast
  show ?thesis
    using refused_by_scope [OF err] approve_refused_by_scope [where T = T and s = s and err = err] err
    by (intro exI [of _ err]) auto
qed

definition scoped_demo :: "hub_world tools" where
  "scoped_demo = (demo_tools [] [] tier_prod_admin)\<lparr>tl_scope := Some
     (scope_of \<lparr>ac_name = ''mars'', ac_token = ''t'', ac_accounts = [''222''], ac_groups = []\<rparr>)\<rparr>"

theorem out_of_scope_refused_witness:
  "\<exists>err. scan_cluster scoped_demo ''c1'' [] new_world = (Ret (Inl err), new_world)
    \<and> troubleshoot scoped_demo demo_in new_world = (Ret (Inl err), new_world)"
proof -
  let ?i = "\<lparr>ci_cluster_id = ''c1'', ci_account = ''111'', ci_region = ''r'', ci_eks_name = []\<rparr>"
  let ?sc = "scope_of \<lparr>ac_name = ''mars'', ac_token = ''t'', ac_accounts = [''222''], ac_groups = []\<rparr>"
  have "tl_inventory scoped_demo = Some (inventory_lookup (Some (new_inventory [?i])))"
    "tl_scope scoped_demo = Some ?sc"
    by (simp_all add: scoped_demo_def demo_tools_def)
  moreover have "inventory_lookup (Some (new_inventory [?i])) ''c1'' new_world = (Ret (Inr (Some ?i)), new_world)" by simp
  moreover have "\<not> allows_account (Some ?sc) (ci_account ?i)" by (simp only: scope_accounts) simp
  ultimately show ?thesis
    using out_of_scope_refused [of scoped_demo _ ?sc "''c1''" new_world "Some ?i" new_world "[]" "[]" demo_in] by fastforce
qed

section \<open>Sessions\<close>

lemma session_unknown:
  assumes "distinguished as (token_from_header auth)"
    and "token_from_header auth \<notin> ac_token ` set as"
  shows "session_tools (Some (new_token_registry as)) auth T
    = T\<lparr>tl_scope := Some deny_all_scope, tl_caller_groups := []\<rparr>"
  using resolve_unknown [OF assms] by (simp add: session_tools_def deny_all_scope_def)

text \<open>The inventory lookup for \<open>cid\<close> returns, found or not or with an error, and leaves \<open>s1\<close>; a hub without an inventory
  looks nothing up.\<close>

definition looked_up :: "'s tools \<Rightarrow> string \<Rightarrow> 's \<Rightarrow> 's \<Rightarrow> bool" where
  "looked_up T cid s s1 \<longleftrightarrow>
    (case tl_inventory T of None \<Rightarrow> s1 = s | Some lookup \<Rightarrow> \<exists>r. lookup cid s = (Ret r, s1))"

lemma denied_scope:
  assumes "tl_scope T = Some deny_all_scope" and "looked_up T cid s s1"
  shows "\<exists>err. check_cluster_scope T cid s = (Ret (Inl err), s1)"
proof -
  have "\<exists>err. scope_check T cid found = Inl err" for found
    by (cases found) (simp_all add: scope_check_def assms(1) allows_account_def deny_all_scope_def)
  with assms(2) show ?thesis
    by (auto simp: looked_up_def check_cluster_scope_def io_wrap_def io_try_def io_bind_def io_ret_apply
        split: option.splits sum.split)
qed

lemma denied_approval:
  assumes "tl_scope T = Some deny_all_scope"
  shows "approve_action T incident name s \<noteq> (Ret (Inr x), s')"
proof
  assume run: "approve_action T incident name s = (Ret (Inr x), s')"
  from assms have "check_cluster_scope T cid v \<noteq> (Ret (Inr y), v')" for cid v y v'
    using check_scope_Inr [of T cid v "fst y" "snd y" v' deny_all_scope] by (auto simp: allows_account_def deny_all_scope_def)
  with run show False
    by (auto simp: approve_action_def io_wrap_Inr io_try_eq_Ret io_ret_apply split: if_splits option.splits)
qed

text \<open>C11: on a hub with agent tokens, a session whose token is none of them (or that has none) reaches no
  cluster: each of the four tools that reach one, scan_cluster, list_nodes, troubleshoot and approve_action, ends
  with an error in the state the inventory lookup left, whatever the inventory says of the cluster, so neither
  the hub nor the audit trail is called after it; and no approval ever succeeds. SHA-256 is assumed to tell the
  presented token from the configured ones.\<close>

theorem unknown_token_denied:
  assumes "distinguished as (token_from_header auth)"
    and "token_from_header auth \<notin> ac_token ` set as"
    and "T' = session_tools (Some (new_token_registry as)) auth T"
    and "looked_up T cid s s1"
  shows "(\<exists>err. scan_cluster T' cid ns s = (Ret (Inl err), s1) \<and> list_nodes_tool T' cid region s = (Ret (Inl err), s1)
      \<and> (ti_cluster_id i = cid \<longrightarrow> troubleshoot T' i s = (Ret (Inl err), s1))
      \<and> (\<forall>incident e s0. tl_execution_flag T \<longrightarrow> as_get (tl_audit T) incident s0 = (Ret (Inr (Some e)), s)
           \<longrightarrow> en_cluster_id e = cid \<longrightarrow> approve_action T' incident name s0 = (Ret (Inl err), s1)))
    \<and> (\<forall>incident s0 out s2. approve_action T' incident name s0 \<noteq> (Ret (Inr out), s2))"
proof -
  have T': "T' = T\<lparr>tl_scope := Some deny_all_scope, tl_caller_groups := []\<rparr>"
    using session_unknown [of as auth T] assms by blast
  then have sc: "tl_scope T' = Some deny_all_scope" and same: "tl_audit T' = tl_audit T" "tl_execution_flag T' = tl_execution_flag T"
    by simp_all
  have "looked_up T' cid s s1" using assms(4) by (simp add: looked_up_def T')
  from denied_scope [OF sc this] obtain err where err: "check_cluster_scope T' cid s = (Ret (Inl err), s1)" ..
  have approve: "approve_action T' incident name s0 = (Ret (Inl err), s1)"
    if "tl_execution_flag T" "as_get (tl_audit T) incident s0 = (Ret (Inr (Some e)), s)" "en_cluster_id e = cid" for incident e s0
    using approve_refused_by_scope [of T' incident s0 e s err s1 name] that err by (simp add: same)
  show ?thesis
    using refused_by_scope [OF err] approve denied_approval [OF sc] by blast
qed

text \<open>A caller without a token on a hub that has one agent: its own account's cluster is refused too.\<close>

theorem unknown_token_denied_witness:
  "\<exists>err. troubleshoot (session_tools (Some (new_token_registry
      [\<lparr>ac_name = ''mars'', ac_token = ''t'', ac_accounts = [''111''], ac_groups = [''sre'']\<rparr>])) ''Basic u''
      (demo_tools [] [] tier_prod_admin)) demo_in new_world = (Ret (Inl err), new_world)"
proof -
  let ?as = "[\<lparr>ac_name = ''mars'', ac_token = ''t'', ac_accounts = [''111''], ac_groups = [''sre'']\<rparr>]"
  let ?T = "demo_tools [] [] tier_prod_admin"
  have tok: "token_from_header ''Basic u'' = []" by code_simp
  have "distinguished ?as (token_from_header ''Basic u'')" "token_from_header ''Basic u'' \<notin> ac_token ` set ?as"
    by (simp_all add: tok distinguished_def)
  moreover have "looked_up ?T (ti_cluster_id demo_in) new_world new_world"
    by (simp add: looked_up_def demo_tools_def)
  ultimately show ?thesis
    using unknown_token_denied [OF _ _ refl, of ?as "''Basic u''" ?T "ti_cluster_id demo_in" new_world new_world "[]" "[]" demo_in]
    by blast
qed

section \<open>Answering\<close>

text \<open>Every call of the tools returns: no panic, no endless wait.\<close>

definition hub_answers :: "'s tools \<Rightarrow> bool" where
  "hub_answers T \<longleftrightarrow>
     (\<forall>lookup cid. tl_inventory T = Some lookup \<longrightarrow> returns (lookup cid))
   \<and> (\<forall>cid ns. returns (hb_scan (tl_hub T) cid ns)) \<and> (\<forall>cid sig. returns (hb_diagnose (tl_hub T) cid sig))
   \<and> (\<forall>cid pid sig. returns (hb_execute (tl_hub T) cid pid sig))
   \<and> (\<forall>cid pid sig name m. returns (hb_approve_action (tl_hub T) cid pid sig name m))
   \<and> (\<forall>cid ns name dep lines. returns (hb_get_logs (tl_hub T) cid ns name dep lines))
   \<and> (\<forall>cid. returns (hb_list_nodes (tl_hub T) cid))
   \<and> (\<forall>e. returns (as_append (tl_audit T) e)) \<and> (\<forall>i. returns (as_get (tl_audit T) i))"

lemma returns_pair [total_intros]: "returns (\<lambda>s. (Ret (f s), s))"
  by (simp add: returns_def)

lemma hub_answersD [total_intros]:
  assumes "hub_answers T"
  shows "tl_inventory T = Some lookup \<Longrightarrow> returns (lookup cid)"
    and "returns (hb_scan (tl_hub T) cid ns)" and "returns (hb_diagnose (tl_hub T) cid sig)"
    and "returns (hb_execute (tl_hub T) cid pid sig)" and "returns (hb_approve_action (tl_hub T) cid pid sig name m)"
    and "returns (hb_get_logs (tl_hub T) cid ns name dep lines)" and "returns (hb_list_nodes (tl_hub T) cid)"
    and "returns (as_append (tl_audit T) e)" and "returns (as_get (tl_audit T) incident)"
  using assms by (simp_all add: hub_answers_def)

lemma returns_scope [total_intros]: "hub_answers T \<Longrightarrow> returns (check_cluster_scope T cid)"
  unfolding check_cluster_scope_def by (cases "tl_inventory T") (auto intro: total_intros)

lemma returns_stamp [total_intros]: "returns (stamp T)"
  unfolding stamp_def by (intro total_intros)

lemma returns_decision [total_intros]: "returns (policy_decision T req)"
  unfolding policy_decision_def by (intro total_intros)

lemma returns_record [total_intros]: "hub_answers T \<Longrightarrow> returns (record_entry T e out)"
  unfolding record_entry_def by (intro total_intros)

lemma returns_fallback [total_intros]: "hub_answers T \<Longrightarrow> returns (runbook_fallback T i)"
  unfolding runbook_fallback_def fallback_answer_def confirm_via_logs_def Let_def by (intro total_intros)

lemma returns_act [total_intros]: "hub_answers T \<Longrightarrow> returns (act_on_decision T i diag d eid t)"
  unfolding act_on_decision_def Let_def by (intro total_intros)

lemma returns_approval [total_intros]: "hub_answers T \<Longrightarrow> returns (run_approval T e incident name tier)"
  unfolding run_approval_def Let_def by (intro total_intros)

text \<open>If the hub, the inventory and the audit store answer, every tool answers every request, with an
  output or an error.\<close>

theorem tools_answer:
  assumes "hub_answers T"
  shows "returns (scan_cluster T cid ns) \<and> returns (list_nodes_tool T cid region) \<and> returns (troubleshoot T i)
    \<and> returns (approve_action T incident name) \<and> returns (get_postmortem T incident)"
  unfolding scan_cluster_def list_nodes_tool_def troubleshoot_def approve_action_def get_postmortem_def
  using assms by (intro conjI total_intros)

theorem tools_answer_witness:
  "returns (troubleshoot (demo_tools [] [] tier_read_only) demo_in)
    \<and> returns (approve_action (demo_tools [] [] tier_read_only) ''i'' ''a'')"
proof -
  have "hub_answers (demo_tools [] [] tier_read_only)"
    by (auto simp: hub_answers_def demo_tools_def demo_hub_def demo_store_def returns_def inventory_lookup_def)
  from tools_answer [OF this] show ?thesis by blast
qed

section \<open>The audit trail on disk\<close>

text \<open>C22: FileStore implements a log of entries: a successful append adds the entry at the end, a successful
  read finds the first entry of an id and the entries of a cluster in order, and reading changes
  nothing. What is read back of an entry is the entry without the tier of its decision.\<close>

theorem file_store_refines_log:
  assumes "append_file F content" and "json_entries J ok" and "holds_log F J content s es"
  shows "(\<forall>e s'. ok e \<longrightarrow> (\<forall>line. js_marshal J e = Inr line \<longrightarrow> length line < scan_limit)
        \<longrightarrow> as_append (file_store F J) e s = (Ret None, s') \<longrightarrow> holds_log F J content s' (es @ [persisted e]))
    \<and> (\<forall>d s'. fo_read F s = (Inr d, s') \<longrightarrow> holds_log F J content s' es
        \<and> (\<forall>i. as_get (file_store F J) i s = (Ret (Inr (find (\<lambda>e. en_id e = i) es)), s'))
        \<and> (\<forall>cid. as_list (file_store F J) cid s = (Ret (Inr (filter (\<lambda>e. en_cluster_id e = cid) es)), s')))"
proof (intro conjI allI impI)
  fix e s'
  assume "ok e" "\<forall>line. js_marshal J e = Inr line \<longrightarrow> length line < scan_limit"
    "as_append (file_store F J) e s = (Ret None, s')"
  then show "holds_log F J content s' (es @ [persisted e])"
    using file_append_log [OF assms(1,2) _ assms(3)] by simp
next
  fix d s'
  assume r: "fo_read F s = (Inr d, s')"
  note all = file_all_log [OF assms(1,3) r]
  from all show "holds_log F J content s' es" by blast
  show "as_get (file_store F J) i s = (Ret (Inr (find (\<lambda>e. en_id e = i) es)), s')" for i
    using file_get_log [OF assms(1,3) r] by simp
  show "as_list (file_store F J) cid s = (Ret (Inr (filter (\<lambda>e. en_cluster_id e = cid) es)), s')" for cid
    using all by (simp add: file_list_def io_try_def io_bind_def io_ret_apply)
qed

definition memory_file :: "string file_ops" where
  "memory_file = \<lparr>fo_open_append = (\<lambda>s. (None, s)), fo_write = (\<lambda>t s. (None, s @ t)), fo_read = (\<lambda>s. (Inr s, s)),
     fo_path = ''audit.jsonl''\<rparr>"

definition one_codec :: codec where
  "one_codec = \<lparr>js_marshal = (\<lambda>e. if e = demo_incident then Inr ''{}'' else Inl (errorf [])),
     js_unmarshal = (\<lambda>t. if t = ''{}'' then Inr (persisted demo_incident) else Inl (errorf []))\<rparr>"

theorem file_store_refines_log_witness:
  "as_append (file_store memory_file one_codec) demo_incident [] = (Ret None, ''{}'' @ newline)
   \<and> as_get (file_store memory_file one_codec) ''i'' (''{}'' @ newline)
       = (Ret (Inr (Some (persisted demo_incident))), ''{}'' @ newline)"
proof -
  have f: "append_file memory_file (\<lambda>s. s)" by (auto simp: append_file_def memory_file_def)
  have j: "json_entries one_codec (\<lambda>e. True)" by (auto simp: json_entries_def one_codec_def)
  have l: "holds_log memory_file one_codec (\<lambda>s. s) [] []" by (simp add: holds_log_def)
  have a: "as_append (file_store memory_file one_codec) demo_incident [] = (Ret None, ''{}'' @ newline)"
    by (simp add: file_append_def memory_file_def one_codec_def io_bind_def io_call_def io_ret_apply)
  have "length ''{}'' < scan_limit" by (simp add: scan_limit_def)
  with file_store_refines_log [OF f j l] a
  have h: "holds_log memory_file one_codec (\<lambda>s. s) (''{}'' @ newline) [persisted demo_incident]"
    by (auto simp: one_codec_def)
  have r: "fo_read memory_file (''{}'' @ newline) = (Inr (''{}'' @ newline), ''{}'' @ newline)" by (simp add: memory_file_def)
  from file_store_refines_log [OF f j h] r
  have "as_get (file_store memory_file one_codec) ''i'' (''{}'' @ newline)
    = (Ret (Inr (find (\<lambda>e. en_id e = ''i'') [persisted demo_incident])), ''{}'' @ newline)" by blast
  with a show ?thesis by (simp add: demo_incident_def)
qed

text \<open>C23: one write cut short makes the trail unreadable for good: when a failed append left the beginning of its
  line in the file, the next append still succeeds and puts its entry on the same line, and from then on, whatever is
  appended, every get and every list fails.\<close>

theorem torn_write_poisons_trail:
  assumes "append_file F content" and "json_entries J ok" and "torn_lines J" and "holds_log F J content s es"
    and "js_marshal J e = Inr (part @ tail)" and "part \<noteq> []" and "ok e" and "content s1 = content s @ part"
    and "ok e'" and "as_append (file_store F J) e' s1 = (Ret None, s2)"
    and "content s3 = content s2 @ later" and "fo_read F s3 = (Inr d, s4)"
  shows "\<exists>err. (\<forall>i. as_get (file_store F J) i s3 = (Ret (Inl err), s4))
    \<and> (\<forall>cid. as_list (file_store F J) cid s3 = (Ret (Inl err), s4))"
proof -
  from assms(10) have "file_append F J e' s1 = (Ret None, s2)" by simp
  from file_append_content [OF assms(1) this] obtain line' where l': "js_marshal J e' = Inr line'"
    and c: "content s2 = content s1 @ line' @ newline" by blast
  from assms(3,5,6) l' obtain err where err: "js_unmarshal J (part @ line') = Inl err" unfolding torn_lines_def by blast
  have p: "CHR 0x0A \<notin> set (part @ tail)" and q: "CHR 0x0A \<notin> set line'" "line' \<noteq> []" "last line' \<noteq> CHR 0x0D"
    using assms(2,5,7,9) l' unfolding json_entries_def by blast+
  have log: "read_entries F J (content s) = Inr es" "content s = [] \<or> last (content s) = CHR 0x0A"
    using assms(4) by (simp_all add: holds_log_def)
  have "\<exists>err'. read_entries F J (content s @ (part @ line') @ newline @ later) = Inl err'"
    by (rule read_entries_torn [OF log _ _ _ err]) (use p q assms(6) in auto)
  then obtain err' where "read_entries F J (content s3) = Inl err'" using assms(8,11) c by auto
  from file_all_unreadable [OF assms(1) this assms(12)] show ?thesis by auto
qed

theorem torn_write_poisons_trail_witness:
  "\<exists>err. as_get (file_store memory_file one_codec) ''i'' (''{{}'' @ newline @ ''{}'' @ newline)
     = (Ret (Inl err), ''{{}'' @ newline @ ''{}'' @ newline)"
proof -
  have f: "append_file memory_file (\<lambda>s. s)" by (auto simp: append_file_def memory_file_def)
  have j: "json_entries one_codec (\<lambda>e. True)" by (auto simp: json_entries_def one_codec_def)
  have t: "torn_lines one_codec"
    by (auto simp: torn_lines_def one_codec_def Cons_eq_append_conv split: if_splits)
  have l: "holds_log memory_file one_codec (\<lambda>s. s) [] []" by (simp add: holds_log_def)
  have m: "js_marshal one_codec demo_incident = Inr (''{'' @ ''}'')" by (simp add: one_codec_def)
  have a: "as_append (file_store memory_file one_codec) demo_incident ''{'' = (Ret None, ''{{}'' @ newline)"
    by (simp add: file_append_def memory_file_def one_codec_def io_bind_def io_call_def io_ret_apply)
  from torn_write_poisons_trail [OF f j t l m _ _ _ _ a, of "(''{{}'' @ newline) @ ''{}'' @ newline" "''{}'' @ newline"]
  show ?thesis by (auto simp: memory_file_def)
qed


text \<open>The scope of a session says nothing about \<open>get_postmortem\<close>: it renders an incident by its id whatever the token.\<close>

lemma postmortem_ignores_token: "get_postmortem (session_tools reg auth T) incident = get_postmortem T incident"
  by (simp add: get_postmortem_def session_tools_def Let_def split: option.split)

section \<open>Clusters reached by a role\<close>

text \<open>The first request for a cluster that the inventory knows is answered by the agent's handler itself,
  on a client of the read-only role of the cluster's account, with the cluster's EKS name (its id when
  the inventory has none) and region, and the handler is kept for the next request.\<close>

theorem role_request_end_to_end:
  assumes "nw_role N = Some (manager_handler M)" and "mg_handlers M s cid = None" and "mg_inventory M = Some lookup"
    and "lookup cid s = (Ret (Inr (Some info)), s1)"
    and "mg_new_client M (''arn:aws:iam::'' @ ci_account info @ '':role/k8s-ts-mcp-readonly'')
           (if ci_eks_name info = [] then cid else ci_eks_name info) (ci_region info) s1 = (Ret (Inr c), s2)"
    and "mg_handlers M s2 cid = None" and "manager_map M"
    and "s3 = mg_set_handlers M ((mg_handlers M s2)(cid \<mapsto> c)) s2"
  shows "hub_diagnose N cid sig s
      = io_bind (diagnose_response_of (agent_handler (mg_kube M c) (mg_registry M)) sig) (\<lambda>r. io_ret (Inr r)) s3
    \<and> manager_handler M cid s3 = (Ret (RoleHandler (agent_handler (mg_kube M c) (mg_registry M))), s3)"
proof -
  have first: "manager_handler M cid s = (Ret (RoleHandler (role_handler M c)), s3)"
    unfolding assms(8)
    by (rule manager_handler_first [OF assms(2-4) _ assms(6)])
      (use assms(5) in \<open>simp add: role_arn_def read_only_role_name_def\<close>)
  then have "try_role N cid s = (Ret (RoleHandler (role_handler M c)), s3)" by (simp add: try_role_def assms(1))
  then have "hub_diagnose N cid sig s = io_bind (diagnose_response_of (role_handler M c) sig) (\<lambda>r. io_ret (Inr r)) s3"
    by (simp add: hub_diagnose_def route_def io_bind_Ret [where m = "try_role N cid"])
  moreover have "mg_handlers M s3 cid = Some c" using assms(7) by (simp add: assms(8) manager_map_def)
  ultimately show ?thesis by (simp add: manager_hit role_handler_def)
qed

text \<open>A handler once cached is the one every later request for its cluster gets, whatever requests run in
  between, also when another request cached it while this one was building its own.\<close>

theorem role_handlers_stable:
  assumes "manager_map M" and "builds_keep_handlers M"
    and "manager_handler M cid s = (Ret (RoleHandler h), s1)"
  shows "manager_handler M cid s1 = (Ret (RoleHandler h), s1)
    \<and> manager_handler M cid (snd (manager_handler M other s1)) = (Ret (RoleHandler h), snd (manager_handler M other s1))"
proof -
  from manager_handler_cached [OF assms(1,3)] obtain c where c: "mg_handlers M s1 cid = Some c" "h = role_handler M c"
    by blast
  from keepsD [OF manager_handler_keeps [OF assms(1,2), of cid c other] c(1)]
  have "mg_handlers M (snd (manager_handler M other s1)) cid = Some c" .
  with c show ?thesis by (simp add: manager_hit)
qed

record role_world = cluster +
  rw_handlers :: "string \<rightharpoonup> string"

definition demo_manager :: "(string, role_world) manager" where
  "demo_manager = \<lparr>mg_inventory = Some (inventory_lookup (Some (new_inventory
       [\<lparr>ci_cluster_id = ''c1'', ci_account = ''111'', ci_region = ''r'', ci_eks_name = []\<rparr>]))),
     mg_registry = default_playbooks [], mg_new_client = (\<lambda>arn eks region. io_ret (Inr arn)), mg_kube = (\<lambda>c. sim_kube),
     mg_handlers = rw_handlers, mg_set_handlers = (\<lambda>H s. s\<lparr>rw_handlers := H\<rparr>)\<rparr>"

definition role_start :: role_world where
  "role_start = \<lparr>cl_pods = [web_pod], cl_deps = (\<lambda>ns n. None), cl_nodes = [], cl_logs = [], cl_now = 0,
     rw_handlers = Map.empty\<rparr>"

lemma demo_manager_laws: "manager_map demo_manager" "builds_keep_handlers demo_manager"
  by (auto simp: manager_map_def builds_keep_handlers_def demo_manager_def keeps_def)

theorem role_handlers_stable_witness:
  "\<exists>h s1. manager_handler demo_manager ''c1'' role_start = (Ret (RoleHandler h), s1)
    \<and> manager_handler demo_manager ''c1'' (snd (manager_handler demo_manager ''c2'' s1))
        = (Ret (RoleHandler h), snd (manager_handler demo_manager ''c2'' s1))"
proof -
  have "manager_handler demo_manager ''c1'' role_start = (Ret (RoleHandler (role_handler demo_manager (role_arn ''111''))),
      role_start\<lparr>rw_handlers := [''c1'' \<mapsto> role_arn ''111'']\<rparr>)"
    by (simp add: manager_handler_def manager_build_def Let_def io_try_def io_bind_def manager_keep_def demo_manager_def
        role_start_def io_ret_apply)
  from role_handlers_stable [OF demo_manager_laws this, of "''c2''"] this show ?thesis by blast
qed

definition role_only :: "(string \<Rightarrow> ('s, 's role_answer) io) \<Rightarrow> 's network" where
  "role_only resolve = \<lparr>nw_role = Some resolve,
     nw_role_ids = manager_cluster_ids, nw_get = (\<lambda>cid s. (None, s)), nw_local_ids = (\<lambda>s. ([], s)),
     nw_rand = (\<lambda>s. (''r'', s)), nw_await = (\<lambda>c rid s. (0, s)), nw_forget = (\<lambda>c rid s. s), nw_send = (\<lambda>c m s. (None, s)),
     nw_wait = (\<lambda>c rid s. (Inl (errorf []), s)), nw_registry = None, nw_peer_known = (\<lambda>a s. (False, s)),
     nw_peer_creds = False, nw_peer_dial = (\<lambda>a s. (None, s)),
     nw_peer_diagnose = (\<lambda>a q s. (Inl (errorf []), s)), nw_peer_execute = (\<lambda>a q s. (Inl (errorf []), s)),
     nw_peer_scan = (\<lambda>a q s. (Inl (errorf []), s)), nw_peer_approve = (\<lambda>a q s. (Inl (errorf []), s)),
     nw_peer_get_logs = (\<lambda>a q s. (Inl (errorf []), s)), nw_peer_list_nodes = (\<lambda>a q s. (Inl (errorf []), s))\<rparr>"

definition role_network :: "role_world network" where
  "role_network = role_only (manager_handler demo_manager)"

text \<open>At the concrete cluster: a signal no playbook knows comes back from the agent's handler as such.\<close>

theorem role_request_end_to_end_witness:
  "\<exists>resp. hub_diagnose role_network ''c1'' (Some (web_signal ''PodPending'')) role_start
     = (Ret (Inr resp), role_start\<lparr>rw_handlers := [''c1'' \<mapsto> ''arn:aws:iam::111:role/k8s-ts-mcp-readonly'']\<rparr>)
   \<and> dr_no_playbook resp"
proof -
  let ?arn = "''arn:aws:iam::111:role/k8s-ts-mcp-readonly''"
  let ?s3 = "role_start\<lparr>rw_handlers := [''c1'' \<mapsto> ?arn]\<rparr>"
  have "hub_diagnose role_network ''c1'' (Some (web_signal ''PodPending'')) role_start
      = io_bind (diagnose_response_of (agent_handler (mg_kube demo_manager ?arn) (mg_registry demo_manager))
          (Some (web_signal ''PodPending''))) (\<lambda>r. io_ret (Inr r)) ?s3"
    using role_request_end_to_end [of role_network demo_manager role_start "''c1''" _
        "\<lparr>ci_cluster_id = ''c1'', ci_account = ''111'', ci_region = ''r'', ci_eks_name = []\<rparr>" role_start ?arn role_start ?s3]
      demo_manager_laws(1)
    by (simp add: role_network_def role_only_def demo_manager_def role_start_def)
  moreover have "registry_find (default_playbooks [] :: role_world playbook list) (web_signal ''PodPending'') = None"
    by (simp add: registry_find_def default_playbooks_def default_playbook_defs web_signal_def)
  moreover have "from_proto_signal (Some (web_signal k)) = web_signal k" for k
    by (simp add: from_proto_signal_def sig_get_def web_signal_def)
  ultimately show ?thesis
    by (simp add: diagnose_response_of_def respond_def agent_handler_def handle_diagnose_def Let_def demo_manager_def
        no_playbook_diagnosis_def io_try_def io_bind_def io_ret_apply)
qed

end
