(* ===== verification/LadderDrift.thy ===== *)
theory LadderDrift imports HubAccess begin

text \<open>
  The ladder decided on and the ladder run. \<open>troubleshoot\<close> authorises the actions the agent proposed and
  then asks it to execute a playbook, which the agent diagnoses anew. The two ladders need not be the same:
  here is a cluster whose API fails to return a ReplicaSet once, and on which pods may not be deleted; the
  execution runs an action the caller is not authorised for.
\<close>

section \<open>A cluster that answers the second time\<close>

record flaky_world = cluster +
  fw_asked :: bool

definition flaky_kube :: "flaky_world kube" where
  "flaky_kube = sim_kube\<lparr>
     k_get_replicaset := (\<lambda>ns n s. (if fw_asked s then Inr [\<lparr>or_kind = ''Deployment'', or_name = ''web''\<rparr>]
        else Inl (errorf ''timeout''), s\<lparr>fw_asked := True\<rparr>)),
     k_delete_pod := (\<lambda>ns n s. (Some (errorf ''forbidden''), s))\<rparr>"

definition flaky_start :: "bool \<Rightarrow> flaky_world" where
  "flaky_start asked = \<lparr>cl_pods = [web_pod],
     cl_deps = (\<lambda>ns n. if ns = ''ns'' \<and> n = ''web'' then Some web_deployment else None),
     cl_nodes = [], cl_logs = [], cl_now = 0, fw_asked = asked\<rparr>"

lemmas flaky_eval = flaky_kube_def flaky_start_def sim_kube_def web_pod_def web_deployment_def web_signal_def
  get_or_def is_pod_def

lemma flaky_pod: "k_get_pod flaky_kube ''ns'' ''web-1'' (flaky_start b) = (Inr web_pod, flaky_start b)"
  by (simp add: flaky_eval)

lemma flaky_owner:
  "owning_deployment_name flaky_kube ''ns'' ''web-1'' (flaky_start True) = (Ret (Inr ''web''), flaky_start True)"
  "\<exists>e. owning_deployment_name flaky_kube ''ns'' ''web-1'' (flaky_start False) = (Ret (Inl e), flaky_start True)"
proof -
  have o1: "owner_of_kind ''ReplicaSet'' (pod_owners web_pod) = Some ''web-rs''" by (simp add: owner_of_kind_def web_pod_def)
  have o2: "owner_of_kind ''Deployment'' [\<lparr>or_kind = ''Deployment'', or_name = ''web''\<rparr>] = Some ''web''"
    by (simp add: owner_of_kind_def)
  have r: "k_get_replicaset flaky_kube ns n (flaky_start b) = ((if b then Inr [\<lparr>or_kind = ''Deployment'', or_name = ''web''\<rparr>]
      else Inl (errorf ''timeout'')), flaky_start True)" for ns n b
    by (simp add: flaky_kube_def flaky_start_def)
  show "owning_deployment_name flaky_kube ''ns'' ''web-1'' (flaky_start True) = (Ret (Inr ''web''), flaky_start True)"
    by (simp add: owning_deployment_name_def get_pod_def effect_eval flaky_pod o1 o2 r Let_def)
  show "\<exists>e. owning_deployment_name flaky_kube ''ns'' ''web-1'' (flaky_start False) = (Ret (Inl e), flaky_start True)"
    by (simp add: owning_deployment_name_def get_pod_def effect_eval flaky_pod o1 r Let_def)
qed

lemma flaky_diagnose:
  "\<exists>f. clb_diagnose flaky_kube (web_signal ''PodCrashLoopBackOff'') (flaky_start asked) = (Ret (Inr f), flaky_start True)
    \<and> fi_signal f = web_signal ''PodCrashLoopBackOff''
    \<and> fi_meta f = (if asked then [''deployment'' \<mapsto> ''web''] else Map.empty)"
proof -
  have c: "\<exists>n. pod_restart_count flaky_kube ''ns'' ''web-1'' (flaky_start b) = (Ret (Inr n), flaky_start b)" for b
    by (simp add: pod_restart_count_def get_pod_def effect_eval flaky_pod)
  then obtain n where n: "pod_restart_count flaky_kube ''ns'' ''web-1'' (flaky_start asked) = (Ret (Inr n), flaky_start asked)"
    by blast
  have s: "sig_namespace (web_signal k) = ''ns''" "sig_name (web_signal k) = ''web-1''" for k
    by (simp_all add: web_signal_def)
  show ?thesis
  proof (cases asked)
    case True
    with n show ?thesis
      by (simp add: clb_diagnose_def with_owner_def effect_eval s flaky_owner(1) deployment_meta_def)
  next
    case False
    obtain e where "owning_deployment_name flaky_kube ''ns'' ''web-1'' (flaky_start False) = (Ret (Inl e), flaky_start True)"
      using flaky_owner(2) by blast
    with n False show ?thesis
      by (simp add: clb_diagnose_def with_owner_def effect_eval s deployment_meta_def)
  qed
qed

lemma flaky_restart:
  "\<exists>r. run_one (restart_pod_action flaky_kube ''ns'' ''web-1'' ''web'' b) (flaky_start True) = (Ret r, flaky_start True)
    \<and> \<not> ar_validated r"
  by (simp add: run_one_def restart_pod_action_def run_body_def as_pair_def restart_pod_def effect_eval rollback_def
      new_attempt_def Let_def flaky_kube_def)

definition scaled :: "int \<Rightarrow> int \<Rightarrow> flaky_world" where
  "scaled n t = (flaky_start True)\<lparr>cl_deps := (cl_deps (flaky_start True))(''ns'' :=
     (cl_deps (flaky_start True) ''ns'')(''web'' \<mapsto> web_deployment\<lparr>dep_replicas := Some n\<rparr>)), cl_now := t\<rparr>"

lemma flaky_deployment:
  "deployment_replicas flaky_kube ''ns'' ''web'' (flaky_start True) = (Ret (Inr 3), flaky_start True)"
  "deployment_replicas flaky_kube ''ns'' ''web'' (scaled n t) = (Ret (Inr n), scaled n t)"
  "deployment_ready_replicas flaky_kube ''ns'' ''web'' (scaled n t) = (Ret (Inr 3), scaled n t)"
  "\<exists>m. scale_deployment flaky_kube ''ns'' ''web'' n (flaky_start True) = (Ret (Inr m), scaled n 0)"
  "\<exists>m. scale_deployment flaky_kube ''ns'' ''web'' n' (scaled n t) = (Ret (Inr m), scaled n' t)"
  "k_sleep flaky_kube (2 * second) (scaled n 0) = ((), scaled n (2 * second))"
  by (simp_all add: deployment_replicas_def deployment_ready_replicas_def scale_deployment_def get_deployment_def
      effect_eval flaky_eval scaled_def second_def fun_upd_def cong: if_cong)

text \<open>Scaling the deployment down and up brings its three replicas back.\<close>

lemma flaky_scale:
  "\<exists>r s'. run_one (scale_action flaky_kube ''ns'' ''web'') (flaky_start True) = (Ret r, s') \<and> ar_validated r
    \<and> ar_risk r = risk_medium"
proof -
  have snap: "scale_snapshot flaky_kube ''ns'' ''web'' (flaky_start True)
      = (Ret (Some [(''replicas'', GInt32 3)], None), flaky_start True)"
    by (simp add: scale_snapshot_def flaky_deployment(1) effect_eval)
  obtain m1 where down: "scale_deployment flaky_kube ''ns'' ''web'' 0 (flaky_start True) = (Ret (Inr m1), scaled 0 0)"
    using flaky_deployment(4) by blast
  obtain m2 where up: "scale_deployment flaky_kube ''ns'' ''web'' 3 (scaled 0 (2 * second))
      = (Ret (Inr m2), scaled 3 (2 * second))"
    using flaky_deployment(5) by blast
  have run: "scale_run flaky_kube ''ns'' ''web'' (flaky_start True) = (Ret (m2, None), scaled 3 (2 * second))"
    by (simp add: scale_run_def as_pair_def effect_eval flaky_deployment(1) down up flaky_deployment(6))
  have ready: "replicas_ready flaky_kube ''ns'' ''web'' 3 (scaled 3 (2 * second)) = (Ret (Inr True), scaled 3 (2 * second))"
    by (simp add: replicas_ready_def flaky_deployment(3) effect_eval)
  have now: "k_now flaky_kube (scaled n t) = (t, scaled n t)" "k_max_polls flaky_kube = 100" for n t
    by (simp_all add: flaky_kube_def sim_kube_def scaled_def)
  have wait: "wait_replicas flaky_kube ''ns'' ''web'' (60 * second) (scaled 3 (2 * second))
      = (Ret (True, None), scaled 3 (2 * second))"
    using poll_loop_hit [where check = "replicas_ready flaky_kube ''ns'' ''web'' 3", OF ready]
    by (simp add: wait_replicas_def wait_for_def poll_for_def flaky_deployment(2) now io_try_def io_bind_def io_call_def)
  have "\<exists>r s'. run_one (scale_action flaky_kube ''ns'' ''web'') (flaky_start True) = (Ret r, s') \<and> ar_validated r"
    using snap run wait
    by (simp add: run_one_def scale_action_def run_body_def run_validate_def Let_def io_bind_def io_ret_apply)
  then show ?thesis
    using run_one_ok [of "scale_action flaky_kube ''ns'' ''web''"] by (force simp: attempt_ok_def scale_action_def)
qed

section \<open>A hub that reaches it\<close>

definition flaky_handler :: "flaky_world handler" where
  "flaky_handler = agent_handler flaky_kube (default_playbooks [])"

lemma flaky_found:
  "registry_find (default_playbooks [] :: flaky_world playbook list) (web_signal ''PodCrashLoopBackOff'') = Some crash_loop_back_off"
  by (simp add: registry_find_def default_playbooks_def default_playbook_defs web_signal_def)

lemma flaky_agent_diagnose:
  "\<exists>f. agent_diagnose flaky_kube (default_playbooks []) (web_signal ''PodCrashLoopBackOff'') (flaky_start asked)
      = (Ret (Inr (crash_loop_back_off, f, clb_ladder flaky_kube f)), flaky_start True)
    \<and> lad_actions (clb_ladder flaky_kube f) =
       (if asked then [restart_pod_action flaky_kube ''ns'' ''web-1'' ''web'' True, scale_action flaky_kube ''ns'' ''web'',
          rollout_action flaky_kube ''ns'' ''web''] else [restart_pod_action flaky_kube ''ns'' ''web-1'' [] False])"
proof -
  obtain f where f: "clb_diagnose flaky_kube (web_signal ''PodCrashLoopBackOff'') (flaky_start asked) = (Ret (Inr f), flaky_start True)"
    "fi_signal f = web_signal ''PodCrashLoopBackOff''"
    "fi_meta f = (if asked then [''deployment'' \<mapsto> ''web''] else Map.empty)"
    using flaky_diagnose by blast
  have "lad_actions (clb_ladder flaky_kube f) =
       (if asked then [restart_pod_action flaky_kube ''ns'' ''web-1'' ''web'' True, scale_action flaky_kube ''ns'' ''web'',
          rollout_action flaky_kube ''ns'' ''web''] else [restart_pod_action flaky_kube ''ns'' ''web-1'' [] False])"
    using f(2,3) by (simp add: clb_ladder_def Let_def has_deployment_def meta_get_def web_signal_def)
  then show ?thesis
    using f(1) by (simp add: agent_diagnose_def flaky_found crash_loop_back_off_def io_wrap_def io_try_def io_bind_def io_ret_apply)
qed

text \<open>What the agent proposes first: the safe restart alone.\<close>

lemma flaky_proposal:
  "\<exists>diag. diagnose_response_of flaky_handler (Some (web_signal ''PodCrashLoopBackOff'')) (flaky_start False)
      = (Ret diag, flaky_start True)
    \<and> dr_error diag = [] \<and> \<not> dr_no_playbook diag \<and> dr_playbook_id diag = clb_id
    \<and> map pa_risk (dr_proposed diag) = [risk_safe]"
proof -
  have "from_proto_signal (Some (web_signal k)) = web_signal k" for k
    by (simp add: from_proto_signal_def sig_get_def web_signal_def)
  then show ?thesis
    using flaky_agent_diagnose [of False]
    by (auto simp: diagnose_response_of_def respond_def flaky_handler_def agent_handler_def handle_diagnose_def Let_def
        flaky_found io_try_def io_bind_def io_ret_apply propose_def restart_pod_action_def crash_loop_back_off_def)
qed

text \<open>What it then runs: the restart fails, and the deployment is scaled down and up.\<close>

lemma flaky_execution:
  "\<exists>exec s'. execute_response_of flaky_handler clb_id (Some (web_signal ''PodCrashLoopBackOff'')) (flaky_start True)
      = (Ret exec, s') \<and> er_error exec = []
    \<and> (\<exists>a. a \<in> set (er_attempts exec) \<and> at_risk a = risk_medium \<and> at_validated a)"
proof -
  have sig: "from_proto_signal (Some (web_signal k)) = web_signal k" for k
    by (simp add: from_proto_signal_def sig_get_def web_signal_def)
  obtain f where f: "agent_diagnose flaky_kube (default_playbooks []) (web_signal ''PodCrashLoopBackOff'') (flaky_start True)
      = (Ret (Inr (crash_loop_back_off, f, clb_ladder flaky_kube f)), flaky_start True)"
    "lad_actions (clb_ladder flaky_kube f) = [restart_pod_action flaky_kube ''ns'' ''web-1'' ''web'' True,
       scale_action flaky_kube ''ns'' ''web'', rollout_action flaky_kube ''ns'' ''web'']"
    using flaky_agent_diagnose [of True] by auto
  obtain r1 where r1: "run_one (restart_pod_action flaky_kube ''ns'' ''web-1'' ''web'' True) (flaky_start True)
      = (Ret r1, flaky_start True)" "\<not> ar_validated r1" using flaky_restart by blast
  obtain r2 s' where r2: "run_one (scale_action flaky_kube ''ns'' ''web'') (flaky_start True) = (Ret r2, s')"
    "ar_validated r2" "ar_risk r2 = risk_medium" using flaky_scale by blast
  have risks: "act_risk (restart_pod_action flaky_kube ''ns'' ''web-1'' ''web'' True) \<noteq> risk_high"
    "act_risk (scale_action flaky_kube ''ns'' ''web'') \<noteq> risk_high"
    by (simp_all add: restart_pod_action_def scale_action_def risk_defs)
  have run: "run_ladder (clb_ladder flaky_kube f) (flaky_start True) = (Ret (Inr
      \<lparr>res_playbook_id = clb_id, res_resolved = True, res_attempts = [r1, r2]\<rparr>), s')"
    using r1 r2 risks
    by (simp add: run_ladder_def f(2) max_actions_def Let_def io_bind_def io_ret_apply)
      (simp add: clb_ladder_def Let_def)
  have "execute_response_of flaky_handler clb_id (Some (web_signal ''PodCrashLoopBackOff'')) (flaky_start True)
      = (Ret \<lparr>er_request_id = [], er_resolved = True, er_attempts = [to_attempt r1, to_attempt r2], er_error = []\<rparr>, s')"
    using f(1) run
    by (simp add: execute_response_of_def respond_def flaky_handler_def agent_handler_def handle_execute_def sig
        io_try_def io_bind_def io_ret_apply crash_loop_back_off_def)
  moreover have "at_risk (to_attempt r2) = risk_medium" "at_validated (to_attempt r2)"
    using r2(2,3) by (simp_all add: to_attempt_def)
  ultimately show ?thesis by fastforce
qed

definition flaky_tools :: "flaky_world tools" where
  "flaky_tools =
    \<lparr>tl_hub = network_hub (role_only (\<lambda>cid. io_ret (RoleHandler flaky_handler))),
     tl_policy = new_engine [''g'' \<mapsto> tier_nonprod_admin],
     tl_audit = \<lparr>as_append = (\<lambda>e. io_ret None), as_list = (\<lambda>cid. io_ret (Inr [])), as_get = (\<lambda>i. io_ret (Inr None))\<rparr>,
     tl_execution_flag = True, tl_prod_clusters = [''c1'' \<mapsto> True], tl_caller_groups = [''g''],
     tl_runbooks = None, tl_inventory = None, tl_scope = None, tl_tool_access = Map.empty, tl_env = demo_env\<rparr>"

definition flaky_in :: troubleshoot_in where
  "flaky_in = \<lparr>ti_cluster_id = ''c1'', ti_kind = ''PodCrashLoopBackOff'', ti_namespace = ''ns'', ti_name = ''web-1'',
     ti_node_name = []\<rparr>"

lemma flaky_hub:
  assumes "diagnose_response_of flaky_handler sig s = (Ret diag, s1)"
  shows "hb_diagnose (tl_hub flaky_tools) cid sig s = (Ret (Inr diag), s1)"
  using assms by (simp add: flaky_tools_def network_hub_def hub_diagnose_def route_def try_role_def role_only_def
      io_bind_def io_ret_apply)

lemma flaky_hub_execute:
  assumes "execute_response_of flaky_handler pid sig s = (Ret exec, s1)"
  shows "hb_execute (tl_hub flaky_tools) cid pid sig s = (Ret (Inr exec), s1)"
  using assms by (simp add: flaky_tools_def network_hub_def hub_execute_def route_def try_role_def role_only_def
      io_bind_def io_ret_apply)

lemma flaky_rest:
  "check_cluster_scope flaky_tools cid s = (Ret (Inr (no_info, False)), s)"
  "stamp flaky_tools s = (Ret (new_id 7 ''x'', 7), s)"
  "record_entry flaky_tools e out s = (Ret (Inr out), s)"
  "ev_stopped (tl_env flaky_tools) s = None"
  by (simp_all add: check_cluster_scope_def scope_check_def stamp_def record_entry_def flaky_tools_def demo_env_def
      io_check_def io_bind_def io_call_def io_ret_apply)

lemma flaky_decide:
  "\<exists>d. decide None (tl_policy flaky_tools) \<lparr>rq_groups = [''g''], rq_cluster_env = env_prod, rq_action_risk = r,
      rq_execution_flag = True\<rparr> = Inr d
    \<and> (r = risk_safe \<longrightarrow> allow d \<and> \<not> dry_run d) \<and> (r = risk_medium \<longrightarrow> \<not> (allow d \<and> \<not> dry_run d))"
proof -
  let ?r = "\<lparr>rq_groups = [''g''], rq_cluster_env = env_prod, rq_action_risk = r, rq_execution_flag = True\<rparr>"
  have "highest_tier (eng_groups (tl_policy flaky_tools)) (rq_groups ?r) = (tier_nonprod_admin, True)"
    by (simp add: flaky_tools_def new_engine_def highest_tier_def tier_rank_def tier_defs)
  note table = decide_table [OF this]
  have t: "tier_nonprod_admin \<noteq> ''readonly''" "tier_nonprod_admin \<noteq> ''prod-admin''" "env_prod \<noteq> ''nonprod''"
    by (simp_all add: tier_nonprod_admin_def env_prod_def)
  have "\<exists>d. decide None (tl_policy flaky_tools) ?r = Inr d
      \<and> (allow d \<longleftrightarrow> r = ''high'' \<or> r = ''safe'') \<and> (\<not> dry_run d \<longleftrightarrow> r = ''safe'')"
    using table by (simp only: request.select_convs t insert_iff empty_iff simp_thms) (elim exE conjE, intro exI conjI)
  then obtain d where d: "decide None (tl_policy flaky_tools) ?r = Inr d"
    "allow d \<longleftrightarrow> r = ''high'' \<or> r = ''safe''" "\<not> dry_run d \<longleftrightarrow> r = ''safe''" by blast
  have "risk_safe = ''safe''" "risk_medium \<noteq> ''safe''" by (simp_all add: risk_defs)
  with d show ?thesis by metis
qed

text \<open>C20: what is authorised is the ladder diagnosed, what runs is the ladder at the time of Execute. A caller of
  tier nonprod-admin, who may not run a medium action on a prod cluster, gets one run and validated there
  by one call of \<open>troubleshoot\<close>: the diagnosis could not read the pod's ReplicaSet and proposed the safe
  restart only, and the execution could.\<close>

theorem authorised_ladder_is_not_the_one_run:
  "\<exists>out s' d a. troubleshoot flaky_tools flaky_in (flaky_start False) = (Ret (Inr out), s')
    \<and> a \<in> set (to_attempts out) \<and> ot_risk a = risk_medium \<and> ot_validated a
    \<and> decide None (tl_policy flaky_tools) \<lparr>rq_groups = tl_caller_groups flaky_tools,
        rq_cluster_env = cluster_env_of flaky_tools (ti_cluster_id flaky_in), rq_action_risk = ot_risk a,
        rq_execution_flag = tl_execution_flag flaky_tools\<rparr> = Inr d
    \<and> \<not> (allow d \<and> \<not> dry_run d)"
proof -
  let ?sig = "web_signal ''PodCrashLoopBackOff''"
  let ?req = "\<lambda>r. \<lparr>rq_groups = [''g''], rq_cluster_env = env_prod, rq_action_risk = r, rq_execution_flag = True\<rparr>"
  have i: "in_signal flaky_in = ?sig" "ti_cluster_id flaky_in = ''c1''"
    by (simp_all add: in_signal_def flaky_in_def web_signal_def)
  have T: "tl_caller_groups flaky_tools = [''g'']" "tl_execution_flag flaky_tools"
    "cluster_env_of flaky_tools ''c1'' = env_prod"
    by (simp_all add: flaky_tools_def cluster_env_of_def)
  obtain diag where diag: "diagnose_response_of flaky_handler (Some ?sig) (flaky_start False) = (Ret diag, flaky_start True)"
    "dr_error diag = []" "\<not> dr_no_playbook diag" "dr_playbook_id diag = clb_id" "map pa_risk (dr_proposed diag) = [risk_safe]"
    using flaky_proposal by (elim exE conjE) (rule that)
  obtain exec s' a where exec: "execute_response_of flaky_handler clb_id (Some ?sig) (flaky_start True) = (Ret exec, s')"
    "er_error exec = []" "a \<in> set (er_attempts exec)" "at_risk a = risk_medium" "at_validated a"
    using flaky_execution by (elim exE conjE) (rule that)
  obtain p where "dr_proposed diag = [p]" "pa_risk p = risk_safe" using diag(5) by auto
  then have "max_risk (dr_proposed diag) = risk_safe" by (simp add: max_risk_def risk_rank_def risk_defs)
  then have req: "run_request flaky_tools flaky_in (dr_proposed diag) = ?req risk_safe"
    by (simp add: run_request_def T i)
  obtain d where d: "decide None (tl_policy flaky_tools) (?req risk_safe) = Inr d" "allow d" "\<not> dry_run d"
    using flaky_decide [of risk_safe] by auto
  obtain d2 where d2: "decide None (tl_policy flaky_tools) (?req risk_medium) = Inr d2" "\<not> (allow d2 \<and> \<not> dry_run d2)"
    using flaky_decide [of risk_medium] by auto
  have "troubleshoot flaky_tools flaky_in (flaky_start False)
      = act_on_decision flaky_tools flaky_in diag d (new_id 7 ''x'') 7 (flaky_start True)"
    by (rule troubleshoot_steps [OF flaky_rest(1) _ diag(2,3) _ _ flaky_rest(2)])
      (simp_all add: flaky_hub [OF diag(1)] i req d(1) flaky_rest(4))
  moreover have "\<exists>out. act_on_decision flaky_tools flaky_in diag d (new_id 7 ''x'') 7 (flaky_start True) = (Ret (Inr out), s')
      \<and> to_attempts out = map attempt_out_of (er_attempts exec)"
    using d(2,3) exec(2) flaky_hub_execute [OF exec(1)]
    by (simp add: act_on_decision_def Let_def i diag(4) io_wrap_def io_try_def io_bind_def io_ret_apply flaky_rest(3))
  ultimately obtain out where out: "troubleshoot flaky_tools flaky_in (flaky_start False) = (Ret (Inr out), s')"
    "to_attempts out = map attempt_out_of (er_attempts exec)" by auto
  have dec: "decide None (tl_policy flaky_tools) \<lparr>rq_groups = tl_caller_groups flaky_tools,
        rq_cluster_env = cluster_env_of flaky_tools (ti_cluster_id flaky_in), rq_action_risk = ot_risk (attempt_out_of a),
        rq_execution_flag = tl_execution_flag flaky_tools\<rparr> = Inr d2"
    using d2(1) by (simp add: T i exec(4))
  have a: "attempt_out_of a \<in> set (to_attempts out)" using exec(3) by (simp add: out(2))
  have r: "ot_risk (attempt_out_of a) = risk_medium" "ot_validated (attempt_out_of a)" by (simp_all add: exec(4,5))
  show ?thesis
    by (intro exI conjI, rule out(1), rule a, rule r(1), rule r(2), rule dec, rule d2(2))
qed

end
