(* ===== verification/AwsRole.thy ===== *)
theory AwsRole imports RoleCluster begin

text \<open>
  internal/k8sclient/awsrole.go: a client for a cluster reached by assuming an AWS role, and the token its
  requests carry. The AWS SDK, the token generator, base64, x509 and client-go are the record \<open>aws\<close>, over the
  state \<open>'s\<close> of the world; \<open>'g\<close> is what \<open>LoadDefaultConfig\<close> returns. Times are in nanoseconds.
\<close>

record aws_token =
  tok_text :: string
  tok_expiration :: int

record token_options =
  to_region :: string
  to_cluster :: string
  to_role :: string
  to_session :: string

record eks_cluster =
  ek_endpoint :: "string option"
  ek_ca :: "string option option"
  ek_status :: string

text \<open>A \<open>roleTokenSource\<close>: the last token, empty at first.\<close>

record token_source =
  ts_cluster :: string
  ts_region :: string
  ts_role :: string
  ts_cur :: aws_token

text \<open>A built client: where it talks to, the CA it trusts and the source of its tokens.\<close>

record aws_client =
  ac_host :: string
  ac_ca_pem :: string
  ac_source :: token_source

record ('g, 's) aws =
  aw_config :: "string \<Rightarrow> 's \<Rightarrow> (goerr + 'g) \<times> 's"
  aw_describe :: "'g \<Rightarrow> string \<Rightarrow> string \<Rightarrow> string \<Rightarrow> 's \<Rightarrow> (goerr + eks_cluster) \<times> 's"
  aw_decode64 :: "string \<Rightarrow> goerr + string"
  aw_pem_ok :: "string \<Rightarrow> bool"
  aw_generator :: "'s \<Rightarrow> goerr option \<times> 's"
  aw_clientset :: "string \<Rightarrow> string \<Rightarrow> goerr option"
  aw_dynamic :: "string \<Rightarrow> string \<Rightarrow> goerr option"
  aw_now :: "'s \<Rightarrow> int \<times> 's"
  aw_token :: "token_options \<Rightarrow> 's \<Rightarrow> (goerr + aws_token) \<times> 's"

section \<open>Building a client\<close>

definition session_name :: string where "session_name = ''k8s-ts-mcp-hub''"

definition no_token :: aws_token where "no_token = \<lparr>tok_text = [], tok_expiration = 0\<rparr>"

text \<open>\<open>aws.ToString\<close>: a nil pointer is empty.\<close>

definition to_string :: "string option \<Rightarrow> string" where
  "to_string p = (case p of None \<Rightarrow> [] | Some t \<Rightarrow> t)"

text \<open>What is built once the cluster is described.\<close>

definition client_of_cluster ::
  "('g, 's) aws \<Rightarrow> string \<Rightarrow> string \<Rightarrow> string \<Rightarrow> string \<Rightarrow> string option \<Rightarrow> ('s, goerr + aws_client) io" where
  "client_of_cluster A role name region host ca =
    (case aw_decode64 A (to_string ca) of
       Inl e \<Rightarrow> io_ret (Inl (wrapf (''decoding CA for EKS cluster '' @ name @ '': '') e))
     | Inr pem \<Rightarrow>
        if \<not> aw_pem_ok A pem then
          io_ret (Inl (errorf (''EKS cluster '' @ name @ '': CertificateAuthority data isn't a valid PEM bundle'')))
        else io_check (io_call (aw_generator A)) ''building IAM authenticator token generator: ''
          (case aw_clientset A host pem of
             Some e \<Rightarrow> io_ret (Inl (wrapf (''building clientset for EKS cluster '' @ name @ '': '') e))
           | None \<Rightarrow> (case aw_dynamic A host pem of
               Some e \<Rightarrow> io_ret (Inl (wrapf (''building dynamic client for EKS cluster '' @ name @ '': '') e))
             | None \<Rightarrow> io_ret (Inr \<lparr>ac_host = host, ac_ca_pem = pem,
                 ac_source = \<lparr>ts_cluster = name, ts_region = region, ts_role = role, ts_cur = no_token\<rparr>\<rparr>))))"

definition client_of_description ::
  "('g, 's) aws \<Rightarrow> string \<Rightarrow> string \<Rightarrow> string \<Rightarrow> eks_cluster \<Rightarrow> ('s, goerr + aws_client) io" where
  "client_of_description A role name region cl =
    (case (ek_endpoint cl, ek_ca cl) of
       (Some host, Some ca) \<Rightarrow> client_of_cluster A role name region host ca
     | _ \<Rightarrow> io_ret (Inl (errorf (''EKS cluster '' @ name @ '' has no endpoint/CA yet (status='' @ ek_status cl
         @ '') '' @ em_dash @ '' not ready''))))"

definition new_from_aws_role ::
  "('g, 's) aws \<Rightarrow> string \<Rightarrow> string \<Rightarrow> string \<Rightarrow> ('s, goerr + aws_client) io" where
  "new_from_aws_role A role name region =
    io_wrap (io_call (aw_config A region)) ''loading AWS config: '' (\<lambda>cfg.
    io_wrap (io_call (aw_describe A cfg role session_name name))
      (''describing EKS cluster '' @ name @ '' (as '' @ role @ ''): '')
      (client_of_description A role name region))"

section \<open>Tokens\<close>

definition early_refresh :: int where "early_refresh = 60 * second"

definition token_options_of :: "token_source \<Rightarrow> token_options" where
  "token_options_of src = \<lparr>to_region = ts_region src, to_cluster = ts_cluster src, to_role = ts_role src,
     to_session = session_name\<rparr>"

text \<open>\<open>current\<close>, under its mutex: the answer and the source after it. The clock is read only when there is a
token to look at.\<close>

definition token_fresh :: "('g, 's) aws \<Rightarrow> token_source \<Rightarrow> ('s, bool) io" where
  "token_fresh A src =
    (if tok_text (ts_cur src) = [] then io_ret False
     else io_bind (io_call (aw_now A)) (\<lambda>now. io_ret (now < tok_expiration (ts_cur src) - early_refresh)))"

definition current_token :: "('g, 's) aws \<Rightarrow> token_source \<Rightarrow> ('s, (goerr + string) \<times> token_source) io" where
  "current_token A src =
    io_bind (token_fresh A src) (\<lambda>fresh.
      if fresh then io_ret (Inr (tok_text (ts_cur src)), src)
      else io_try (io_call (aw_token A (token_options_of src)))
        (\<lambda>e. io_ret (Inl (wrapf (''generating IAM authenticator token for '' @ ts_cluster src @ '' (as ''
           @ ts_role src @ ''): '') e), src))
        (\<lambda>tok. io_ret (Inr (tok_text tok), src\<lparr>ts_cur := tok\<rparr>)))"

text \<open>One request: its headers and what else it carries.\<close>

record http_request =
  rq_headers :: "string \<rightharpoonup> string"
  rq_rest :: string

definition round_trip ::
  "('g, 's) aws \<Rightarrow> (http_request \<Rightarrow> ('s, goerr + 'r) io) \<Rightarrow> http_request \<Rightarrow> token_source \<Rightarrow>
     ('s, (goerr + 'r) \<times> token_source) io" where
  "round_trip A base req src =
    io_bind (current_token A src) (\<lambda>(r, src1).
      case r of
        Inl e \<Rightarrow> io_ret (Inl e, src1)
      | Inr tok \<Rightarrow>
          io_bind (base (req\<lparr>rq_headers := (rq_headers req)(''Authorization'' \<mapsto> ''Bearer '' @ tok)\<rparr>))
            (\<lambda>resp. io_ret (resp, src1)))"

text \<open>What the code relies on: reading the clock tells the time, and a token is generated with more than
a minute to live (they live about 15).\<close>

definition clock_reads :: "('g, 's) aws \<Rightarrow> ('s \<Rightarrow> int) \<Rightarrow> bool" where
  "clock_reads A clock \<longleftrightarrow> (\<forall>s. aw_now A s = (clock s, snd (aw_now A s)) \<and> clock (snd (aw_now A s)) = clock s)"

definition tokens_live :: "('g, 's) aws \<Rightarrow> ('s \<Rightarrow> int) \<Rightarrow> bool" where
  "tokens_live A clock \<longleftrightarrow>
    (\<forall>opts s tok s'. aw_token A opts s = (Inr tok, s') \<longrightarrow> clock s' < tok_expiration tok - early_refresh)"

section \<open>Lemmas\<close>

lemma current_token_live:
  assumes clock: "clock_reads A clock" and live: "tokens_live A clock"
    and run: "current_token A src s = (Ret (Inr t, src'), s')"
  shows "t = tok_text (ts_cur src') \<and> clock s' < tok_expiration (ts_cur src') - early_refresh
    \<and> token_options_of src' = token_options_of src"
proof -
  obtain fresh s1 where f: "token_fresh A src s = (Ret fresh, s1)"
    and r: "(if fresh then io_ret (Inr (tok_text (ts_cur src)), src)
      else io_try (io_call (aw_token A (token_options_of src)))
        (\<lambda>e. io_ret (Inl (wrapf (''generating IAM authenticator token for '' @ ts_cluster src @ '' (as ''
           @ ts_role src @ ''): '') e), src))
        (\<lambda>tok. io_ret (Inr (tok_text tok), src\<lparr>ts_cur := tok\<rparr>))) s1 = (Ret (Inr t, src'), s')"
    using run unfolding current_token_def by (rule io_bind_RetE)
  show ?thesis
  proof (cases fresh)
    case True
    with f clock have "clock s1 < tok_expiration (ts_cur src) - early_refresh"
      by (auto simp: token_fresh_def io_bind_def io_call_def io_ret_apply clock_reads_def split: if_splits prod.splits)
        (metis fst_conv snd_conv)+
    with r True show ?thesis by auto
  next
    case False
    with r live show ?thesis
      by (auto simp: io_try_eq_Ret io_call_def io_ret_apply tokens_live_def token_options_of_def split: prod.splits)
  qed
qed

lemma client_of_cluster_source:
  assumes "client_of_cluster A role name region host ca s = (Ret (Inr c), s')"
  shows "ac_source c = \<lparr>ts_cluster = name, ts_region = region, ts_role = role, ts_cur = no_token\<rparr>"
proof (cases "aw_decode64 A (to_string ca)")
  case (Inl e)
  with assms show ?thesis by (simp add: client_of_cluster_def)
next
  case (Inr pem)
  with assms show ?thesis
    by (cases "aw_clientset A host pem"; cases "aw_dynamic A host pem")
      (auto simp: client_of_cluster_def io_check_Inr split: if_splits)
qed

lemma new_from_aws_role_source:
  assumes "new_from_aws_role A role name region s = (Ret (Inr c), s')"
  shows "ac_source c = \<lparr>ts_cluster = name, ts_region = region, ts_role = role, ts_cur = no_token\<rparr>"
proof -
  obtain cl s1 where "client_of_description A role name region cl s1 = (Ret (Inr c), s')"
    using assms by (auto simp: new_from_aws_role_def io_wrap_Inr)
  then show ?thesis
    by (cases "ek_endpoint cl"; cases "ek_ca cl") (auto simp: client_of_description_def dest: client_of_cluster_source)
qed

section \<open>Properties\<close>

text \<open>C25: a request over a role client leaves the hub only with a bearer token of the source that has more
  than a minute to live, and what comes back is what the transport answered; otherwise nothing is sent and
  the caller sees the error.\<close>

theorem requests_carry_live_tokens:
  assumes "clock_reads A clock" and "tokens_live A clock"
    and "round_trip A base req src s = (Ret (r, src'), s')"
  shows "(\<exists>tok s1. tok = ts_cur src' \<and> clock s1 < tok_expiration tok - early_refresh
      \<and> base (req\<lparr>rq_headers := (rq_headers req)(''Authorization'' \<mapsto> ''Bearer '' @ tok_text tok)\<rparr>) s1 = (Ret r, s'))
    \<or> (\<exists>e. current_token A src s = (Ret (Inl e, src), s') \<and> r = Inl e \<and> src' = src)"
proof -
  obtain a src1 s1 where c: "current_token A src s = (Ret (a, src1), s1)"
    and r: "(case a of Inl e \<Rightarrow> io_ret (Inl e, src1)
      | Inr tok \<Rightarrow> io_bind (base (req\<lparr>rq_headers := (rq_headers req)(''Authorization'' \<mapsto> ''Bearer '' @ tok)\<rparr>))
            (\<lambda>resp. io_ret (resp, src1))) s1 = (Ret (r, src'), s')"
    using assms(3) by (auto simp: round_trip_def io_bind_eq_Ret)
  show ?thesis
  proof (cases a)
    case (Inl e)
    with c have "src1 = src"
      by (auto simp: current_token_def io_try_eq_Ret io_bind_eq_Ret split: if_splits)
    with Inl c r show ?thesis by auto
  next
    case (Inr t)
    with r have "src' = src1" "base (req\<lparr>rq_headers := (rq_headers req)(''Authorization'' \<mapsto> ''Bearer '' @ t)\<rparr>) s1 = (Ret r, s')"
      by (auto simp: io_bind_eq_Ret)
    then show ?thesis using current_token_live [OF assms(1,2) c [unfolded Inr]] by auto
  qed
qed

text \<open>A clock of the world, a generator whose tokens live a quarter of an hour, and a transport that answers with
the header it was sent.\<close>

definition demo_aws :: "('s \<Rightarrow> int) \<Rightarrow> (unit, 's) aws" where
  "demo_aws clock = \<lparr>aw_config = (\<lambda>region s. (Inr (), s)),
     aw_describe = (\<lambda>cfg role session name s. (Inr \<lparr>ek_endpoint = Some ''https://eks'', ek_ca = Some (Some ''pem''),
        ek_status = ''ACTIVE''\<rparr>, s)),
     aw_decode64 = Inr, aw_pem_ok = (\<lambda>pem. True), aw_generator = (\<lambda>s. (None, s)),
     aw_clientset = (\<lambda>host pem. None), aw_dynamic = (\<lambda>host pem. None), aw_now = (\<lambda>s. (clock s, s)),
     aw_token = (\<lambda>opts s. (Inr \<lparr>tok_text = ''t'', tok_expiration = clock s + 900 * second\<rparr>, s))\<rparr>"

definition demo_source :: token_source where
  "demo_source = \<lparr>ts_cluster = ''eks'', ts_region = ''r'', ts_role = ''arn'',
     ts_cur = \<lparr>tok_text = ''old'', tok_expiration = 60 * second\<rparr>\<rparr>"

lemma demo_aws_laws: "clock_reads (demo_aws clock) clock" "tokens_live (demo_aws clock) clock"
  by (simp_all add: clock_reads_def tokens_live_def demo_aws_def early_refresh_def second_def)

theorem requests_carry_live_tokens_witness:
  "\<exists>src'. round_trip (demo_aws (\<lambda>t. t)) (\<lambda>q. io_ret (Inr (rq_headers q ''Authorization'')))
      \<lparr>rq_headers = Map.empty, rq_rest = []\<rparr> demo_source 0 = (Ret (Inr (Some ''Bearer t''), src'), 0)
    \<and> 0 < tok_expiration (ts_cur src') - early_refresh"
proof -
  define src' where "src' = demo_source\<lparr>ts_cur := \<lparr>tok_text = ''t'', tok_expiration = 900 * second\<rparr>\<rparr>"
  have run: "round_trip (demo_aws (\<lambda>t. t)) (\<lambda>q. io_ret (Inr (rq_headers q ''Authorization'')))
      \<lparr>rq_headers = Map.empty, rq_rest = []\<rparr> demo_source 0 = (Ret (Inr (Some ''Bearer t''), src'), 0)"
    by (simp add: round_trip_def current_token_def token_fresh_def io_bind_def io_try_def io_call_def io_ret_apply
        demo_aws_def demo_source_def src'_def early_refresh_def second_def)
  show ?thesis
    using requests_carry_live_tokens [OF demo_aws_laws run] run by (auto simp: io_ret_apply)
qed

end
