(* ===== verification/Isolation.thy ===== *)
theory Isolation imports AwsRole HubAccess begin

text \<open>
  Account isolation from the caller's token to the AWS credentials: the scope check of the tools
  (mcptools), the handlers of the role manager (rolecluster) and the role a built client acts as
  (k8sclient/awsrole.go), over one inventory.
\<close>

text \<open>Every handler kept was built for the role of its cluster's account.\<close>

definition handlers_by_account :: "(aws_client, 's) manager \<Rightarrow> (string \<Rightarrow> string) \<Rightarrow> 's \<Rightarrow> bool" where
  "handlers_by_account M acct s \<longleftrightarrow>
    (\<forall>cid c. mg_handlers M s cid = Some c \<longrightarrow> ts_role (ac_source c) = role_arn (acct cid))"

text \<open>The inventory answers one account per cluster, and neither it nor building a client breaks this.\<close>

definition inventory_accounts :: "('g, 's) aws \<Rightarrow> (aws_client, 's) manager \<Rightarrow> (string \<Rightarrow> string) \<Rightarrow> bool" where
  "inventory_accounts A M acct \<longleftrightarrow>
    manager_map M \<and> mg_new_client M = new_from_aws_role A
    \<and> (\<forall>lookup. mg_inventory M = Some lookup \<longrightarrow>
        (\<forall>cid. keeps (handlers_by_account M acct) (lookup cid))
        \<and> (\<forall>cid s info s'. lookup cid s = (Ret (Inr (Some info)), s') \<longrightarrow> ci_account info = acct cid))
    \<and> (\<forall>arn eks region. keeps (handlers_by_account M acct) (new_from_aws_role A arn eks region))"

lemma manager_keep_accounts:
  assumes map: "manager_map M" and I: "handlers_by_account M acct s"
    and role: "ts_role (ac_source c) = role_arn (acct cid)"
    and run: "manager_keep M cid c s = (Ret (RoleHandler h), s')"
  shows "handlers_by_account M acct s' \<and> (\<exists>d. h = role_handler M d \<and> ts_role (ac_source d) = role_arn (acct cid))"
proof (cases "mg_handlers M s cid")
  case None
  with run map have "h = role_handler M c" "mg_handlers M s' = (mg_handlers M s)(cid \<mapsto> c)"
    by (auto simp: manager_keep_def manager_map_def)
  with I role show ?thesis by (auto simp: handlers_by_account_def)
next
  case (Some d)
  with run I show ?thesis by (auto simp: manager_keep_def handlers_by_account_def)
qed

lemma manager_handler_accounts:
  assumes laws: "inventory_accounts A M acct" and I: "handlers_by_account M acct s"
    and run: "manager_handler M cid s = (Ret (RoleHandler h), s')"
  shows "handlers_by_account M acct s' \<and> (\<exists>c. h = role_handler M c \<and> ts_role (ac_source c) = role_arn (acct cid))"
proof (cases "mg_handlers M s cid")
  case (Some c)
  with run I show ?thesis by (auto simp: manager_hit handlers_by_account_def)
next
  case None
  with run have b: "manager_build M cid s = (Ret (RoleHandler h), s')" by (simp add: manager_handler_def)
  then obtain lookup where l: "mg_inventory M = Some lookup" by (auto simp: manager_build_def split: option.splits)
  with b obtain info s1 where look: "lookup cid s = (Ret (Inr (Some info)), s1)"
    by (auto simp: manager_build_def Let_def io_try_eq_Ret split: option.splits)
  let ?eks = "if ci_eks_name info = [] then cid else ci_eks_name info"
  from b l look obtain c s2 where built: "mg_new_client M (role_arn (ci_account info)) ?eks (ci_region info) s1 = (Ret (Inr c), s2)"
    and keep: "manager_keep M cid c s2 = (Ret (RoleHandler h), s')"
    by (auto simp: manager_build_def Let_def io_try_eq_Ret)
  have acct: "ci_account info = acct cid"
    using laws l look unfolding inventory_accounts_def by blast
  have law: "mg_new_client M = new_from_aws_role A" "manager_map M"
    "keeps (handlers_by_account M acct) (lookup cid)"
    "keeps (handlers_by_account M acct) (new_from_aws_role A (role_arn (ci_account info)) ?eks (ci_region info))"
    using laws l look by (auto simp: inventory_accounts_def)
  have "handlers_by_account M acct s2"
    using keepsD [OF law(3) I] keepsD [OF law(4), of s1] look built law(1) by simp
  moreover have "ts_role (ac_source c) = role_arn (acct cid)"
    using new_from_aws_role_source built law(1) acct by fastforce
  ultimately show ?thesis using manager_keep_accounts [OF law(2) _ _ keep] by blast
qed

text \<open>C12: a caller whose token is scoped to some accounts reaches a cluster only through a client that assumes
  the read-only role of one of these accounts: after the scope check, the handler the hub resolves acts as
  the role of an account the scope allows, whether it was cached or is built now.\<close>

theorem scoped_requests_use_allowed_roles:
  assumes "inventory_accounts A M acct" and "tl_inventory T = mg_inventory M" and "tl_scope T = Some sc"
    and "handlers_by_account M acct s"
    and "check_cluster_scope T cid s = (Ret (Inr found), s1)"
    and "manager_handler M cid s1 = (Ret (RoleHandler h), s2)"
  shows "\<exists>c account. h = role_handler M c \<and> allows_account (Some sc) account
    \<and> ts_role (ac_source c) = role_arn account \<and> handlers_by_account M acct s2"
proof -
  obtain lookup info where l: "mg_inventory M = Some lookup" "lookup cid s = (Ret (Inr (Some info)), s1)"
    "allows_account (Some sc) (ci_account info)"
    using check_scope_Inr [of T cid s "fst found" "snd found" s1 sc] assms(2,3,5) by auto
  have "ci_account info = acct cid"
    using assms(1) l unfolding inventory_accounts_def by blast
  moreover have k: "keeps (handlers_by_account M acct) (lookup cid)"
    using assms(1) l(1) by (simp add: inventory_accounts_def)
  moreover from k assms(4) l(2) have "handlers_by_account M acct s1" using keepsD by fastforce
  ultimately show ?thesis using manager_handler_accounts [OF assms(1) _ assms(6)] l(3) by metis
qed

section \<open>At a concrete hub\<close>

record iso_world = cluster +
  iw_handlers :: "string \<rightharpoonup> aws_client"

definition iso_aws :: "(unit, iso_world) aws" where
  "iso_aws = demo_aws cl_now"

definition iso_lookup :: "string \<Rightarrow> (iso_world, goerr + cluster_info option) io" where
  "iso_lookup = inventory_lookup (Some (new_inventory
     [\<lparr>ci_cluster_id = ''c1'', ci_account = ''111'', ci_region = ''r'', ci_eks_name = []\<rparr>]))"

definition iso_manager :: "(aws_client, iso_world) manager" where
  "iso_manager = \<lparr>mg_inventory = Some iso_lookup, mg_registry = [], mg_new_client = new_from_aws_role iso_aws,
     mg_kube = (\<lambda>c. sim_kube), mg_handlers = iw_handlers, mg_set_handlers = (\<lambda>H s. s\<lparr>iw_handlers := H\<rparr>)\<rparr>"

definition iso_tools :: "iso_world tools" where
  "iso_tools =
    \<lparr>tl_hub = network_hub (role_only (manager_handler iso_manager)), tl_policy = new_engine Map.empty,
     tl_audit = \<lparr>as_append = (\<lambda>e. io_ret None), as_list = (\<lambda>cid. io_ret (Inr [])), as_get = (\<lambda>i. io_ret (Inr None))\<rparr>,
     tl_execution_flag = False, tl_prod_clusters = Map.empty, tl_caller_groups = [], tl_runbooks = None,
     tl_inventory = Some iso_lookup, tl_scope = Some \<lparr>ss_agent_name = ''a'', ss_accounts = [''111'' \<mapsto> True], ss_groups = []\<rparr>,
     tl_tool_access = Map.empty, tl_env = demo_env\<rparr>"

definition iso_start :: iso_world where
  "iso_start = \<lparr>cl_pods = [], cl_deps = (\<lambda>ns n. None), cl_nodes = [], cl_logs = [], cl_now = 0, iw_handlers = Map.empty\<rparr>"

lemma iso_lookup_eq: "iso_lookup cid s = (Ret (Inr (if cid = ''c1''
    then Some \<lparr>ci_cluster_id = ''c1'', ci_account = ''111'', ci_region = ''r'', ci_eks_name = []\<rparr> else None)), s)"
  by (simp add: iso_lookup_def)

lemma iso_new_client: "new_from_aws_role iso_aws arn eks region s = (Ret (Inr \<lparr>ac_host = ''https://eks'',
    ac_ca_pem = ''pem'', ac_source = \<lparr>ts_cluster = eks, ts_region = region, ts_role = arn, ts_cur = no_token\<rparr>\<rparr>), s)"
  by (simp add: new_from_aws_role_def client_of_description_def client_of_cluster_def to_string_def effect_eval
      iso_aws_def demo_aws_def)

lemma iso_laws: "inventory_accounts iso_aws iso_manager (\<lambda>cid. ''111'')"
  by (auto simp: inventory_accounts_def iso_manager_def manager_map_def keeps_def iso_lookup_eq iso_new_client
      split: if_splits)

theorem scoped_requests_use_allowed_roles_witness:
  "\<exists>h s2. manager_handler iso_manager ''c1'' iso_start = (Ret (RoleHandler h), s2)
    \<and> (\<exists>c account. h = role_handler iso_manager c \<and> allows_account (tl_scope iso_tools) account
      \<and> ts_role (ac_source c) = role_arn account)"
proof -
  have T: "tl_inventory iso_tools = mg_inventory iso_manager"
    "tl_scope iso_tools = Some \<lparr>ss_agent_name = ''a'', ss_accounts = [''111'' \<mapsto> True], ss_groups = []\<rparr>"
    by (simp_all add: iso_tools_def iso_manager_def)
  have I: "handlers_by_account iso_manager (\<lambda>cid. ''111'') iso_start"
    by (simp add: handlers_by_account_def iso_manager_def iso_start_def)
  have check: "check_cluster_scope iso_tools ''c1'' iso_start = (Ret (Inr
      (\<lparr>ci_cluster_id = ''c1'', ci_account = ''111'', ci_region = ''r'', ci_eks_name = []\<rparr>, True)), iso_start)"
    by (simp add: check_cluster_scope_def scope_check_def allows_account_def iso_tools_def iso_lookup_eq effect_eval)
  obtain h s2 where run: "manager_handler iso_manager ''c1'' iso_start = (Ret (RoleHandler h), s2)"
    by (simp add: manager_handler_def manager_build_def manager_keep_def Let_def iso_manager_def iso_start_def
        iso_lookup_eq iso_new_client effect_eval)
  show ?thesis
    using scoped_requests_use_allowed_roles [OF iso_laws T I check run] run T(2) by metis
qed

end
