(* ===== verification/AuditTrail.thy ===== *)
theory AuditTrail imports HubAccess "HOL-Library.Sublist" begin

text \<open>
  The audit trail the tools rely on: the interface of a store that keeps its trail as text, what it promises,
  and that FileStore keeps it, whatever becomes of a write. The tools only ever add to the trail.
\<close>

section \<open>The interface\<close>

text \<open>\<open>trail s\<close> is the text stored in the state \<open>s\<close>, \<open>reads\<close> what entries a text reads as, \<open>ended\<close> that it ends an
  entry. A text that reads and ends an entry is the beginning of whatever reads after it.\<close>

locale audit_trail =
  fixes A :: "'s audit_store"
    and trail :: "'s \<Rightarrow> string"
    and reads :: "string \<Rightarrow> goerr + audit_entry list"
    and ended :: "string \<Rightarrow> bool"
  assumes append_adds: "prefix (trail s) (trail (snd (as_append A e s)))"
    and get_keeps: "trail (snd (as_get A i s)) = trail s"
    and list_keeps: "trail (snd (as_list A cid s)) = trail s"
    and get_finds: "as_get A i s = (Ret (Inr found), s') \<Longrightarrow>
      \<exists>es. reads (trail s) = Inr es \<and> found = find (\<lambda>e. en_id e = i) es"
    and reads_on: "reads t = Inr es \<Longrightarrow> ended t \<Longrightarrow> prefix t u \<Longrightarrow> reads u = Inr es' \<Longrightarrow> prefix es es'"
begin

text \<open>The trail still begins with \<open>t\<close>.\<close>

definition extends :: "string \<Rightarrow> 's \<Rightarrow> bool" where
  "extends t s \<longleftrightarrow> prefix t (trail s)"

lemma extends_append: "keeps (extends t) (as_append A e)"
  using append_adds prefix_order.trans by (fastforce simp: keeps_def extends_def)

lemma extends_get: "keeps (extends t) (as_get A i)"
  using get_keeps by (simp add: keeps_def extends_def)

text \<open>What was found once is found as long as the trail extends and reads.\<close>

lemma found_stays:
  assumes "ended (trail s)" and "as_get A i s = (Ret (Inr (Some e)), s1)" and "extends (trail s) s2"
    and "as_get A i s2 = (Ret (Inr found), s3)"
  shows "found = Some e"
proof -
  from get_finds [OF assms(2)] obtain es where es: "reads (trail s) = Inr es" "find (\<lambda>e. en_id e = i) es = Some e" by auto
  from get_finds [OF assms(4)] obtain es' where es': "reads (trail s2) = Inr es'" "found = find (\<lambda>e. en_id e = i) es'" by blast
  from reads_on [OF es(1) assms(1) _ es'(1)] assms(3) obtain new where "es' = es @ new"
    by (auto simp: extends_def prefix_def)
  with es(2) es'(2) show ?thesis by (simp add: find_append)
qed

end

section \<open>FileStore keeps it\<close>

text \<open>What is relied on besides \<open>append_file\<close>: \<open>os.File.Write\<close> that fails has written some beginning of its text, the
  empty one or all of it included; reading leaves the file as it is, the reading that fails too.\<close>

definition partial_writes :: "'s file_ops \<Rightarrow> ('s \<Rightarrow> string) \<Rightarrow> bool" where
  "partial_writes F content \<longleftrightarrow>
     (\<forall>t s err s'. fo_write F t s = (Some err, s') \<longrightarrow> (\<exists>n. content s' = content s @ take n t))
   \<and> (\<forall>s. content (snd (fo_read F s)) = content s)"

locale json_log =
  fixes F :: "'s file_ops" and J :: codec and content :: "'s \<Rightarrow> string"
  assumes log_file: "append_file F content" and partial: "partial_writes F content"
begin

text \<open>What an append leaves in the file: nothing more, or a beginning of the entry's line.\<close>

lemma append_cases:
  "content (snd (file_append F J e s)) = content s
   \<or> (\<exists>line p. js_marshal J e = Inr line \<and> prefix p (line @ newline) \<and> content (snd (file_append F J e s)) = content s @ p)"
proof -
  obtain r1 s1 where opened: "fo_open_append F s = (r1, s1)" by (cases "fo_open_append F s")
  with log_file have c1: "content s1 = content s" unfolding append_file_def by (metis snd_conv)
  show ?thesis
  proof (cases "r1 = None \<and> (\<exists>line. js_marshal J e = Inr line)")
    case False
    with opened c1 show ?thesis
      by (cases r1; cases "js_marshal J e") (auto simp: file_append_def io_bind_def io_call_def io_ret_apply)
  next
    case True
    then obtain line where line: "js_marshal J e = Inr line" by blast
    obtain w s2 where w: "fo_write F (line @ newline) s1 = (w, s2)" by (cases "fo_write F (line @ newline) s1")
    have end2: "snd (file_append F J e s) = s2"
      using True opened line w by (simp add: file_append_def io_bind_def io_call_def io_ret_apply)
    have "\<exists>n. content s2 = content s @ take n (line @ newline)"
    proof (cases w)
      case None
      with w log_file have "content s2 = content s1 @ line @ newline" unfolding append_file_def by metis
      then show ?thesis by (intro exI [of _ "length (line @ newline)"]) (simp add: c1)
    next
      case (Some err)
      with w partial c1 show ?thesis unfolding partial_writes_def by metis
    qed
    then show ?thesis unfolding end2 using line take_is_prefix by blast
  qed
qed

lemma read_keeps: "content (snd (file_all F J s)) = content s"
proof -
  obtain r s1 where r: "fo_read F s = (r, s1)" by (cases "fo_read F s")
  then have "snd (file_all F J s) = s1"
    by (cases r) (simp_all add: file_all_def io_wrap_def io_try_def io_bind_def io_call_def io_ret_apply)
  moreover have "content s1 = content s" using partial r unfolding partial_writes_def by (metis snd_conv)
  ultimately show ?thesis by simp
qed

lemma get_reads:
  assumes "file_get F J i s = (Ret (Inr found), s')"
  shows "\<exists>es. read_entries F J (content s) = Inr es \<and> found = find (\<lambda>e. en_id e = i) es"
proof -
  obtain r s1 where r: "fo_read F s = (r, s1)" by (cases "fo_read F s")
  show ?thesis
  proof (cases r)
    case (Inl err)
    with assms r show ?thesis
      by (simp add: file_get_def file_all_def io_wrap_def io_try_def io_bind_def io_call_def io_ret_apply)
  next
    case (Inr d)
    with log_file r have "d = content s" unfolding append_file_def by metis
    with assms r Inr show ?thesis
      by (cases "read_entries F J d")
        (simp_all add: file_get_def file_all_def io_wrap_def io_try_def io_bind_def io_call_def io_ret_apply)
  qed
qed

end

definition ends_line :: "string \<Rightarrow> bool" where
  "ends_line t \<longleftrightarrow> t = [] \<or> last t = CHR 0x0A"

lemma read_on:
  assumes "read_entries F J t = Inr es" and "ends_line t" and "prefix t u" and "read_entries F J u = Inr es'"
  shows "prefix es es'"
proof -
  from assms(3) obtain more where "u = t @ more" by (auto simp: prefix_def)
  with read_entries_append [OF assms(1), of more] assms(2,4) show ?thesis
    by (auto simp: ends_line_def split: sum.splits)
qed

sublocale json_log \<subseteq> trail: audit_trail "file_store F J" content "read_entries F J" ends_line
proof (unfold_locales, goal_cases)
  case (1 s e)
  then show ?case using append_cases [of e s] by auto
next
  case (2 i s)
  then show ?case
    using read_keeps [of s]
    by (auto simp: file_get_def io_try_def io_bind_def io_ret_apply split: prod.split outcome.split sum.split)
next
  case (3 cid s)
  then show ?case
    using read_keeps [of s]
    by (auto simp: file_list_def io_try_def io_bind_def io_ret_apply split: prod.split outcome.split sum.split)
next
  case (4 i s found s')
  then show ?case using get_reads by simp
next
  case (5 t es u es')
  then show ?case by (rule read_on)
qed

section \<open>The tools only add to it\<close>

text \<open>Everything a tool calls besides the store keeps \<open>I\<close>.\<close>

definition calls_keep :: "'s tools \<Rightarrow> ('s \<Rightarrow> bool) \<Rightarrow> bool" where
  "calls_keep T I \<longleftrightarrow>
     (\<forall>lookup cid. tl_inventory T = Some lookup \<longrightarrow> keeps I (lookup cid))
   \<and> (\<forall>cid ns. keeps I (hb_scan (tl_hub T) cid ns)) \<and> (\<forall>cid sig. keeps I (hb_diagnose (tl_hub T) cid sig))
   \<and> (\<forall>cid ns name dep lines. keeps I (hb_get_logs (tl_hub T) cid ns name dep lines))
   \<and> (\<forall>cid. keeps I (hb_list_nodes (tl_hub T) cid)) \<and> keeps I (hb_clusters (tl_hub T))
   \<and> (\<forall>cid pid sig. keeps I (hb_execute (tl_hub T) cid pid sig))
   \<and> (\<forall>cid pid sig name m. keeps I (hb_approve_action (tl_hub T) cid pid sig name m))
   \<and> keeps I (io_call (ev_now (tl_env T))) \<and> keeps I (io_call (ev_random (tl_env T)))"

lemma calls_keepD:
  assumes "calls_keep T I"
  shows "tl_inventory T = Some lookup \<Longrightarrow> keeps I (lookup cid)" and "keeps I (hb_scan (tl_hub T) cid ns)"
    and "keeps I (hb_diagnose (tl_hub T) cid sig)" and "keeps I (hb_get_logs (tl_hub T) cid ns name dep lines)"
    and "keeps I (hb_list_nodes (tl_hub T) cid)" and "keeps I (hb_clusters (tl_hub T))"
    and "keeps I (hb_execute (tl_hub T) cid pid sig)"
    and "keeps I (hb_approve_action (tl_hub T) cid pid sig name m)"
    and "keeps I (io_call (ev_now (tl_env T)))" and "keeps I (io_call (ev_random (tl_env T)))"
  using assms by (simp_all add: calls_keep_def)

lemma calls_keep_reads:
  assumes "calls_keep T I" and "\<And>e. keeps I (as_append (tl_audit T) e)" and "\<And>i. keeps I (as_get (tl_audit T) i)"
  shows "hub_reads T I"
  using assms by (simp add: calls_keep_def hub_reads_def)

lemma keeps_tools:
  assumes r: "hub_reads T I" and c: "calls_keep T I"
  shows "keeps I (troubleshoot T i)" and "keeps I (approve_action T incident name)"
proof -
  have x: "keeps I (hb_execute (tl_hub T) cid pid sig)" and a: "keeps I (hb_approve_action (tl_hub T) cid pid sig nm m)"
    for cid pid sig nm m by (rule calls_keepD [OF c])+
  have act: "keeps I (act_on_decision T i diag d eid t)" for diag d eid t
    unfolding act_on_decision_def Let_def
    by (intro keeps_if keeps_record keeps_wrap keeps_pure x r)
  show "keeps I (troubleshoot T i)"
    unfolding troubleshoot_def
    by (intro keeps_try keeps_if keeps_check_scope keeps_pure keeps_fallback keeps_wrap keeps_decision keeps_bind keeps_stamp
        keeps_case_prod act hub_readsD(3) r)
  have run: "keeps I (run_approval T e incident name tier)" for e tier
    unfolding run_approval_def Let_def
    by (intro keeps_wrap keeps_if keeps_pure keeps_bind keeps_stamp keeps_case_prod keeps_record a r)
  show "keeps I (approve_action T incident name)"
    unfolding approve_action_def
    by (intro keeps_if keeps_pure keeps_wrap keeps_case_option keeps_try keeps_check_scope keeps_case_sum run
        hub_readsD [OF r] r)
qed

context audit_trail begin

lemma tools_extend:
  assumes "tl_audit T = A" and "calls_keep T (extends t)"
  shows "keeps (extends t) (troubleshoot T i)" and "keeps (extends t) (approve_action T incident name)"
    and "keeps (extends t) (get_postmortem T incident)" and "keeps (extends t) (scan_cluster T cid ns)"
    and "keeps (extends t) (list_nodes_tool T cid region)" and "keeps (extends t) (list_clusters T)"
proof -
  have r: "hub_reads T (extends t)"
    by (rule calls_keep_reads [OF assms(2)]) (simp_all add: assms(1) extends_append extends_get)
  show "keeps (extends t) (troubleshoot T i)" "keeps (extends t) (approve_action T incident name)"
    by (rule keeps_tools [OF r assms(2)])+
  show "keeps (extends t) (get_postmortem T incident)" "keeps (extends t) (scan_cluster T cid ns)"
    "keeps (extends t) (list_nodes_tool T cid region)" "keeps (extends t) (list_clusters T)"
    by (rule keeps_postmortem [OF r], rule keeps_scan_tool [OF r], rule keeps_list_nodes_tool [OF r], rule keeps_list_clusters [OF r])
qed

end

text \<open>From \<open>s\<close> to \<open>s'\<close> the trail has only grown: the text of before is the beginning of the text after, and if both
  read, so are the entries.\<close>

definition trail_grown :: "'s file_ops \<Rightarrow> codec \<Rightarrow> ('s \<Rightarrow> string) \<Rightarrow> 's \<Rightarrow> 's \<Rightarrow> bool" where
  "trail_grown F J content s s' \<longleftrightarrow> prefix (content s) (content s')
     \<and> (\<forall>es es'. holds_log F J content s es \<longrightarrow> read_entries F J (content s') = Inr es' \<longrightarrow> prefix es es')"

lemma grown_from_prefix: "prefix (content s) (content s') \<Longrightarrow> trail_grown F J content s s'"
  using read_on [of F J "content s" _ "content s'"] by (auto simp: trail_grown_def holds_log_def ends_line_def)

context json_log begin

lemma trail_grows:
  assumes "\<And>t. calls_keep T (\<lambda>s. prefix t (content s))" and "tl_audit T = file_store F J"
  shows "trail_grown F J content s (snd (troubleshoot T i s))"
    and "trail_grown F J content s (snd (approve_action T incident name s))"
    and "trail_grown F J content s (snd (get_postmortem T incident s))"
    and "trail_grown F J content s (snd (scan_cluster T cid ns s))"
    and "trail_grown F J content s (snd (list_nodes_tool T cid region s))"
    and "trail_grown F J content s (snd (list_clusters T s))"
proof -
  have calls: "calls_keep T (trail.extends (content s))"
    using assms(1) [of "content s"] by (simp add: trail.extends_def [abs_def])
  have start: "trail.extends (content s) s" by (simp add: trail.extends_def)
  have grown: "trail_grown F J content s (snd (m s))" if "keeps (trail.extends (content s)) m" for m :: "('s, 'b) io"
    using keepsD [OF that start] by (intro grown_from_prefix) (simp add: trail.extends_def)
  note t = trail.tools_extend [OF assms(2) calls]
  show "trail_grown F J content s (snd (troubleshoot T i s))" "trail_grown F J content s (snd (approve_action T incident name s))"
    "trail_grown F J content s (snd (get_postmortem T incident s))" "trail_grown F J content s (snd (scan_cluster T cid ns s))"
    "trail_grown F J content s (snd (list_nodes_tool T cid region s))" "trail_grown F J content s (snd (list_clusters T s))"
    by (rule grown, rule t)+
qed

end

text \<open>C17: the audit trail is append-only: whatever a caller asks any of the tools, however the call ends and however
  its write ends, cut short or not, the file after the call begins with the file before it, byte for byte, and
  as long as it can be read back its entries begin with the entries before. Other requests may append at the
  same time.\<close>

theorem trail_only_grows:
  assumes "append_file F content" and "partial_writes F content"
    and "\<forall>t. calls_keep T (\<lambda>s. prefix t (content s))" and "tl_audit T = file_store F J"
  shows "trail_grown F J content s (snd (troubleshoot T i s))
    \<and> trail_grown F J content s (snd (approve_action T incident name s))
    \<and> trail_grown F J content s (snd (get_postmortem T incident s))
    \<and> trail_grown F J content s (snd (scan_cluster T cid ns s))
    \<and> trail_grown F J content s (snd (list_nodes_tool T cid region s))
    \<and> trail_grown F J content s (snd (list_clusters T s))"
  by (intro conjI json_log.trail_grows [OF json_log.intro [OF assms(1,2)] spec [OF assms(3)] assms(4)])

text \<open>A hub with no playbook for the signal and no runbooks, on a disk with one byte left: the write of the entry is
  cut short, the call fails, and the trail has grown by that byte.\<close>

definition full_disk :: "string file_ops" where
  "full_disk = \<lparr>fo_open_append = (\<lambda>s. (None, s)),
     fo_write = (\<lambda>t s. (Some (errorf ''no space left on device''), s @ take 1 t)),
     fo_read = (\<lambda>s. (Inr s, s)), fo_path = ''audit.jsonl''\<rparr>"

definition any_codec :: codec where
  "any_codec = \<lparr>js_marshal = (\<lambda>e. Inr ''{}''), js_unmarshal = (\<lambda>t. Inl (errorf []))\<rparr>"

definition no_answer :: "('s, goerr + 'a) io" where
  "no_answer = io_ret (Inl (errorf ''not connected''))"

definition unknown_signal :: diagnose_response where
  "unknown_signal = \<lparr>dr_request_id = [], dr_playbook_id = [], dr_summary = [], dr_proposed = [],
     dr_error = [], dr_no_playbook = True, dr_meta = Map.empty\<rparr>"

definition full_disk_tools :: "string tools" where
  "full_disk_tools =
    \<lparr>tl_hub = \<lparr>hb_scan = (\<lambda>cid ns. no_answer), hb_diagnose = (\<lambda>cid sig. io_ret (Inr unknown_signal)),
       hb_execute = (\<lambda>cid pid sig. no_answer), hb_get_logs = (\<lambda>cid ns name dep t. no_answer),
       hb_approve_action = (\<lambda>cid pid sig name m. no_answer), hb_list_nodes = (\<lambda>cid. no_answer), hb_clusters = no_answer\<rparr>,
     tl_policy = new_engine Map.empty, tl_audit = file_store full_disk any_codec, tl_execution_flag = True,
     tl_prod_clusters = Map.empty, tl_caller_groups = [], tl_runbooks = None, tl_inventory = None, tl_scope = None,
     tl_tool_access = Map.empty, tl_env = demo_env\<rparr>"

interpretation full: json_log full_disk any_codec "\<lambda>s. s"
proof unfold_locales
  show "append_file full_disk (\<lambda>s. s)" by (auto simp: append_file_def full_disk_def)
  show "partial_writes full_disk (\<lambda>s. s)" by (auto simp: partial_writes_def full_disk_def)
qed

lemma full_disk_run: "\<exists>err. troubleshoot full_disk_tools demo_in t = (Ret (Inl err), t @ ''{'')"
proof -
  have scope: "check_cluster_scope full_disk_tools (ti_cluster_id demo_in) t = (Ret (Inr (no_info, False)), t)"
    by (simp add: check_cluster_scope_def scope_check_def full_disk_tools_def io_ret_apply)
  have diag: "hb_diagnose (tl_hub full_disk_tools) cid sig = io_ret (Inr unknown_signal)" for cid sig
    by (simp add: full_disk_tools_def)
  have env: "tl_env full_disk_tools = demo_env" by (simp add: full_disk_tools_def)
  have d: "dr_error unknown_signal = []" "dr_no_playbook unknown_signal" by (simp_all add: unknown_signal_def)
  have "\<exists>summary cmds. fallback_answer full_disk_tools demo_in = io_ret (summary, cmds)"
    unfolding fallback_answer_def by (simp add: full_disk_tools_def) ((rule exI)+, rule refl)
  then obtain summary cmds where answer: "fallback_answer full_disk_tools demo_in = io_ret (summary, cmds)" by blast
  have append: "as_append (tl_audit full_disk_tools) e t
      = (Ret (Some (wrapf ''writing audit entry: '' (errorf ''no space left on device''))), t @ ''{'')" for e
    by (simp add: full_disk_tools_def file_append_def full_disk_def any_codec_def io_bind_def io_call_def io_ret_apply)
  have "\<exists>err. runbook_fallback full_disk_tools demo_in t = (Ret (Inl err), t @ ''{'')"
    unfolding runbook_fallback_def answer
    by (simp add: stamp_def record_entry_def env demo_env_def io_check_def io_bind_def io_call_def io_ret_apply append)
  then show ?thesis
    using scope d by (auto simp: troubleshoot_def diag io_try_def io_bind_def io_ret_apply)
qed

theorem trail_only_grows_witness:
  "\<exists>err s'. troubleshoot full_disk_tools demo_in (''{}'' @ newline) = (Ret (Inl err), s')
     \<and> s' = ''{}'' @ newline @ ''{'' \<and> prefix (''{}'' @ newline) s'"
proof -
  have calls: "\<forall>t. calls_keep full_disk_tools (\<lambda>s. prefix t s)"
    by (simp add: calls_keep_def full_disk_tools_def no_answer_def demo_env_def keeps_def io_call_def io_ret_apply)
  have aud: "tl_audit full_disk_tools = file_store full_disk any_codec" by (simp add: full_disk_tools_def)
  from trail_only_grows [OF full.log_file full.partial calls aud, of "''{}'' @ newline" demo_in]
  have "prefix (''{}'' @ newline) (snd (troubleshoot full_disk_tools demo_in (''{}'' @ newline)))"
    by (simp add: trail_grown_def)
  with full_disk_run [of "''{}'' @ newline"] show ?thesis by auto
qed

end
