(* ===== verification/AgentChannel.thy ===== *)
theory AgentChannel imports Transport "HOL-Library.Multiset" begin

text \<open>
  internal/transport, the two sides together: the agent's session (\<open>Client.runOnce\<close> of client.go) and the
  hub's connection (\<open>Server.Session\<close>, \<open>agentConn\<close> and the waiters of server.go) over one gRPC stream.

  \<^item> \<open>run_once\<close>: one session of the agent, over what gRPC gives it (\<open>link\<close>): dial, open the stream, send
    the Hello, then start a goroutine for every message received until receiving fails.
  \<^item> \<open>channel\<close>: the stream as two queues of messages in transit, the hub's connection at one end, the
    agent's goroutines at the other, and the history of the requests sent and of those whose handler has
    run. The steps interleave the hub's requests, its receive loop, the agent's receive loop and its
    goroutines in any order; the stream may break and the agent's process may die at any time.

  A goroutine's handler is one step, from any state of the cluster: what runs besides it is not seen. That
  a request id is fresh is what \<open>newRequestID\<close> takes from \<open>crypto/rand\<close>.
\<close>

section \<open>One session of the agent\<close>

record ('c, 's) client =
  cl_addr :: string
  cl_cluster_id :: string
  cl_version :: string
  cl_creds :: 'c
  cl_handler :: "'s handler"

record ('c, 's) link =
  lk_dial :: "'c \<Rightarrow> string \<Rightarrow> goerr option"
  lk_session :: "'s \<Rightarrow> goerr option \<times> 's"
  lk_send :: "agent_message \<Rightarrow> 's \<Rightarrow> goerr option \<times> 's"
  lk_recv :: "'s \<Rightarrow> (goerr + hub_message) \<times> 's"
  lk_go :: "hub_message \<Rightarrow> 's \<Rightarrow> 's"

definition hello_of :: "('c, 's) client \<Rightarrow> agent_message" where
  "hello_of c = AHello (cl_cluster_id c) (cl_version c)"

text \<open>The receive loop, for at most \<open>n\<close> messages: the loop itself has no bound.\<close>

fun serve :: "nat \<Rightarrow> ('c, 's) link \<Rightarrow> ('s, goerr) io" where
  "serve 0 L = io_hang"
| "serve (Suc n) L =
    io_try (io_call (lk_recv L)) (\<lambda>e. io_ret (wrapf ''receiving from hub: '' e))
      (\<lambda>msg. io_bind (io_call (\<lambda>s. ((), lk_go L msg s))) (\<lambda>_. serve n L))"

definition run_once :: "nat \<Rightarrow> ('c, 's) link \<Rightarrow> ('c, 't) client \<Rightarrow> ('s, goerr) io" where
  "run_once n L c =
    (case lk_dial L (cl_creds c) (cl_addr c) of
       Some e \<Rightarrow> io_ret (wrapf (''dialing hub at '' @ cl_addr c @ '': '') e)
     | None \<Rightarrow>
        io_bind (io_call (lk_session L)) (\<lambda>e.
          case e of
            Some e \<Rightarrow> io_ret (wrapf ''opening session: '' e)
          | None \<Rightarrow>
              io_bind (io_call (lk_send L (hello_of c))) (\<lambda>e.
                case e of
                  Some e \<Rightarrow> io_ret (wrapf ''sending hello: '' e)
                | None \<Rightarrow> serve n L)))"

text \<open>A goroutine: it answers and sends, and only logs a failure to send.\<close>

definition answer_request :: "(agent_message \<Rightarrow> 's \<Rightarrow> goerr option \<times> 's) \<Rightarrow> ('c, 's) client \<Rightarrow> hub_message \<Rightarrow> ('s, unit) io" where
  "answer_request send c msg =
    io_bind (client_answer (cl_handler c) msg) (\<lambda>r. io_bind (io_call (send r)) (\<lambda>_. io_ret ()))"

section \<open>The hub's first look at a session\<close>

definition session_first :: "goerr + agent_message \<Rightarrow> goerr + string" where
  "session_first got =
    (case got of
       Inl e \<Rightarrow> Inl (wrapf ''receiving hello: '' e)
     | Inr (AHello cid v) \<Rightarrow>
         if cid = [] then Inl (errorf ''first message on a session must be a Hello with a cluster_id'') else Inr cid
     | Inr _ \<Rightarrow> Inl (errorf ''first message on a session must be a Hello with a cluster_id''))"

lemma session_first_Inr: "session_first (Inr m) = Inr cid \<longleftrightarrow> cid \<noteq> [] \<and> (\<exists>v. m = AHello cid v)"
  by (cases m) (auto simp: session_first_def)

section \<open>The stream\<close>

record channel =
  ch_cluster :: "string option"
  ch_open :: bool
  ch_conn :: conn
  ch_owners :: "string list"
  ch_down :: "hub_message list"
  ch_jobs :: "hub_message list"
  ch_up :: "agent_message list"
  ch_sent :: "hub_message list"
  ch_ran :: "hub_message list"

definition open_channel :: "('c, 's) client \<Rightarrow> channel" where
  "open_channel c = \<lparr>ch_cluster = None, ch_open = True, ch_conn = new_conn, ch_owners = [], ch_down = [],
     ch_jobs = [], ch_up = [hello_of c], ch_sent = [], ch_ran = []\<rparr>"

definition stream_break :: "channel \<Rightarrow> channel" where
  "stream_break X = X\<lparr>ch_open := False, ch_down := [], ch_up := []\<rparr>"

text \<open>The hub: \<open>Session\<close>'s first message and its receive loop, and a request's four steps.\<close>

definition hub_accept :: "channel \<Rightarrow> channel" where
  "hub_accept X =
    (case session_first (Inr (hd (ch_up X))) of
       Inl e \<Rightarrow> stream_break X
     | Inr cid \<Rightarrow> X\<lparr>ch_cluster := Some cid, ch_up := tl (ch_up X)\<rparr>)"

definition hub_dispatch :: "channel \<Rightarrow> channel" where
  "hub_dispatch X = X\<lparr>ch_conn := conn_dispatch (hd (ch_up X)) (ch_conn X), ch_up := tl (ch_up X)\<rparr>"

definition hub_await :: "string \<Rightarrow> channel \<Rightarrow> channel" where
  "hub_await rid X = X\<lparr>ch_conn := conn_await rid (ch_conn X), ch_owners := ch_owners X @ [rid]\<rparr>"

definition hub_send :: "hub_message \<Rightarrow> channel \<Rightarrow> channel" where
  "hub_send q X = X\<lparr>ch_down := ch_down X @ [q], ch_sent := ch_sent X @ [q]\<rparr>"

definition hub_take :: "nat \<Rightarrow> channel \<Rightarrow> channel" where
  "hub_take h X = X\<lparr>ch_conn := conn_receive h (ch_conn X)\<rparr>"

definition hub_forget :: "string \<Rightarrow> channel \<Rightarrow> channel" where
  "hub_forget rid X = X\<lparr>ch_conn := conn_forget rid (ch_conn X)\<rparr>"

text \<open>The agent: its receive loop, a goroutine that answers, a goroutine that panics and with it the process.\<close>

definition agent_receive :: "channel \<Rightarrow> channel" where
  "agent_receive X = X\<lparr>ch_down := tl (ch_down X), ch_jobs := ch_jobs X @ [hd (ch_down X)]\<rparr>"

definition agent_done :: "hub_message \<Rightarrow> agent_message \<Rightarrow> channel \<Rightarrow> channel" where
  "agent_done q r X = X\<lparr>ch_jobs := remove1 q (ch_jobs X), ch_ran := ch_ran X @ [q],
     ch_up := (if ch_open X then ch_up X @ [r] else ch_up X)\<rparr>"

definition agent_dies :: "hub_message \<Rightarrow> channel \<Rightarrow> channel" where
  "agent_dies q X = (stream_break X)\<lparr>ch_jobs := [], ch_ran := ch_ran X @ [q]\<rparr>"

text \<open>\<open>answers h q r\<close>: from some state of the cluster the handler answers the request \<open>q\<close> with \<open>r\<close>.\<close>

definition answers :: "'s handler \<Rightarrow> hub_message \<Rightarrow> agent_message \<Rightarrow> bool" where
  "answers h q r \<longleftrightarrow> (\<exists>w w'. client_answer h q w = (Ret r, w'))"

definition may_panic :: "'s handler \<Rightarrow> hub_message \<Rightarrow> bool" where
  "may_panic h q \<longleftrightarrow> (\<exists>w p w'. client_answer h q w = (Panic p, w'))"

inductive channel_step :: "('c, 's) client \<Rightarrow> channel \<Rightarrow> channel \<Rightarrow> bool" for c where
  accept: "ch_open X \<Longrightarrow> ch_cluster X = None \<Longrightarrow> ch_up X \<noteq> [] \<Longrightarrow> channel_step c X (hub_accept X)"
| dispatch: "ch_open X \<Longrightarrow> ch_cluster X \<noteq> None \<Longrightarrow> ch_up X \<noteq> [] \<Longrightarrow> channel_step c X (hub_dispatch X)"
| await: "ch_cluster X \<noteq> None \<Longrightarrow> rid \<notin> set (ch_owners X) \<Longrightarrow> channel_step c X (hub_await rid X)"
| send: "ch_open X \<Longrightarrow> hub_request_id q \<in> set (ch_owners X) \<Longrightarrow> hub_request_id q \<notin> hub_request_id ` set (ch_sent X) \<Longrightarrow>
    channel_step c X (hub_send q X)"
| take: "cn_chans (ch_conn X) h \<noteq> [] \<Longrightarrow> channel_step c X (hub_take h X)"
| forget: "channel_step c X (hub_forget rid X)"
| receive: "ch_open X \<Longrightarrow> ch_down X \<noteq> [] \<Longrightarrow> channel_step c X (agent_receive X)"
| replies: "q \<in> set (ch_jobs X) \<Longrightarrow> answers (cl_handler c) q r \<Longrightarrow> channel_step c X (agent_done q r X)"
| dies: "q \<in> set (ch_jobs X) \<Longrightarrow> may_panic (cl_handler c) q \<Longrightarrow> channel_step c X (agent_dies q X)"
| breaks: "channel_step c X (stream_break X)"

inductive channel_reachable :: "('c, 's) client \<Rightarrow> channel \<Rightarrow> bool" for c where
  start: "channel_reachable c (open_channel c)"
| step: "channel_reachable c X \<Longrightarrow> channel_step c X Y \<Longrightarrow> channel_reachable c Y"

section \<open>The invariant\<close>

text \<open>Every reply in transit or delivered answers a request whose handler ran, under that request's id.\<close>

definition answered_by :: "'s handler \<Rightarrow> hub_message list \<Rightarrow> agent_message \<Rightarrow> bool" where
  "answered_by h qs r \<longleftrightarrow> (\<exists>q \<in> set qs. answers h q r)"

lemma answered_by_append: "answered_by h qs r \<Longrightarrow> answered_by h (qs @ qs') r"
  by (auto simp: answered_by_def)

lemma answered_by_last: "answers h q r \<Longrightarrow> answered_by h (qs @ [q]) r"
  by (auto simp: answered_by_def)

lemma answers_id: "answers h q r \<Longrightarrow> request_id_of r = Some (hub_request_id q)"
  unfolding answers_def by (auto intro: client_answer_id)

definition conn_part :: "('c, 's) client \<Rightarrow> channel \<Rightarrow> bool" where
  "conn_part c X \<longleftrightarrow> conn_ok (ch_conn X, ch_owners X) \<and> distinct (ch_owners X)
    \<and> (\<forall>h. \<forall>r \<in> set (cn_chans (ch_conn X) h). answered_by (cl_handler c) (ch_ran X) r)"

definition sent_part :: "channel \<Rightarrow> bool" where
  "sent_part X \<longleftrightarrow> distinct (map hub_request_id (ch_sent X)) \<and> hub_request_id ` set (ch_sent X) \<subseteq> set (ch_owners X)
    \<and> mset (ch_down X) + mset (ch_jobs X) + mset (ch_ran X) \<subseteq># mset (ch_sent X)
    \<and> (ch_open X \<longrightarrow> mset (ch_down X) + mset (ch_jobs X) + mset (ch_ran X) = mset (ch_sent X))"

definition hello_part :: "('c, 's) client \<Rightarrow> channel \<Rightarrow> bool" where
  "hello_part c X \<longleftrightarrow> (case ch_cluster X of
       None \<Rightarrow> ch_up X = (if ch_open X then [hello_of c] else []) \<and> ch_sent X = [] \<and> ch_owners X = []
         \<and> ch_down X = [] \<and> ch_jobs X = [] \<and> ch_ran X = []
     | Some cid \<Rightarrow> cid = cl_cluster_id c \<and> cid \<noteq> [] \<and> (\<forall>r \<in> set (ch_up X). answered_by (cl_handler c) (ch_ran X) r))"

text \<open>While the stream is open, the reply of a request that still waits is on its way.\<close>

definition kept_part :: "('c, 's) client \<Rightarrow> channel \<Rightarrow> bool" where
  "kept_part c X \<longleftrightarrow> (ch_open X \<longrightarrow> (\<forall>q \<in> set (ch_ran X). cn_pending (ch_conn X) (hub_request_id q) \<noteq> None \<longrightarrow>
     (\<exists>r \<in> set (ch_up X). answers (cl_handler c) q r)))"

named_theorems channel_ops

lemmas [channel_ops] = hub_accept_def hub_dispatch_def hub_await_def hub_send_def hub_take_def hub_forget_def
  agent_receive_def agent_done_def agent_dies_def stream_break_def

lemma chans_dispatch:
  "r \<in> set (cn_chans (conn_dispatch m k) h) \<Longrightarrow> r = m \<or> r \<in> set (cn_chans k h)"
  by (auto simp: conn_dispatch_def split: option.splits if_splits)

lemma conn_part_step:
  assumes "conn_part c X" and hp: "hello_part c X" and st: "channel_step c X Y"
  shows "conn_part c Y"
proof -
  have ok: "conn_ok (ch_conn X, ch_owners X)" and d: "distinct (ch_owners X)"
    and ans: "\<And>h r. r \<in> set (cn_chans (ch_conn X) h) \<Longrightarrow> answered_by (cl_handler c) (ch_ran X) r"
    using assms(1) by (auto simp: conn_part_def)
  note moved = conn_ok_step [OF ok]
  from st show ?thesis
  proof cases
    case accept
    then show ?thesis using assms(1) by (auto simp: conn_part_def channel_ops split: sum.splits)
  next
    case dispatch
    have "answered_by (cl_handler c) (ch_ran X) (hd (ch_up X))"
      using hp dispatch by (auto simp: hello_part_def)
    then show ?thesis using dispatch moved [OF conn_step.dispatch] d ans
      by (auto simp: conn_part_def channel_ops dest!: chans_dispatch)
  next
    case (await rid)
    then show ?thesis using moved [OF conn_step.await] d ans
      by (auto simp: conn_part_def channel_ops conn_await_def)
  next
    case (take h)
    then show ?thesis using moved [OF conn_step.receive] d ans
      by (auto simp: conn_part_def channel_ops conn_receive_def dest: list.set_sel(2))
  next
    case (forget rid)
    then show ?thesis using moved [OF conn_step.forget] d ans
      by (auto simp: conn_part_def channel_ops conn_forget_def)
  qed (use assms(1) in \<open>auto simp: conn_part_def channel_ops intro: answered_by_append\<close>)
qed

lemma sent_part_step:
  assumes "sent_part X" and hp: "hello_part c X" and st: "channel_step c X Y"
  shows "sent_part Y"
  using st
proof cases
  case receive
  then obtain q qs where "ch_down X = q # qs" by (cases "ch_down X") auto
  with receive assms(1) show ?thesis by (auto simp: sent_part_def channel_ops)
next
  case (replies q r)
  then have "mset (ch_jobs X) = add_mset q (mset (remove1 q (ch_jobs X)))" by simp
  with replies assms(1) show ?thesis by (simp add: sent_part_def channel_ops del: mset_remove1)
next
  case (dies q)
  then have "add_mset q (mset (ch_ran X)) \<subseteq># mset (ch_down X) + mset (ch_jobs X) + mset (ch_ran X)"
    by (simp add: subset_mset.add_increasing)
  moreover have "\<dots> \<subseteq># mset (ch_sent X)" using assms(1) by (simp add: sent_part_def)
  ultimately have "add_mset q (mset (ch_ran X)) \<subseteq># mset (ch_sent X)" by (rule subset_mset.order_trans)
  with dies assms(1) show ?thesis by (simp add: sent_part_def channel_ops)
next
  case breaks
  have "mset (ch_jobs X) + mset (ch_ran X) \<subseteq># mset (ch_down X) + mset (ch_jobs X) + mset (ch_ran X)"
    by (simp add: subset_mset.add_increasing)
  moreover have "\<dots> \<subseteq># mset (ch_sent X)" using assms(1) by (simp add: sent_part_def)
  ultimately have "mset (ch_jobs X) + mset (ch_ran X) \<subseteq># mset (ch_sent X)" by (rule subset_mset.order_trans)
  with breaks assms(1) show ?thesis by (simp add: sent_part_def channel_ops)
next
  case accept
  with assms(1) hp show ?thesis
    by (auto simp: sent_part_def channel_ops hello_part_def split: sum.splits)
qed (use assms(1) in \<open>auto simp: sent_part_def channel_ops\<close>)

lemma hello_part_step:
  assumes "hello_part c X" and st: "channel_step c X Y"
  shows "hello_part c Y"
  using st
proof cases
  case accept
  with assms(1) show ?thesis
    by (auto simp: hello_part_def channel_ops session_first_Inr hello_of_def split: sum.splits)
next
  case dispatch
  then obtain r rs where "ch_up X = r # rs" by (cases "ch_up X") auto
  with dispatch assms(1) show ?thesis by (auto simp: hello_part_def channel_ops)
next
  case (send q)
  with assms(1) show ?thesis by (auto simp: hello_part_def channel_ops split: option.splits)
next
  case (receive)
  with assms(1) show ?thesis by (auto simp: hello_part_def channel_ops split: option.splits)
next
  case (replies q r)
  then show ?thesis using assms(1) 
    by (auto simp: hello_part_def channel_ops answered_by_append answered_by_last split: option.splits)
qed (use assms(1) in \<open>auto simp: hello_part_def channel_ops split: option.splits\<close>)

lemma pending_dispatch:
  "cn_pending (conn_dispatch m k) rid = (if request_id_of m = Some rid then None else cn_pending k rid)"
  by (auto simp: conn_dispatch_def split: option.splits)

lemma ran_was_sent:
  assumes "sent_part X" and "q \<in> set (ch_ran X) \<union> set (ch_jobs X) \<union> set (ch_down X)"
  shows "q \<in> set (ch_sent X)"
proof -
  have "set_mset (mset (ch_down X) + mset (ch_jobs X) + mset (ch_ran X)) \<subseteq> set_mset (mset (ch_sent X))"
    using assms(1) by (intro set_mset_mono) (simp add: sent_part_def)
  with assms(2) show ?thesis by auto
qed

lemma kept_part_step:
  assumes "kept_part c X" and hp: "hello_part c X" and sp: "sent_part X" and st: "channel_step c X Y"
  shows "kept_part c Y"
  using st
proof cases
  case accept
  with assms(1) hp show ?thesis by (auto simp: kept_part_def hello_part_def channel_ops split: sum.splits)
next
  case dispatch
  then obtain m rs where up: "ch_up X = m # rs" by (cases "ch_up X") auto
  have "\<exists>r \<in> set rs. answers (cl_handler c) q r"
    if "q \<in> set (ch_ran X)" and pend: "cn_pending (conn_dispatch m (ch_conn X)) (hub_request_id q) \<noteq> None" for q
  proof -
    have other: "request_id_of m \<noteq> Some (hub_request_id q)" "cn_pending (ch_conn X) (hub_request_id q) \<noteq> None"
      using pend by (auto simp: pending_dispatch split: if_splits)
    with assms(1) that(1) dispatch up obtain r where "r = m \<or> r \<in> set rs" "answers (cl_handler c) q r"
      by (auto simp: kept_part_def)
    with other(1) answers_id [of "cl_handler c" q r] show ?thesis by blast
  qed
  with dispatch up show ?thesis by (simp add: kept_part_def channel_ops)
next
  case (await rid)
  have "hub_request_id q \<noteq> rid" if "q \<in> set (ch_ran X)" for q
    using ran_was_sent [OF sp, of q] that await sp by (auto simp: sent_part_def)
  with await assms(1) show ?thesis by (auto simp: kept_part_def channel_ops conn_await_def)
next
  case (replies q r)
  with assms(1) show ?thesis by (auto simp: kept_part_def channel_ops)
qed (use assms(1) in \<open>auto simp: kept_part_def channel_ops conn_receive_def conn_forget_def split: if_splits\<close>)

definition channel_ok :: "('c, 's) client \<Rightarrow> channel \<Rightarrow> bool" where
  "channel_ok c X \<longleftrightarrow> conn_part c X \<and> sent_part X \<and> hello_part c X \<and> kept_part c X"

lemma channel_ok_step: "channel_ok c X \<Longrightarrow> channel_step c X Y \<Longrightarrow> channel_ok c Y"
  unfolding channel_ok_def
  by (blast intro: conn_part_step sent_part_step hello_part_step kept_part_step)

lemma channel_reachable_ok: "channel_reachable c X \<Longrightarrow> channel_ok c X"
proof (induction rule: channel_reachable.induct)
  case start
  show ?case
    by (simp add: channel_ok_def conn_part_def sent_part_def hello_part_def kept_part_def open_channel_def
        conn_ok_def new_conn_def)
next
  case (step X Y)
  then show ?case by (blast intro: channel_ok_step)
qed

text \<open>A request id names one request: what waits for it can only get the answer to that request.\<close>

lemma same_id_same_request:
  assumes "sent_part X" and "q \<in> set (ch_sent X)" and "q' \<in> set (ch_sent X)" and "hub_request_id q = hub_request_id q'"
  shows "q = q'"
  using assms by (auto simp: sent_part_def distinct_map dest: inj_onD)

section \<open>Every request can still be answered\<close>

text \<open>From a state where a request waits and the stream is open, the steps to its answer.\<close>

definition waits_for :: "hub_message \<Rightarrow> nat \<Rightarrow> channel \<Rightarrow> bool" where
  "waits_for q h X \<longleftrightarrow> ch_open X \<and> q \<in> set (ch_sent X) \<and> cn_pending (ch_conn X) (hub_request_id q) = Some h"

definition delivered :: "('c, 's) client \<Rightarrow> hub_message \<Rightarrow> nat \<Rightarrow> channel \<Rightarrow> bool" where
  "delivered c q h X \<longleftrightarrow> (\<exists>r. cn_chans (ch_conn X) h = [r] \<and> answers (cl_handler c) q r)"

lemma dispatches_deliver:
  assumes "channel_reachable c X" and "waits_for q h X" and "r \<in> set (ch_up X)" and "answers (cl_handler c) q r"
  shows "\<exists>Y. (channel_step c)\<^sup>*\<^sup>* X Y \<and> delivered c q h Y"
  using assms
proof (induction "ch_up X" arbitrary: X)
  case Nil
  then show ?case by simp
next
  case (Cons m rs)
  note ok = channel_reachable_ok [OF Cons.prems(1)]
  have sp: "sent_part X" and hp: "hello_part c X" and cp: "conn_part c X" using ok by (simp_all add: channel_ok_def)
  have op: "ch_open X" and sent: "q \<in> set (ch_sent X)" and pend: "cn_pending (ch_conn X) (hub_request_id q) = Some h"
    using Cons.prems(2) by (simp_all add: waits_for_def)
  have conn: "ch_cluster X \<noteq> None" using hp sent by (cases "ch_cluster X") (auto simp: hello_part_def)
  have st: "channel_step c X (hub_dispatch X)" using op conn Cons.hyps(2) by (intro channel_step.dispatch) auto
  show ?case
  proof (cases "request_id_of m = Some (hub_request_id q)")
    case True
    have "answered_by (cl_handler c) (ch_ran X) m" using hp conn Cons.hyps(2) [symmetric] by (auto simp: hello_part_def)
    then obtain q' where q': "q' \<in> set (ch_ran X)" "answers (cl_handler c) q' m" by (auto simp: answered_by_def)
    have "q' = q" using same_id_same_request [OF sp _ sent] ran_was_sent [OF sp] q' True answers_id [OF q'(2)] by auto
    moreover have "cn_chans (ch_conn X) h = []" using cp pend by (auto simp: conn_part_def conn_ok_def)
    ultimately have "delivered c q h (hub_dispatch X)"
      using True q'(2) Cons.hyps(2) [symmetric] pend by (simp add: delivered_def hub_dispatch_def conn_dispatch_def)
    with st show ?thesis by blast
  next
    case False
    with Cons.hyps(2) [symmetric] Cons.prems(3,4) have r: "r \<in> set rs" by (auto dest: answers_id)
    have "waits_for q h (hub_dispatch X)"
      using op sent pend False Cons.hyps(2) [symmetric] by (simp add: waits_for_def hub_dispatch_def pending_dispatch)
    moreover have "rs = ch_up (hub_dispatch X)" using Cons.hyps(2) [symmetric] by (simp add: hub_dispatch_def)
    ultimately obtain Y where "(channel_step c)\<^sup>*\<^sup>* (hub_dispatch X) Y" "delivered c q h Y"
      using Cons.hyps(1) [of "hub_dispatch X"] channel_reachable.step [OF Cons.prems(1) st] r Cons.prems(4) by blast
    with st show ?thesis by (blast intro: converse_rtranclp_into_rtranclp)
  qed
qed

lemma receives_start:
  assumes "waits_for q h X" and "q \<in> set (ch_down X)"
  shows "\<exists>Y. (channel_step c)\<^sup>*\<^sup>* X Y \<and> waits_for q h Y \<and> q \<in> set (ch_jobs Y)"
  using assms
proof (induction "ch_down X" arbitrary: X)
  case Nil
  then show ?case by simp
next
  case (Cons m qs)
  have st: "channel_step c X (agent_receive X)"
    using Cons.prems(1) Cons.hyps(2) by (intro channel_step.receive) (auto simp: waits_for_def)
  have w: "waits_for q h (agent_receive X)" using Cons.prems(1) by (simp add: waits_for_def agent_receive_def)
  show ?case
  proof (cases "m = q")
    case True
    then have "q \<in> set (ch_jobs (agent_receive X))" using Cons.hyps(2) [symmetric] by (simp add: agent_receive_def)
    with st w show ?thesis by blast
  next
    case False
    with Cons.hyps(2) [symmetric] Cons.prems(2) have q: "q \<in> set (ch_down (agent_receive X))" by (auto simp: agent_receive_def)
    moreover have "qs = ch_down (agent_receive X)" using Cons.hyps(2) [symmetric] by (simp add: agent_receive_def)
    ultimately obtain Y where "(channel_step c)\<^sup>*\<^sup>* (agent_receive X) Y" "waits_for q h Y" "q \<in> set (ch_jobs Y)"
      using Cons.hyps(1) [of "agent_receive X"] w by blast
    with st show ?thesis by (blast intro: converse_rtranclp_into_rtranclp)
  qed
qed

lemma reachable_steps: "channel_reachable c X \<Longrightarrow> (channel_step c)\<^sup>*\<^sup>* X Y \<Longrightarrow> channel_reachable c Y"
  by (rotate_tac 1, induction rule: rtranclp_induct) (auto intro: channel_reachable.step)

lemma answer_delivered:
  assumes X: "channel_reachable c X" and w: "waits_for q h X" and ran: "q \<in> set (ch_ran X)"
  shows "\<exists>Y. (channel_step c)\<^sup>*\<^sup>* X Y \<and> delivered c q h Y"
proof -
  from channel_reachable_ok [OF X] w ran obtain r where "r \<in> set (ch_up X)" "answers (cl_handler c) q r"
    by (auto simp: channel_ok_def kept_part_def waits_for_def)
  with X w show ?thesis by (rule dispatches_deliver)
qed

lemma job_delivered:
  assumes X: "channel_reachable c X" and w: "waits_for q h X" and job: "q \<in> set (ch_jobs X)"
    and r: "answers (cl_handler c) q r"
  shows "\<exists>Y. (channel_step c)\<^sup>*\<^sup>* X Y \<and> delivered c q h Y"
proof -
  have st: "channel_step c X (agent_done q r X)" using job r by (rule channel_step.replies)
  have "waits_for q h (agent_done q r X)" "q \<in> set (ch_ran (agent_done q r X))"
    using w by (simp_all add: waits_for_def agent_done_def)
  from answer_delivered [OF channel_reachable.step [OF X st] this] st show ?thesis
    by (blast intro: converse_rtranclp_into_rtranclp)
qed

section \<open>The hub's requests over the stream\<close>

text \<open>
  The network of a hub whose only connection is this stream, under the schedule that serves one request at a
  time: while the hub waits, the agent receives the request, its goroutine runs and the hub dispatches the
  reply. \<open>wr_rand\<close> are the draws of \<open>crypto/rand\<close>. A handler that panics or never ends leaves the waiter
  to its context.
\<close>

record 's wire =
  wr_chan :: channel
  wr_world :: 's
  wr_rand :: "nat \<Rightarrow> string"

definition wire_wait :: "('c, 's) client \<Rightarrow> nat \<Rightarrow> 's wire \<Rightarrow> (goerr + agent_message) \<times> 's wire" where
  "wire_wait c h W =
    (let X = agent_receive (wr_chan W); q = hd (ch_jobs X) in
     case client_answer (cl_handler c) q (wr_world W) of
       (Ret r, w) \<Rightarrow>
         (let Y = hub_dispatch (agent_done q r X) in
          (Inr (hd (cn_chans (ch_conn Y) h)), W\<lparr>wr_chan := hub_take h Y, wr_world := w\<rparr>))
     | (Panic p, w) \<Rightarrow> (Inl (errorf ''context deadline exceeded''), W\<lparr>wr_chan := agent_dies q X, wr_world := w\<rparr>)
     | (Hang, w) \<Rightarrow> (Inl (errorf ''context deadline exceeded''), W\<lparr>wr_chan := X, wr_world := w\<rparr>))"

definition wire_network :: "('c, 's) client \<Rightarrow> 's wire network" where
  "wire_network c = \<lparr>nw_role = None, nw_role_ids = (\<lambda>W. ([], W)),
     nw_get = (\<lambda>cid W. (if ch_cluster (wr_chan W) = Some cid then Some 0 else None, W)),
     nw_local_ids = (\<lambda>W. (case ch_cluster (wr_chan W) of None \<Rightarrow> [] | Some cid \<Rightarrow> [cid], W)),
     nw_rand = (\<lambda>W. (wr_rand W 0, W\<lparr>wr_rand := (\<lambda>n. wr_rand W (Suc n))\<rparr>)),
     nw_await = (\<lambda>_ rid W. (cn_next (ch_conn (wr_chan W)), W\<lparr>wr_chan := hub_await rid (wr_chan W)\<rparr>)),
     nw_forget = (\<lambda>_ rid W. W\<lparr>wr_chan := hub_forget rid (wr_chan W)\<rparr>),
     nw_send = (\<lambda>_ q W. if ch_open (wr_chan W) then (None, W\<lparr>wr_chan := hub_send q (wr_chan W)\<rparr>)
       else (Some (errorf ''transport is closing''), W)),
     nw_wait = (\<lambda>_ h W. wire_wait c h W), nw_registry = None, nw_peer_known = (\<lambda>a W. (False, W)),
     nw_peer_creds = False, nw_peer_dial = (\<lambda>a W. (None, W)),
     nw_peer_diagnose = (\<lambda>a q W. (Inl (errorf []), W)), nw_peer_execute = (\<lambda>a q W. (Inl (errorf []), W)),
     nw_peer_scan = (\<lambda>a q W. (Inl (errorf []), W)), nw_peer_approve = (\<lambda>a q W. (Inl (errorf []), W)),
     nw_peer_get_logs = (\<lambda>a q W. (Inl (errorf []), W)), nw_peer_list_nodes = (\<lambda>a q W. (Inl (errorf []), W))\<rparr>"

text \<open>An idle stream: accepted, open, with nothing in transit and nothing running; the next id is fresh.\<close>

definition wire_idle :: "('c, 's) client \<Rightarrow> 's wire \<Rightarrow> bool" where
  "wire_idle c W \<longleftrightarrow> channel_reachable c (wr_chan W) \<and> ch_open (wr_chan W)
    \<and> ch_cluster (wr_chan W) = Some (cl_cluster_id c) \<and> ch_down (wr_chan W) = [] \<and> ch_jobs (wr_chan W) = []
    \<and> ch_up (wr_chan W) = []"

definition next_id :: "'s wire \<Rightarrow> string" where
  "next_id W = hex_encode (wr_rand W 0)"

lemma wire_call:
  assumes idle: "wire_idle c W" and fresh: "next_id W \<notin> set (ch_owners (wr_chan W))"
    and id: "hub_request_id (msg (next_id W)) = next_id W"
    and ext: "extract reply = Some r" and ans: "client_answer (cl_handler c) (msg (next_id W)) (wr_world W) = (Ret reply, w)"
  shows "\<exists>W'. local_call (wire_network c) cid k article what msg extract W = (Ret (Inr r), W')
    \<and> wr_world W' = w \<and> wire_idle c W' \<and> wr_rand W' = (\<lambda>n. wr_rand W (Suc n))
    \<and> ch_owners (wr_chan W') = ch_owners (wr_chan W) @ [next_id W]"
proof -
  let ?q = "msg (next_id W)" and ?h = "cn_next (ch_conn (wr_chan W))" and ?X = "wr_chan W"
  define X1 where "X1 = hub_send ?q (hub_await (next_id W) ?X)"
  define X2 where "X2 = hub_dispatch (agent_done ?q reply (agent_receive X1))"
  define X3 where "X3 = hub_forget (next_id W) (hub_take ?h X2)"
  have reach: "channel_reachable c ?X" and X: "ch_open ?X" "ch_cluster ?X = Some (cl_cluster_id c)" "ch_down ?X = []"
    "ch_jobs ?X = []" "ch_up ?X = []"
    using idle by (simp_all add: wire_idle_def)
  note ok = channel_reachable_ok [OF reach]
  have unsent: "next_id W \<notin> hub_request_id ` set (ch_sent ?X)"
    using ok fresh by (auto simp: channel_ok_def sent_part_def)
  have empty: "cn_chans (ch_conn ?X) ?h = []" using ok by (simp add: channel_ok_def conn_part_def conn_ok_def)
  have rid: "request_id_of reply = Some (next_id W)" using client_answer_id [OF ans] id by simp
  have a: "answers (cl_handler c) ?q reply" using ans by (auto simp: answers_def)
  have r1: "channel_reachable c X1" unfolding X1_def
    by (rule channel_reachable.step [OF channel_reachable.step [OF reach channel_step.await] channel_step.send])
      (use X fresh unsent id in \<open>simp_all add: channel_ops\<close>)
  have r2: "channel_reachable c X2" unfolding X2_def
    by (rule channel_reachable.step [OF channel_reachable.step [OF channel_reachable.step [OF r1
        channel_step.receive] channel_step.replies] channel_step.dispatch])
      (use X a in \<open>simp_all add: X1_def channel_ops\<close>)
  have got: "cn_chans (ch_conn X2) ?h = [reply]"
    using X rid empty by (simp add: X2_def X1_def channel_ops conn_dispatch_def conn_await_def)
  have r3: "channel_reachable c X3" unfolding X3_def
    by (rule channel_reachable.step [OF channel_reachable.step [OF r2 channel_step.take] channel_step.forget])
      (simp add: got)
  let ?W' = "W\<lparr>wr_rand := (\<lambda>n. wr_rand W (Suc n)), wr_chan := X3, wr_world := w\<rparr>"
  have "request_id (wire_network c) W = (Ret (next_id W), W\<lparr>wr_rand := (\<lambda>n. wr_rand W (Suc n))\<rparr>)"
    by (simp add: request_id_def io_bind_def io_call_def io_ret_apply wire_network_def next_id_def)
  moreover have "wire_wait c ?h (W\<lparr>wr_rand := (\<lambda>n. wr_rand W (Suc n)), wr_chan := X1\<rparr>)
      = (Inr reply, W\<lparr>wr_rand := (\<lambda>n. wr_rand W (Suc n)), wr_chan := hub_take ?h X2, wr_world := w\<rparr>)"
  proof -
    have "hd (ch_jobs (agent_receive X1)) = ?q" using X by (simp add: X1_def channel_ops)
    then show ?thesis using ans got by (simp add: wire_wait_def X2_def Let_def)
  qed
  ultimately have "local_call (wire_network c) cid k article what msg extract W = (Ret (Inr r), ?W')"
    using X ext
    by (simp add: local_call_def io_check_def io_try_def io_bind_def io_call_def io_ret_apply wire_network_def X3_def
        X1_def hub_await_def)
  moreover have "wire_idle c ?W'"
    using r3 X by (simp add: wire_idle_def X3_def X2_def X1_def channel_ops)
  moreover have "ch_owners X3 = ch_owners ?X @ [next_id W]" by (simp add: X3_def X2_def X1_def channel_ops)
  ultimately show ?thesis by (intro exI [of _ ?W']) simp
qed

text \<open>\<open>comes_back c call W r w\<close>: the call answers \<open>r\<close>, the cluster is then \<open>w\<close>, the stream is idle
  again, and one id more has been drawn.\<close>

definition comes_back :: "('c, 's) client \<Rightarrow> ('s wire, goerr + 'r) io \<Rightarrow> 's wire \<Rightarrow> 'r \<Rightarrow> 's \<Rightarrow> bool" where
  "comes_back c call W r w \<longleftrightarrow> (\<exists>W'. call W = (Ret (Inr r), W') \<and> wr_world W' = w \<and> wire_idle c W'
     \<and> wr_rand W' = (\<lambda>n. wr_rand W (Suc n)) \<and> ch_owners (wr_chan W') = ch_owners (wr_chan W) @ [next_id W])"

lemma wire_route:
  assumes "wire_idle c W"
  shows "route (wire_network c) (cl_cluster_id c) on_role on_local on_peer W = on_local 0 W"
  by (rule route_local [where ?s1.0 = W]) (use assms in \<open>simp_all add: try_role_def wire_network_def io_ret_apply wire_idle_def\<close>)

lemma stream_calls:
  assumes "wire_idle c W" and "next_id W \<notin> set (ch_owners (wr_chan W))"
  shows "diagnose_response_of (cl_handler c) sig (wr_world W) = (Ret r1, w) \<Longrightarrow>
      comes_back c (hub_diagnose (wire_network c) (cl_cluster_id c) sig) W (r1\<lparr>dr_request_id := next_id W\<rparr>) w"
    and "execute_response_of (cl_handler c) pid sig (wr_world W) = (Ret r2, w) \<Longrightarrow>
      comes_back c (hub_execute (wire_network c) (cl_cluster_id c) pid sig) W (r2\<lparr>er_request_id := next_id W\<rparr>) w"
    and "scan_response_of (cl_handler c) ns (wr_world W) = (Ret r3, w) \<Longrightarrow>
      comes_back c (hub_scan (wire_network c) (cl_cluster_id c) ns) W (r3\<lparr>sr_request_id := next_id W\<rparr>) w"
    and "approve_action_response_of (cl_handler c) pid sig name m (wr_world W) = (Ret r4, w) \<Longrightarrow>
      comes_back c (hub_approve_action (wire_network c) (cl_cluster_id c) pid sig name m) W
        (r4\<lparr>aar_request_id := next_id W\<rparr>) w"
    and "get_logs_response_of (cl_handler c) ns name dep n (wr_world W) = (Ret r5, w) \<Longrightarrow>
      comes_back c (hub_get_logs (wire_network c) (cl_cluster_id c) ns name dep n) W (r5\<lparr>glr_request_id := next_id W\<rparr>) w"
    and "list_nodes_response_of (cl_handler c) (wr_world W) = (Ret r6, w) \<Longrightarrow>
      comes_back c (hub_list_nodes (wire_network c) (cl_cluster_id c)) W (r6\<lparr>lnr_request_id := next_id W\<rparr>) w"
  unfolding comes_back_def hub_diagnose_def hub_execute_def hub_scan_def hub_approve_action_def hub_get_logs_def
    hub_list_nodes_def wire_route [OF assms(1)] diagnose_local_def execute_local_def scan_local_def
    approve_action_local_def get_logs_local_def list_nodes_local_def
  by (rule wire_call [OF assms]; simp add: client_answer_def hub_request_id_def io_bind_def io_ret_apply)+

text \<open>A cluster the stream is not for is not connected.\<close>

lemma wire_other_cluster:
  assumes "wire_idle c W" and "cid \<noteq> cl_cluster_id c"
  shows "route (wire_network c) cid on_role on_local on_peer W = (Ret (Inl (err_cluster_not_connected cid)), W)"
  by (rule route_nowhere [where ?s1.0 = W])
    (use assms in \<open>simp_all add: try_role_def wire_network_def io_ret_apply wire_idle_def\<close>)

section \<open>Properties\<close>

definition demo_client :: "(unit, unit) client" where
  "demo_client = \<lparr>cl_addr = ''hub:7443'', cl_cluster_id = ''spoke-1'', cl_version = ''0.1.0'', cl_creds = (),
     cl_handler = demo_handler\<rparr>"

definition demo_request :: hub_message where
  "demo_request = HDiagnose \<lparr>dq_request_id = ''72'', dq_signal = None, dq_cluster_id = []\<rparr>"

definition demo_waiting :: channel where
  "demo_waiting = hub_send demo_request (hub_await ''72'' (hub_accept (open_channel demo_client)))"

definition demo_answered :: channel where
  "demo_answered = hub_dispatch (agent_done demo_request demo_reply (agent_receive demo_waiting))"

lemma demo_answers: "answers demo_handler demo_request demo_reply"
  using demo_answer by (auto simp: answers_def demo_request_def)

lemmas demo_channel = demo_waiting_def demo_answered_def channel_ops open_channel_def session_first_def hello_of_def
  demo_client_def demo_request_def hub_request_id_def

lemma demo_waiting_reachable: "channel_reachable demo_client demo_waiting"
  unfolding demo_waiting_def
  by (rule channel_reachable.step [OF channel_reachable.step [OF channel_reachable.step [OF channel_reachable.start
      channel_step.accept] channel_step.await] channel_step.send])
    (simp_all add: demo_channel)

lemma demo_answered_reachable: "channel_reachable demo_client demo_answered"
  unfolding demo_answered_def
  by (rule channel_reachable.step [OF channel_reachable.step [OF channel_reachable.step [OF demo_waiting_reachable
      channel_step.receive] channel_step.replies] channel_step.dispatch])
    (use demo_answers in \<open>simp_all add: demo_channel\<close>)

text \<open>C30: whatever the interleaving of the two sides and however the stream breaks, a reply in a waiter's
  channel is the agent's answer to the one request that was sent under the waiter's request id.\<close>

theorem replies_answer_their_request:
  assumes "channel_reachable c X" and "r \<in> set (cn_chans (ch_conn X) h)"
  shows "\<exists>q \<in> set (ch_sent X). hub_request_id q = ch_owners X ! h \<and> answers (cl_handler c) q r
    \<and> (\<forall>q' \<in> set (ch_sent X). hub_request_id q' = ch_owners X ! h \<longrightarrow> q' = q)"
proof -
  have ok: "conn_part c X" "sent_part X" using channel_reachable_ok [OF assms(1)] by (simp_all add: channel_ok_def)
  then obtain q where q: "q \<in> set (ch_ran X)" "answers (cl_handler c) q r"
    using assms(2) by (auto simp: conn_part_def answered_by_def)
  have "request_id_of r = Some (ch_owners X ! h)" using ok(1) assms(2) by (auto simp: conn_part_def conn_ok_def)
  with answers_id [OF q(2)] have "hub_request_id q = ch_owners X ! h" by simp
  moreover have "q \<in> set (ch_sent X)" using ran_was_sent [OF ok(2)] q(1) by blast
  ultimately show ?thesis using q(2) same_id_same_request [OF ok(2)] by metis
qed

theorem replies_answer_their_request_witness:
  "\<exists>q. ch_sent demo_answered = [q] \<and> hub_request_id q = ''72'' \<and> answers demo_handler q demo_reply
    \<and> cn_chans (ch_conn demo_answered) 0 = [demo_reply]"
proof -
  have s: "ch_sent demo_answered = [demo_request]" "ch_owners demo_answered = [''72'']"
    by (simp_all add: demo_channel)
  have r: "cn_chans (ch_conn demo_answered) 0 = [demo_reply]"
    by (simp add: demo_channel conn_await_def conn_dispatch_def new_conn_def demo_reply_def request_id_of_def)
  from replies_answer_their_request [OF demo_answered_reachable, of demo_reply 0] r s show ?thesis
    by (auto simp: demo_client_def)
qed

text \<open>C31: the agent runs a request at most once, and only requests the hub sent over this session, which the hub
  holds under the cluster id the agent announced.\<close>

theorem requests_run_at_most_once:
  assumes "channel_reachable c X"
  shows "distinct (map hub_request_id (ch_ran X)) \<and> set (ch_ran X) \<subseteq> set (ch_sent X)
    \<and> (ch_sent X \<noteq> [] \<longrightarrow> ch_cluster X = Some (cl_cluster_id c))"
proof -
  have sp: "sent_part X" and hp: "hello_part c X" using channel_reachable_ok [OF assms] by (simp_all add: channel_ok_def)
  have "mset (ch_ran X) \<subseteq># mset (ch_down X) + mset (ch_jobs X) + mset (ch_ran X)"
    by (simp add: subset_mset.add_increasing)
  moreover have "\<dots> \<subseteq># mset (ch_sent X)" using sp by (simp add: sent_part_def)
  ultimately have "mset (ch_ran X) \<subseteq># mset (ch_sent X)" by (rule subset_mset.order_trans)
  then have "mset (map hub_request_id (ch_ran X)) \<subseteq># mset (map hub_request_id (ch_sent X))"
    by (simp add: image_mset_subseteq_mono)
  moreover have "distinct (map hub_request_id (ch_sent X))" using sp by (simp add: sent_part_def)
  ultimately have "distinct (map hub_request_id (ch_ran X))"
    by (metis distinct_append mset_append mset_eq_imp_distinct_iff mset_subset_eq_exists_conv ex_mset)
  moreover have "set (ch_ran X) \<subseteq> set (ch_sent X)" using ran_was_sent [OF sp] by blast
  moreover have "ch_sent X \<noteq> [] \<longrightarrow> ch_cluster X = Some (cl_cluster_id c)"
    using hp by (cases "ch_cluster X") (auto simp: hello_part_def)
  ultimately show ?thesis by blast
qed

theorem requests_run_at_most_once_witness:
  "ch_ran demo_answered = [demo_request] \<and> ch_cluster demo_answered = Some ''spoke-1''"
proof -
  have "ch_ran demo_answered = [demo_request]" "ch_sent demo_answered \<noteq> []" by (simp_all add: demo_channel)
  with requests_run_at_most_once [OF demo_answered_reachable] show ?thesis by (simp add: demo_client_def)
qed

text \<open>C26: a request that waits on an open stream is never lost: from every reachable state there are steps of the
  two sides that put the agent's answer, and nothing else, into the waiter's channel.\<close>

theorem waiting_request_answerable:
  assumes "channel_reachable c X" and "ch_open X" and "q \<in> set (ch_sent X)"
    and "cn_pending (ch_conn X) (hub_request_id q) = Some h" and "answers (cl_handler c) q a"
  shows "\<exists>Y r. (channel_step c)\<^sup>*\<^sup>* X Y \<and> cn_chans (ch_conn Y) h = [r] \<and> answers (cl_handler c) q r"
proof -
  have w: "waits_for q h X" using assms(2,3,4) by (simp add: waits_for_def)
  have "mset (ch_down X) + mset (ch_jobs X) + mset (ch_ran X) = mset (ch_sent X)"
    using channel_reachable_ok [OF assms(1)] assms(2) by (simp add: channel_ok_def sent_part_def)
  from arg_cong [OF this, of set_mset] assms(3)
  consider "q \<in> set (ch_ran X)" | "q \<in> set (ch_jobs X)" | "q \<in> set (ch_down X)" by auto
  then have "\<exists>Y. (channel_step c)\<^sup>*\<^sup>* X Y \<and> delivered c q h Y"
  proof cases
    case 1
    with assms(1) w show ?thesis by (rule answer_delivered)
  next
    case 2
    with assms(1) w show ?thesis using assms(5) by (rule job_delivered)
  next
    case 3
    from receives_start [OF w 3] obtain Z where Z: "(channel_step c)\<^sup>*\<^sup>* X Z" "waits_for q h Z" "q \<in> set (ch_jobs Z)" by blast
    from job_delivered [OF reachable_steps [OF assms(1) Z(1)] Z(2,3) assms(5)] Z(1) show ?thesis
      by (blast intro: rtranclp_trans)
  qed
  then show ?thesis by (auto simp: delivered_def)
qed

theorem waiting_request_answerable_witness:
  "\<exists>Y r. (channel_step demo_client)\<^sup>*\<^sup>* demo_waiting Y \<and> cn_chans (ch_conn Y) 0 = [r] \<and> answers demo_handler demo_request r"
proof -
  have "ch_open demo_waiting" "demo_request \<in> set (ch_sent demo_waiting)"
    "cn_pending (ch_conn demo_waiting) (hub_request_id demo_request) = Some 0"
    by (simp_all add: demo_channel conn_await_def new_conn_def)
  from waiting_request_answerable [OF demo_waiting_reachable this] demo_answers show ?thesis
    by (simp add: demo_client_def)
qed

text \<open>C32: a cluster reached through an agent answers each of the six requests as its handler does: over an
  idle stream the hub's request returns the response that handler makes from the cluster's state, with the
  request id drawn for it, the cluster is left as the handler left it, and the stream is idle again.\<close>

theorem stream_answers_as_handler:
  assumes "wire_idle c W" and "next_id W \<notin> set (ch_owners (wr_chan W))"
  shows "(\<forall>sig r w. diagnose_response_of (cl_handler c) sig (wr_world W) = (Ret r, w) \<longrightarrow>
      comes_back c (hub_diagnose (wire_network c) (cl_cluster_id c) sig) W (r\<lparr>dr_request_id := next_id W\<rparr>) w)
    \<and> (\<forall>pid sig r w. execute_response_of (cl_handler c) pid sig (wr_world W) = (Ret r, w) \<longrightarrow>
      comes_back c (hub_execute (wire_network c) (cl_cluster_id c) pid sig) W (r\<lparr>er_request_id := next_id W\<rparr>) w)
    \<and> (\<forall>ns r w. scan_response_of (cl_handler c) ns (wr_world W) = (Ret r, w) \<longrightarrow>
      comes_back c (hub_scan (wire_network c) (cl_cluster_id c) ns) W (r\<lparr>sr_request_id := next_id W\<rparr>) w)
    \<and> (\<forall>pid sig name m r w. approve_action_response_of (cl_handler c) pid sig name m (wr_world W) = (Ret r, w) \<longrightarrow>
      comes_back c (hub_approve_action (wire_network c) (cl_cluster_id c) pid sig name m) W
        (r\<lparr>aar_request_id := next_id W\<rparr>) w)
    \<and> (\<forall>ns name dep n r w. get_logs_response_of (cl_handler c) ns name dep n (wr_world W) = (Ret r, w) \<longrightarrow>
      comes_back c (hub_get_logs (wire_network c) (cl_cluster_id c) ns name dep n) W (r\<lparr>glr_request_id := next_id W\<rparr>) w)
    \<and> (\<forall>r w. list_nodes_response_of (cl_handler c) (wr_world W) = (Ret r, w) \<longrightarrow>
      comes_back c (hub_list_nodes (wire_network c) (cl_cluster_id c)) W (r\<lparr>lnr_request_id := next_id W\<rparr>) w)"
  using stream_calls [OF assms] by blast

theorem stream_answers_as_handler_witness:
  "comes_back demo_client (hub_execute (wire_network demo_client) ''spoke-1'' ''p'' None)
     \<lparr>wr_chan = hub_accept (open_channel demo_client), wr_world = (), wr_rand = (\<lambda>n. ''r'')\<rparr>
     \<lparr>er_request_id = hex_encode ''r'', er_resolved = True, er_attempts = [], er_error = []\<rparr> ()"
proof -
  let ?W = "\<lparr>wr_chan = hub_accept (open_channel demo_client), wr_world = (), wr_rand = (\<lambda>n. ''r'')\<rparr>"
  have "channel_reachable demo_client (hub_accept (open_channel demo_client))"
    by (rule channel_reachable.step [OF channel_reachable.start channel_step.accept]) (simp_all add: demo_channel)
  then have "wire_idle demo_client ?W" by (simp add: wire_idle_def demo_channel)
  moreover have "next_id ?W \<notin> set (ch_owners (wr_chan ?W))" by (simp add: demo_channel)
  moreover have "execute_response_of (cl_handler demo_client) ''p'' None (wr_world ?W)
      = (Ret \<lparr>er_request_id = [], er_resolved = True, er_attempts = [], er_error = []\<rparr>, ())"
    by (simp add: execute_response_of_def respond_def demo_client_def demo_handler_def io_try_def io_ret_apply)
  ultimately show ?thesis
    using stream_answers_as_handler [of demo_client ?W] by (fastforce simp: next_id_def demo_client_def)
qed

end
