(* ===== verification/ClusterAgent.thy ===== *)
theory ClusterAgent imports HubServer SimCluster AgentChannel begin

text \<open>
  cmd/cluster-agent: how an agent is put together (main), with the construction of its client
  (\<open>k8sclient.New\<close>). What client-go and crypto/tls return is the record \<open>agent_boot\<close>; \<open>'g\<close> is a REST
  configuration, \<open>'c\<close> and \<open>'p\<close> are certificates and CA pools. The result is the client that
  main runs (theory AgentChannel; its reconnections are in theory Transport).
\<close>

record ('g, 'c, 'p) agent_boot =
  ab_from_file :: "string \<Rightarrow> goerr + 'g"
  ab_in_cluster :: "goerr + 'g"
  ab_clientset :: "'g \<Rightarrow> goerr option"
  ab_dynamic :: "'g \<Rightarrow> goerr option"
  ab_tls :: "('c, 'p) tls_files"

definition new_client :: "('g, 'c, 'p) agent_boot \<Rightarrow> string \<Rightarrow> goerr + 'g" where
  "new_client B kubeconfig =
    (case (if kubeconfig \<noteq> [] then ab_from_file B kubeconfig else ab_in_cluster B) of
       Inl e \<Rightarrow> Inl (wrapf ''building kube config: '' e)
     | Inr cfg \<Rightarrow> (case ab_clientset B cfg of
         Some e \<Rightarrow> Inl (wrapf ''building clientset: '' e)
       | None \<Rightarrow> (case ab_dynamic B cfg of
           Some e \<Rightarrow> Inl (wrapf ''building dynamic client: '' e)
         | None \<Rightarrow> Inr cfg)))"

record agent_flags =
  af_hub_addr :: string
  af_cluster_id :: string
  af_kubeconfig :: string
  af_calico_ns :: string
  af_cert :: string
  af_key :: string
  af_ca :: string
  af_insecure :: bool

definition agent_version :: string where "agent_version = ''0.1.0''"

definition start_agent ::
  "('g, 'c, 'p) agent_boot \<Rightarrow> ('g \<Rightarrow> 's kube) \<Rightarrow> agent_flags \<Rightarrow> goerr + (('c, 'p) transport_creds, 's) client" where
  "start_agent B api F =
    (if af_cluster_id F = [] then
       Inl (errorf (''cluster-agent: --cluster-id (ou CLUSTER_ID) '' @ e_acute @ '' obrigat'' @ o_acute @ ''rio''))
     else case new_client B (af_kubeconfig F) of
       Inl e \<Rightarrow> Inl (wrapf ''cluster-agent: construindo cliente kubernetes: '' e)
     | Inr cfg \<Rightarrow> (case client_credentials (ab_tls B) (af_cert F) (af_key F) (af_ca F) (af_insecure F) of
         Inl e \<Rightarrow> Inl (wrapf ''cluster-agent: carregando credenciais mTLS: '' e)
       | Inr creds \<Rightarrow> Inr \<lparr>cl_addr = af_hub_addr F, cl_cluster_id = af_cluster_id F, cl_version = agent_version,
           cl_creds = creds, cl_handler = agent_handler (api cfg) (default_playbooks (af_calico_ns F))\<rparr>))"

lemma start_agent_Inr:
  assumes "start_agent B api F = Inr A"
  shows "client_credentials (ab_tls B) (af_cert F) (af_key F) (af_ca F) (af_insecure F) = Inr (cl_creds A)
    \<and> cl_cluster_id A = af_cluster_id F \<and> af_cluster_id F \<noteq> []
    \<and> (\<exists>cfg. cl_handler A = agent_handler (api cfg) (default_playbooks (af_calico_ns F)))"
  using assms by (auto simp: start_agent_def split: if_splits sum.splits)

text \<open>C24: the channel between agents and hub is never silently insecure. A hub and an agent that start without
  the insecure flag speak TLS: the hub requires of every peer a certificate of its CA file, the agent trusts
  only its CA file.\<close>

theorem started_channels_are_mutual:
  assumes "start_hub B F = Inr P" and "\<not> fl_insecure F" and "start_agent B' api G = Inr A" and "\<not> af_insecure G"
  shows "(\<exists>c. hp_creds P = Tls c \<and> tc_require_client c \<and> tc_client_cas c \<noteq> None
      \<and> tc_client_cas c = ca_of (bo_tls B) (fl_ca F))
    \<and> (\<exists>c. cl_creds A = Tls c \<and> tc_root_cas c \<noteq> None \<and> tc_root_cas c = ca_of (ab_tls B') (af_ca G))"
  using start_hub_creds [OF assms(1)] start_agent_Inr [OF assms(3)] assms(2,4)
  by (auto dest!: client_credentials_tls server_credentials_tls)

definition demo_tls :: "(string, string) tls_files" where
  "demo_tls = \<lparr>tf_key_pair = (\<lambda>c k. Inr c), tf_read = (\<lambda>f. Inr f), tf_parse_pem = Some\<rparr>"

definition demo_boot :: "(string, string) boot" where
  "demo_boot = \<lparr>bo_open = (\<lambda>p. None), bo_groups = (\<lambda>p. Inr Map.empty), bo_inventory = (\<lambda>p. Inr []),
     bo_agents = (\<lambda>p. Inr []), bo_tools = (\<lambda>p. Inr []), bo_runbooks = Inr, bo_dir = (\<lambda>p. ''.''),
     bo_mkdir = (\<lambda>p. None), bo_create = (\<lambda>p. None), bo_redis = (\<lambda>a. None), bo_tls = demo_tls\<rparr>"

definition demo_flags :: flags where
  "demo_flags = \<lparr>fl_cert = ''hub.crt'', fl_key = ''hub.key'', fl_ca = ''ca.crt'', fl_insecure = False,
     fl_group_mapping = [], fl_audit_path = ''audit.jsonl'', fl_execution = False, fl_prod_clusters = [],
     fl_test_groups = [], fl_redis_addr = [], fl_self_addr = [], fl_runbooks = [], fl_calico_ns = ''calico-system'',
     fl_inventory_path = [], fl_inventory_url = [], fl_agent_scopes = [], fl_tool_access = []\<rparr>"

definition demo_agent_boot :: "(string, string, string) agent_boot" where
  "demo_agent_boot = \<lparr>ab_from_file = Inr, ab_in_cluster = Inr [], ab_clientset = (\<lambda>c. None),
     ab_dynamic = (\<lambda>c. None), ab_tls = demo_tls\<rparr>"

definition demo_agent_flags :: agent_flags where
  "demo_agent_flags = \<lparr>af_hub_addr = ''hub:7443'', af_cluster_id = ''c1'', af_kubeconfig = [], af_calico_ns = [],
     af_cert = ''agent.crt'', af_key = ''agent.key'', af_ca = ''hub-ca.crt'', af_insecure = False\<rparr>"

theorem started_channels_are_mutual_witness:
  "\<exists>P A. start_hub demo_boot demo_flags = Inr P \<and> start_agent demo_agent_boot (\<lambda>cfg. sim_kube :: cluster kube) demo_agent_flags = Inr A
    \<and> (\<exists>c. hp_creds P = Tls c \<and> tc_require_client c \<and> tc_client_cas c = Some ''ca.crt'')
    \<and> (\<exists>c. cl_creds A = Tls c \<and> tc_root_cas c = Some ''hub-ca.crt'')"
proof -
  let ?api = "\<lambda>cfg :: string. sim_kube :: cluster kube"
  obtain P where P: "start_hub demo_boot demo_flags = Inr P"
    by (simp add: start_hub_def load_group_mapping_def new_file_store_def check_redis_def choose_inventory_def
        load_scopes_def load_tool_rules_def load_runbooks_def load_grpc_creds_def server_credentials_def load_cert_and_ca_def
        demo_boot_def demo_flags_def demo_tls_def)
  obtain A where A: "start_agent demo_agent_boot ?api demo_agent_flags = Inr A"
    by (simp add: start_agent_def new_client_def client_credentials_def load_cert_and_ca_def demo_agent_boot_def
        demo_agent_flags_def demo_tls_def)
  have ca: "ca_of (bo_tls demo_boot) (fl_ca demo_flags) = Some ''ca.crt''"
    "ca_of (ab_tls demo_agent_boot) (af_ca demo_agent_flags) = Some ''hub-ca.crt''"
    by (simp_all add: ca_of_def demo_boot_def demo_flags_def demo_agent_boot_def demo_agent_flags_def demo_tls_def)
  have "\<not> fl_insecure demo_flags" "\<not> af_insecure demo_agent_flags"
    by (simp_all add: demo_flags_def demo_agent_flags_def)
  from started_channels_are_mutual [OF P this(1) A this(2)] P A ca show ?thesis by auto
qed

end
