(* ===== verification/AgentProps.thy ===== *)
theory AgentProps imports AgentCore SimCluster begin

text \<open>
  The properties of the agent: of the playbooks (Playbooks), of the client's writes (K8sClient) and of
  the handler (AgentCore), each with a witness on the cluster of SimCluster.
\<close>

section \<open>Playbooks\<close>

text \<open>C14: with a clock that does not go back and waits that last as long as asked, executing the ladder of
  any registered playbook, for any finding, ends with a run of that playbook: no error, no panic, no
  poll loop that goes on.\<close>

theorem default_ladders_run:
  assumes "p \<in> set (default_playbooks ns)" and "playbook_clock K tm"
  shows "\<exists>r s'. run_ladder (pb_ladder p K f) s = (Ret (Inr r), s') \<and> res_playbook_id r = pb_id p"
  using default_playbook_runs [OF assms, of f s] by blast

theorem default_ladders_run_witness:
  "\<exists>r s'. run_ladder (pb_ladder crash_loop_back_off sim_kube
      \<lparr>fi_signal = web_signal ''PodCrashLoopBackOff'', fi_summary = [], fi_meta = [''deployment'' \<mapsto> ''web'']\<rparr>) web_cluster
    = (Ret (Inr r), s') \<and> res_playbook_id r = clb_id"
  using default_ladders_run [of crash_loop_back_off "[]" sim_kube cl_now _ web_cluster] sim_clock
  by (simp add: default_playbooks_def crash_loop_back_off_def)

text \<open>Which registered playbook handles a signal is decided by the signal's kind alone, and for Calico
  by a node name being given.\<close>

theorem default_registry_dispatch:
  "map_option pb_id (registry_find (default_playbooks ns) sig) = playbook_id_for sig"
  by (rule registry_find_default)

text \<open>C16: the action that scales a Deployment down and up leaves the replica count in its spec as it found it
  whenever the attempt ends validated or rolled back: over any API that returns and sets that count, whatever
  becomes of the Deployment's status, of its other fields and of updates that fail, as long as nobody else
  scales it meanwhile.\<close>

theorem scale_action_restores:
  assumes "replica_spec K ns n rp"
    and "run_one (scale_action K ns n) s = (Ret at, s')"
    and "ar_validated at \<or> ar_rolled_back at"
  shows "rp s' = rp s"
  using assms by (rule scale_action_spec)

lemma sim_scale:
  "\<exists>at s'. run_one (scale_action sim_kube ''ns'' ''web'') web_cluster = (Ret at, s') \<and> ar_validated at"
proof -
  define c1 where "c1 = web_cluster\<lparr>cl_deps := (cl_deps web_cluster)(''ns'' := (cl_deps web_cluster ''ns'')
    (''web'' \<mapsto> web_deployment\<lparr>dep_replicas := Some 3\<rparr>)), cl_now := 2 * second\<rparr>"
  have snap: "scale_snapshot sim_kube ''ns'' ''web'' web_cluster
      = (Ret (Some [(''replicas'', GInt32 3)], None), web_cluster)"
    by (simp add: scale_snapshot_def deployment_replicas_def get_deployment_def effect_eval sim_eval)
  have run: "\<exists>out. scale_run sim_kube ''ns'' ''web'' web_cluster = (Ret (out, None), c1)"
    by (simp add: scale_run_def as_pair_def deployment_replicas_def scale_deployment_def get_deployment_def
        effect_eval sim_kube_def get_or_def c1_def second_def)
  have c1: "cl_deps c1 ''ns'' ''web'' = Some (web_deployment\<lparr>dep_replicas := Some 3\<rparr>)" by (simp add: c1_def)
  have ready: "replicas_ready sim_kube ''ns'' ''web'' 3 c1 = (Ret (Inr True), c1)"
    and want: "deployment_replicas sim_kube ''ns'' ''web'' c1 = (Ret (Inr 3), c1)"
    by (simp_all add: replicas_ready_def deployment_ready_replicas_def deployment_replicas_def get_deployment_def
        effect_eval sim_kube_def get_or_def c1)
  have wait: "wait_replicas sim_kube ''ns'' ''web'' (60 * second) c1 = (Ret (True, None), c1)"
    using poll_loop_hit [where check = "replicas_ready sim_kube ''ns'' ''web'' 3", OF ready]
    by (simp add: wait_replicas_def wait_for_def poll_for_def want io_try_def io_bind_def io_call_def)
      (simp add: sim_kube_def)
  from run obtain out where "scale_run sim_kube ''ns'' ''web'' web_cluster = (Ret (out, None), c1)" ..
  with snap wait show ?thesis
    by (simp add: run_one_def scale_action_def run_body_def run_validate_def Let_def io_bind_def io_ret_apply)
qed

theorem scale_action_restores_witness:
  "\<exists>at s'. run_one (scale_action sim_kube ''ns'' ''web'') web_cluster = (Ret at, s') \<and> ar_validated at
    \<and> map_option effective_replicas (cl_deps s' ''ns'' ''web'') = Some 3"
proof -
  obtain at s' where run: "run_one (scale_action sim_kube ''ns'' ''web'') web_cluster = (Ret at, s')"
    and v: "ar_validated at" using sim_scale by blast
  have "map_option effective_replicas (cl_deps web_cluster ''ns'' ''web'') = Some 3"
    by (simp add: effective_replicas_def sim_eval)
  with scale_action_restores [OF sim_replica_spec run disjI1 [OF v]] run v show ?thesis by auto
qed

text \<open>Raising a memory limit writes back the Deployment it read with, for its first container, the current limit
  times the factor; the other containers and the rest stay as they were read.\<close>

theorem increase_limit_writes:
  assumes "increase_container_memory_limit K ns n f s = (Ret (Inr out), s')"
  shows "\<exists>d c cs s1. k_get_deployment K ns n s = (Inr d, s1) \<and> dep_containers d = c # cs
    \<and> k_update_deployment K ns n (d\<lparr>dep_containers := set_memory_limit
        \<lparr>q_value = scale_value f (q_value (memory_limit c)), q_format = q_format (memory_limit c)\<rparr> c # cs\<rparr>) s1 = (None, s')"
proof -
  obtain x s1 where x: "k_get_deployment K ns n s = (x, s1)" by (cases "k_get_deployment K ns n s")
  from assms x obtain d where d: "x = Inr d"
    by (cases x) (auto simp: increase_container_memory_limit_def get_deployment_def io_wrap_def io_try_def
        io_bind_def io_call_def io_ret_apply)
  from assms x d obtain c cs where c: "dep_containers d = c # cs"
    by (cases "dep_containers d") (auto simp: increase_container_memory_limit_def get_deployment_def
        io_wrap_def io_try_def io_bind_def io_call_def io_ret_apply)
  define d' where "d' = d\<lparr>dep_containers := set_memory_limit
        \<lparr>q_value = scale_value f (q_value (memory_limit c)), q_format = q_format (memory_limit c)\<rparr> c # cs\<rparr>"
  obtain e s2 where e: "k_update_deployment K ns n d' s1 = (e, s2)"
    by (cases "k_update_deployment K ns n d' s1")
  from assms x d c e have "e = None" "s' = s2"
    by (cases e; auto simp: increase_container_memory_limit_def get_deployment_def io_wrap_def io_try_def
        io_check_def io_bind_def io_call_def io_ret_apply Let_def d'_def)+
  with x d c e show ?thesis by (auto simp: d'_def)
qed

theorem increase_limit_writes_witness:
  "\<exists>d c. cl_deps (snd (increase_container_memory_limit sim_kube ''ns'' ''web'' (3, 2) web_cluster)) ''ns'' ''web'' = Some d
    \<and> dep_containers d = [c] \<and> q_value (memory_limit c) = 1500"
proof -
  have "\<exists>out s'. increase_container_memory_limit sim_kube ''ns'' ''web'' (3, 2) web_cluster = (Ret (Inr out), s')"
    by (simp add: increase_container_memory_limit_def get_deployment_def effect_eval sim_kube_def get_or_def Let_def)
  then obtain out s' where run:
    "increase_container_memory_limit sim_kube ''ns'' ''web'' (3, 2) web_cluster = (Ret (Inr out), s')" by blast
  from increase_limit_writes [OF run] run show ?thesis
    by (auto simp: sim_kube_def web_cluster_def web_deployment_def get_or_def memory_limit_def set_memory_limit_def
        scale_value_exact)
qed

section \<open>The handler\<close>

text \<open>C13: diagnosing, scanning, reading logs and listing nodes only read: what the API's reads and the
  clock keep of the world, they keep.\<close>

theorem agent_reads_only:
  assumes "kube_reads K I"
  shows "keeps I (handle_diagnose K (default_playbooks ns) psig) \<and> keeps I (handle_scan K n)
    \<and> keeps I (handle_get_logs K n name dep t) \<and> keeps I (handle_list_nodes K)"
  using agent.handle_diagnose_keeps [OF assms] handle_scan_keeps [OF assms]
    handle_get_logs_effects(2) [OF assms] handle_list_nodes_effects(2) [OF assms]
  by simp_all

theorem agent_reads_only_witness:
  "cl_deps (snd (handle_diagnose sim_kube (default_playbooks []) (Some (web_signal ''PodOOMKilled'')) web_cluster))
     = cl_deps web_cluster"
  using keepsD [OF conjunct1 [OF agent_reads_only [OF sim_reads_deps]]] by blast

section \<open>What an agent's answers carry\<close>

text \<open>\<open>answers_with m P\<close>: every value \<open>m\<close> answers with, rather than an error, satisfies \<open>P\<close>.\<close>

definition answers_with :: "('s, goerr + 'a) io \<Rightarrow> ('a \<Rightarrow> bool) \<Rightarrow> bool" where
  "answers_with m P \<longleftrightarrow> (\<forall>s v s'. m s = (Ret (Inr v), s') \<longrightarrow> P v)"

lemma answers_withI: "(\<And>s v s'. m s = (Ret (Inr v), s') \<Longrightarrow> P v) \<Longrightarrow> answers_with m P"
  by (simp add: answers_with_def)

definition clean_diagnosis :: "diagnosis \<Rightarrow> bool" where
  "clean_diagnosis d \<longleftrightarrow> clean_text (dg_summary d) \<and> list_all (\<lambda>a. clean_text (pa_description a)) (dg_proposed d)
     \<and> (\<forall>k. pred_option clean_text (dg_meta d k))"

definition clean_attempt :: "attempt \<Rightarrow> bool" where
  "clean_attempt a \<longleftrightarrow> clean_text (at_output a) \<and> clean_text (at_error a)"

lemma clean_Nil: "clean_text []"
  by (rule unmarked_clean) simp

lemma diagnose_clean: "answers_with (handle_diagnose K ps psig) clean_diagnosis"
  by (rule answers_withI)
    (auto simp: handle_diagnose_def Let_def no_playbook_diagnosis_def io_try_eq_Ret clean_diagnosis_def clean_Nil
      redact_text_is_clean propose_def redact_meta_def list_all_iff option.pred_map option.pred_True comp_def
      split: if_splits)

lemma execute_clean: "answers_with (handle_execute K ps pid psig) (\<lambda>(resolved, ats). list_all clean_attempt ats)"
proof (rule answers_withI)
  fix s v s'
  assume run: "handle_execute K ps pid psig s = (Ret (Inr v), s')"
  obtain resolved ats where v: "v = (resolved, ats)" by (cases v)
  with run obtain l s1 r where l: "run_ladder l s1 = (Ret (Inr r), s')" "ats = map to_attempt (res_attempts r)"
    by (auto simp: handle_execute_def io_try_eq_Ret split: if_splits)
  then show "case v of (resolved, ats) \<Rightarrow> list_all clean_attempt ats"
    using run_ladder_redacted [OF l(1)] by (auto simp: v list_all_iff clean_attempt_def to_attempt_def)
qed

lemma approve_clean: "answers_with (handle_approve_action K ps pid psig name m) clean_attempt"
proof (rule answers_withI)
  fix s v s'
  assume "handle_approve_action K ps pid psig name m s = (Ret (Inr v), s')"
  then obtain a r s1 where "run_one a s1 = (Ret r, s')" "v = to_attempt r"
    by (auto simp: handle_approve_action_def Let_def io_try_eq_Ret io_bind_eq_Ret run_approved_def
        split: option.splits if_splits)
  then show "clean_attempt v"
    using run_one_ok [of a s1 r s'] by (auto simp: clean_attempt_def to_attempt_def attempt_ok_def redacted_clean)
qed

lemma list_all2_reports: "list_all2 reports ps is \<Longrightarrow> list_all (\<lambda>i. clean_text (is_detail i)) is"
  by (induction rule: list_all2_induct) (auto simp: reports_def redact_text_is_clean redacted_clean)

lemma scan_clean: "answers_with (handle_scan K ns) (list_all (\<lambda>i. clean_text (is_detail i)))"
  by (rule answers_withI) (auto dest!: handle_scan_reports list_all2_reports)

lemma logs_clean: "answers_with (handle_get_logs K ns name dep t) clean_text"
  by (rule answers_withI) (auto dest!: handle_get_logs_redacted simp: redact_text_is_clean)

text \<open>Every one of these requests is answered, with a value or an error: no panic (in particular the
  scan never indexes an empty list of container statuses) and no endless wait.\<close>

theorem agent_answers:
  "returns (handle_diagnose K (default_playbooks ns) psig) \<and> returns (handle_scan K n)
   \<and> returns (handle_get_logs K n name dep t) \<and> returns (handle_list_nodes K)"
  using agent.handle_diagnose_returns handle_scan_returns handle_get_logs_effects(1)
    handle_list_nodes_effects(1)
  by blast

lemma default_ladder_typed:
  assumes "p \<in> set (default_playbooks ns)"
  shows "lad_actions (pb_ladder p K f) \<noteq> [] \<and> length (lad_actions (pb_ladder p K f)) \<le> 3
    \<and> distinct (map act_name (lad_actions (pb_ladder p K f)))
    \<and> set (map act_risk (lad_actions (pb_ladder p K f))) \<subseteq> {risk_safe, risk_medium, risk_high}"
  using assms
  by (auto simp: default_playbooks_def default_playbook_defs clb_ladder_def oom_ladder_def ipb_ladder_def efe_ladder_def
      cal_ladder_def keda_ladder_def Let_def restart_pod_action_def scale_action_def rollout_action_def
      increase_action_def efe_action_def cal_action_def keda_action_def)

text \<open>C27: a diagnosis proposes well-formed actions: it reports that no playbook handles the signal exactly when none of
  the registered ones does, and proposes nothing exactly then; otherwise between one and three actions, of
  distinct names (an approval names one of them), each of one of the three risk levels the policy and the hub
  know, and with a redacted description.\<close>

theorem proposals_well_formed:
  fixes K :: "'s kube"
  assumes "handle_diagnose K (default_playbooks ns) psig s = (Ret (Inr d), s')"
  shows "(dg_no_playbook d \<longleftrightarrow> registry_find (default_playbooks ns) (from_proto_signal psig) = (None :: 's playbook option))
    \<and> (dg_no_playbook d \<longleftrightarrow> dg_proposed d = []) \<and> length (dg_proposed d) \<le> 3 \<and> distinct (map pa_name (dg_proposed d))
    \<and> set (map pa_risk (dg_proposed d)) \<subseteq> {risk_safe, risk_medium, risk_high}
    \<and> list_all (\<lambda>a. redacted (pa_description a)) (dg_proposed d)"
proof (cases "dg_no_playbook d")
  case True
  with assms show ?thesis
    by (auto simp: handle_diagnose_def Let_def no_playbook_diagnosis_def io_try_eq_Ret split: if_splits)
next
  case False
  then obtain p f l s1 where found: "registry_find (default_playbooks ns) (from_proto_signal psig) \<noteq> (None :: 's playbook option)"
    and a: "agent_diagnose K (default_playbooks ns) (from_proto_signal psig) s = (Ret (Inr (p, f, l)), s1)"
    and d: "dg_proposed d = map propose (lad_actions l)"
    using assms by (auto simp: handle_diagnose_def Let_def no_playbook_diagnosis_def io_try_eq_Ret split: if_splits)
  from a have "l = pb_ladder p K f" "p \<in> set (default_playbooks ns)"
    by (auto simp: agent_diagnose_def io_wrap_Inr dest: registry_find_in split: option.splits)
  with default_ladder_typed [of p ns K f] d False found show ?thesis
    by (simp add: propose_def comp_def list_all_iff)
qed

theorem proposals_well_formed_witness:
  "\<exists>d s'. handle_diagnose sim_kube (default_playbooks []) (Some (web_signal ''PodImagePullBackOff'')) web_cluster
      = (Ret (Inr d), s')
    \<and> set (map pa_risk (dg_proposed d)) \<subseteq> {risk_safe, risk_medium, risk_high} \<and> \<not> dg_no_playbook d"
proof -
  have sig: "from_proto_signal (Some (web_signal k)) = web_signal k" for k
    by (simp add: from_proto_signal_def sig_get_def web_signal_def)
  have find: "registry_find (default_playbooks [] :: cluster playbook list) (web_signal ''PodImagePullBackOff'') = Some image_pull_back_off"
    by (simp add: registry_find_def default_playbooks_def default_playbook_defs web_signal_def)
  obtain f where "ipb_diagnose sim_kube (web_signal ''PodImagePullBackOff'') web_cluster = (Ret (Inr f), web_cluster)"
    using sim_diagnose_pull by blast
  then obtain d s' where run: "handle_diagnose sim_kube (default_playbooks []) (Some (web_signal ''PodImagePullBackOff'')) web_cluster
      = (Ret (Inr d), s')" and np: "\<not> dg_no_playbook d"
    by (simp add: handle_diagnose_def Let_def sig find agent_diagnose_def image_pull_back_off_def effect_eval)
  show ?thesis
    using proposals_well_formed [OF run] run np by blast
qed

text \<open>A scan reports exactly the pods the classification finds unhealthy, in the order of the API's
  list, each with its kind, an unknown error possibly refined to an exec-format error, and a redacted
  detail.\<close>

theorem scan_reports_unhealthy:
  assumes "handle_scan K ns s = (Ret (Inr issues), s')"
  shows "\<exists>ps s1. k_list_pods K ns [] s = (Inr ps, s1)
    \<and> list_all2 reports (filter (\<lambda>p. classify_pod p \<noteq> None) ps) issues"
  using assms by (rule handle_scan_reports)

theorem scan_reports_unhealthy_witness:
  "\<exists>i. fst (handle_scan sim_kube ''ns'' web_cluster) = Ret (Inr [i]) \<and> is_kind i = ''PodCrashLoopBackOff''
    \<and> reports web_pod i"
proof -
  have cls: "classify_pod web_pod = Some (''PodCrashLoopBackOff'', ''back-off'')"
    by (simp add: classify_pod_def web_pod_def classify_status_def waiting_is_def waiting_text_def term_of_def)
  have pods: "k_list_pods sim_kube ''ns'' [] web_cluster = (Inr [web_pod], web_cluster)"
    by (simp add: sim_kube_def web_cluster_def web_pod_def)
  define i where "i = issue_of web_pod (''PodCrashLoopBackOff'', ''back-off'')"
  have run: "handle_scan sim_kube ''ns'' web_cluster = (Ret (Inr [i]), web_cluster)"
    by (simp add: handle_scan_def list_pods_def effect_eval pods cls i_def)
  have i: "is_kind i = ''PodCrashLoopBackOff''" by (simp add: i_def issue_of_def)
  from scan_reports_unhealthy [OF run] pods cls have "reports web_pod i" by auto
  with run i show ?thesis by simp
qed

text \<open>The classification reports a pod only for a container that is not running, or for a pending pod
  with no container; the kinds it reports that a registered playbook handles are exactly image-pull,
  OOM and crash-loop failures.\<close>

theorem classify_pod_sound:
  assumes "classify_pod p = Some (kind, detail)"
  shows "(pod_statuses p = [] \<and> kind = ''PodPending''
      \<or> (\<exists>cs \<in> set (pod_statuses p). \<not> st_running (cs_state cs) \<and> classify_status cs = Some (kind, detail)))
    \<and> (playbook_id_for \<lparr>sig_kind = kind, sig_namespace = n, sig_name = m, sig_node_name = []\<rparr> \<noteq> None
        \<longleftrightarrow> kind \<in> {''PodImagePullBackOff'', ''PodOOMKilled'', ''PodCrashLoopBackOff''})"
proof (rule conjI)
  note k = classify_pod_kind [OF assms]
  show "pod_statuses p = [] \<and> kind = ''PodPending''
      \<or> (\<exists>cs \<in> set (pod_statuses p). \<not> st_running (cs_state cs) \<and> classify_status cs = Some (kind, detail))"
    using k by (elim disjE conjE) blast+
  from k have "kind = ''PodPending'' \<or> kind \<in> {''PodImagePullBackOff'', ''PodCreateContainerError'',
      ''PodOOMKilled'', ''PodCrashLoopBackOff'', ''PodUnknownError''}" by (elim disjE conjE) simp_all
  then show "playbook_id_for \<lparr>sig_kind = kind, sig_namespace = n, sig_name = m, sig_node_name = []\<rparr> \<noteq> None
        \<longleftrightarrow> kind \<in> {''PodImagePullBackOff'', ''PodOOMKilled'', ''PodCrashLoopBackOff''}"
    unfolding insert_iff by (elim disjE emptyE) (simp_all add: playbook_id_for_def)
qed

theorem classify_pod_sound_witness:
  "\<exists>cs \<in> set (pod_statuses web_pod). \<not> st_running (cs_state cs)"
proof -
  have "classify_pod web_pod = Some (''PodCrashLoopBackOff'', ''back-off'')"
    by (simp add: classify_pod_def web_pod_def classify_status_def waiting_is_def waiting_text_def term_of_def)
  from classify_pod_sound [OF this] show ?thesis by (auto simp: web_pod_def)
qed

text \<open>A container that is not running, was last killed for memory and now waits in
  CrashLoopBackOff is reported as OOM-killed, the specific cause, not as a crash loop.\<close>

theorem classify_prefers_oom:
  assumes "\<not> st_running (cs_state cs)" and "st_waiting (cs_state cs) = Some w" and "wt_reason w = ''CrashLoopBackOff''"
    and "term_of cs = Some t" and "tm_reason t = ''OOMKilled''"
    and "pod_statuses p = cs # css"
  shows "classify_pod p = Some (''PodOOMKilled'', tm_message t)"
  using assms by (simp add: classify_pod_def classify_status_def waiting_is_def)

definition oom_pod :: pod where
  "oom_pod = web_pod\<lparr>pod_statuses := [\<lparr>cs_state = \<lparr>st_waiting = Some \<lparr>wt_reason = ''CrashLoopBackOff'', wt_message = []\<rparr>,
       st_running = False, st_terminated = None\<rparr>,
     cs_last_state = \<lparr>st_waiting = None, st_running = False,
       st_terminated = Some \<lparr>tm_reason = ''OOMKilled'', tm_message = ''137'', tm_exit_code = 137\<rparr>\<rparr>,
     cs_restart_count = 7\<rparr>]\<rparr>"

theorem classify_prefers_oom_witness:
  "classify_pod oom_pod = Some (''PodOOMKilled'', ''137'')"
  using classify_prefers_oom [of "hd (pod_statuses oom_pod)" "\<lparr>wt_reason = ''CrashLoopBackOff'', wt_message = []\<rparr>"
    "\<lparr>tm_reason = ''OOMKilled'', tm_message = ''137'', tm_exit_code = 137\<rparr>" oom_pod "[]"]
  by (simp add: oom_pod_def term_of_def)

text \<open>An execution always answers, and its answer comes from a run of the ladder of the playbook that
  now handles the signal, which must be the one asked for.\<close>

theorem execute_answers:
  assumes "playbook_clock K tm"
  shows "\<exists>r s'. handle_execute K (default_playbooks ns) pid psig s = (Ret r, s')
    \<and> (case r of Inl e \<Rightarrow> True
       | Inr (resolved, ats) \<Rightarrow> \<exists>p f rs. registry_find (default_playbooks ns) (from_proto_signal psig) = Some p
           \<and> pb_id p = pid \<and> fi_signal f = from_proto_signal psig
           \<and> run_spec (lad_actions (pb_ladder p K f)) rs resolved \<and> ats = map to_attempt rs)"
proof -
  obtain r s' where r: "handle_execute K (default_playbooks ns) pid psig s = (Ret r, s')"
    by (rule returnsE [OF agent.handle_execute_returns [OF assms]])
  show ?thesis
  proof (cases r)
    case (Inl e)
    with r show ?thesis by simp
  next
    case (Inr v)
    obtain resolved ats where v: "v = (resolved, ats)" by (cases v)
    from agent.handle_execute_Inr [OF r [unfolded Inr v]] r Inr v show ?thesis by simp
  qed
qed

theorem execute_answers_witness:
  "\<exists>r s'. handle_execute sim_kube (default_playbooks []) clb_id (Some (web_signal ''PodCrashLoopBackOff'')) web_cluster
    = (Ret r, s')"
  using execute_answers [OF sim_clock] by blast

text \<open>Executing the OOM playbook restarts the pod and writes nothing else: a property that reads, the
  clock and pod deletions keep is kept, so the memory limit is raised only by an approval.\<close>

theorem execute_oom_only_restarts:
  fixes K :: "'a kube"
  assumes "kube_reads K I" and "\<And>n m. keeps I (io_call (k_delete_pod K n m))"
    and "sig_get psig sig_kind = ''PodOOMKilled''"
  shows "keeps I (handle_execute K (default_playbooks ns) pid psig)"
  using assms by (rule execute_oom_restarts_only)

theorem execute_oom_only_restarts_witness:
  "cl_deps (snd (handle_execute sim_kube (default_playbooks []) oom_id (Some (web_signal ''PodOOMKilled'')) web_cluster))
    = cl_deps web_cluster"
proof -
  have "keeps (\<lambda>s. cl_deps s = cl_deps web_cluster)
      (handle_execute sim_kube (default_playbooks []) oom_id (Some (web_signal ''PodOOMKilled'')))"
    by (rule execute_oom_only_restarts [OF sim_reads_deps])
      (simp_all add: sim_kube_def keeps_call sig_get_def web_signal_def)
  from keepsD [OF this, of web_cluster] show ?thesis by simp
qed

text \<open>C9: an approval runs nothing but the actions of the requested playbook that carry the approved
  name; a name that is on no ladder of it, or a playbook that no longer handles the signal, changes
  nothing.\<close>

theorem approve_runs_only_named:
  fixes K :: "'a kube"
  assumes "kube_reads K I"
    and "\<And>p f a. registry_find (default_playbooks ns) (from_proto_signal psig) = Some p \<Longrightarrow> pb_id p = pid \<Longrightarrow>
      a \<in> set (lad_actions (pb_ladder p K f)) \<Longrightarrow> act_name a = name \<Longrightarrow> action_keeps I a"
  shows "keeps I (handle_approve_action K (default_playbooks ns) pid psig name m)"
  using assms by (rule agent.handle_approve_keeps)

theorem approve_runs_only_named_witness:
  "cl_pods (snd (handle_approve_action sim_kube (default_playbooks []) clb_id
      (Some (web_signal ''PodOOMKilled'')) ''restart pod'' Map.empty web_cluster)) = cl_pods web_cluster"
proof -
  have "keeps (\<lambda>s. cl_pods s = cl_pods web_cluster)
      (handle_approve_action sim_kube (default_playbooks []) clb_id (Some (web_signal ''PodOOMKilled''))
        ''restart pod'' Map.empty)"
    by (rule approve_runs_only_named [OF sim_reads_pods])
      (auto simp: registry_find_def default_playbooks_def default_playbook_defs from_proto_signal_def sig_get_def
        web_signal_def clb_id_def oom_id_def)
  from keepsD [OF this, of web_cluster] show ?thesis by simp
qed

text \<open>An approved attempt is the record of the first action of that name on the ladder rebuilt for the
  signal.\<close>

theorem approve_result:
  assumes "handle_approve_action K (default_playbooks ns) pid psig name m s = (Ret (Inr at), s')"
  shows "\<exists>p f a r s1. registry_find (default_playbooks ns) (from_proto_signal psig) = Some p \<and> pb_id p = pid
    \<and> fi_signal f = from_proto_signal psig
    \<and> find (\<lambda>a. act_name a = name) (lad_actions (pb_ladder p K f)) = Some a
    \<and> run_approved a s1 = (Ret r, s') \<and> at = to_attempt r \<and> at_action at = name"
  using assms by (rule agent.handle_approve_Inr)

lemma sim_approve_restart:
  "\<exists>at. handle_approve_action sim_kube (default_playbooks []) ipb_id (Some (web_signal ''PodImagePullBackOff''))
      ''restart pod'' Map.empty web_cluster = (Ret (Inr at), after_restart)"
proof -
  let ?ps = "default_playbooks [] :: cluster playbook list"
  let ?sig = "web_signal ''PodImagePullBackOff''"
  have sig: "from_proto_signal (Some ?sig) = ?sig" by (simp add: from_proto_signal_def sig_get_def web_signal_def)
  have find: "registry_find ?ps ?sig = Some image_pull_back_off"
    by (simp add: registry_find_def default_playbooks_def default_playbook_defs web_signal_def)
  obtain f where f: "ipb_diagnose sim_kube ?sig web_cluster = (Ret (Inr f), web_cluster)"
    "fi_meta f = [''deployment'' \<mapsto> ''web'']" using sim_diagnose_pull by blast
  from ipb_diagnose_facts(3) [OF f(1)] have fs: "fi_signal f = ?sig" .
  have lad: "approval_ladder sim_kube ?ps image_pull_back_off ?sig Map.empty web_cluster
      = (Ret (Inr (ipb_ladder sim_kube f)), web_cluster)"
    using f(1) find by (simp add: approval_ladder_def image_pull_back_off_def agent_diagnose_def effect_eval)
  have acts: "lad_actions (ipb_ladder (sim_kube :: cluster kube) f) = [restart_pod_action sim_kube ''ns'' ''web-1'' ''web'' True]"
    by (simp add: ipb_ladder_def Let_def fs f(2) meta_get_def has_deployment_def web_signal_def)
  have name: "act_name (restart_pod_action (sim_kube :: cluster kube) ''ns'' ''web-1'' ''web'' True) = ''restart pod''"
    by (simp add: restart_pod_action_def)
  obtain at where "run_one (restart_pod_action sim_kube ''ns'' ''web-1'' ''web'' True) web_cluster = (Ret at, after_restart)"
    using sim_run_restart by blast
  with find lad acts name show ?thesis
    by (simp add: handle_approve_action_def sig Let_def io_try_def io_bind_def io_ret_apply run_approved_def
        image_pull_back_off_def)
qed

theorem approve_result_witness:
  "\<exists>at. handle_approve_action sim_kube (default_playbooks []) ipb_id (Some (web_signal ''PodImagePullBackOff''))
      ''restart pod'' Map.empty web_cluster = (Ret (Inr at), after_restart) \<and> at_action at = ''restart pod''"
proof -
  obtain at where run: "handle_approve_action sim_kube (default_playbooks []) ipb_id
      (Some (web_signal ''PodImagePullBackOff'')) ''restart pod'' Map.empty web_cluster = (Ret (Inr at), after_restart)"
    using sim_approve_restart ..
  from approve_result [OF run] have "at_action at = ''restart pod''" by (elim exE conjE)
  with run show ?thesis by (intro exI conjI)
qed

text \<open>An OOM approval is refused without a write when the Deployment has all its replicas ready.\<close>

theorem approve_oom_refused_when_recovered:
  fixes K :: "'a kube"
  assumes "kube_reads K I" and "I s" and "sig_get psig sig_kind = ''PodOOMKilled''"
    and "m ''deployment'' = Some dep" and "dep \<noteq> []"
    and "deployment_replicas K (sig_get psig sig_namespace) dep s = (Ret (Inr want), s1)"
    and "deployment_ready_replicas K (sig_get psig sig_namespace) dep s1 = (Ret (Inr ready), s2)"
    and "want \<le> ready"
  shows "(\<exists>e. handle_approve_action K (default_playbooks ns) oom_id psig name m s = (Ret (Inl e), s2)) \<and> I s2"
  using approve_oom_recovered [where I = I and m = m and s = s, OF assms] by blast

theorem approve_oom_refused_when_recovered_witness:
  "\<exists>e. handle_approve_action sim_kube (default_playbooks []) oom_id (Some (web_signal ''PodOOMKilled''))
     ''increase memory limit'' [''deployment'' \<mapsto> ''web''] web_cluster = (Ret (Inl e), web_cluster)"
  using approve_oom_refused_when_recovered [OF sim_reads_deps, of web_cluster "cl_deps web_cluster"
    "Some (web_signal ''PodOOMKilled'')" "[''deployment'' \<mapsto> ''web'']" "''web''" 3 web_cluster 3 web_cluster "[]"
    "''increase memory limit''"]
  by (simp add: sig_get_def web_signal_def deployment_replicas_def deployment_ready_replicas_def get_deployment_def
      effect_eval sim_kube_def get_or_def)

text \<open>C29: approving the only action of core/execformaterror panics on its missing \<open>Run\<close>.\<close>

theorem approve_exec_format_panics:
  fixes K :: "'a kube"
  assumes "sig_get psig sig_kind = ''PodExecFormatError''"
    and "container_termination K (sig_get psig sig_namespace) (sig_get psig sig_name) s = (Ret (Inr info), s1)"
  shows "\<exists>s'. handle_approve_action K (default_playbooks ns) efe_id psig
    ''corrigir incompatibilidade de arquitetura'' m s = (Panic msg_nil_call, s')"
  using assms by (rule approve_efe_panics)

theorem approve_exec_format_panics_witness:
  "\<exists>s'. handle_approve_action sim_kube (default_playbooks []) efe_id (Some (web_signal ''PodExecFormatError''))
    ''corrigir incompatibilidade de arquitetura'' Map.empty web_cluster = (Panic msg_nil_call, s')"
proof -
  have "container_termination sim_kube ''ns'' ''web-1'' web_cluster = (Ret (Inr no_termination), web_cluster)"
    by (simp add: container_termination_def get_pod_def first_termination_def effect_eval sim_eval)
  then show ?thesis
    by (intro approve_exec_format_panics) (simp_all add: sig_get_def web_signal_def)
qed

end
