(* ===== verification/EndToEnd.thy ===== *)
theory EndToEnd imports HubAccess ClusterAgent AgentProps begin

text \<open>
  The hub's tools and an agent's handler at the two ends of one stream: mcptools over the transport server,
  the connection and the session of theory AgentChannel, the agent's handler with its playbooks and its
  client. What the tools promise of the hub they call, and what a handler promises of its requests, are put
  together here for the cluster itself.
\<close>

section \<open>A stream between requests\<close>

text \<open>Idle, and the ids still to be drawn are new; drawing two equal ids is left to \<open>crypto/rand\<close>.\<close>

definition wire_ready :: "('c, 's) client \<Rightarrow> 's wire \<Rightarrow> bool" where
  "wire_ready c W \<longleftrightarrow> wire_idle c W \<and> inj (wr_rand W) \<and> (\<forall>n. hex_encode (wr_rand W n) \<notin> set (ch_owners (wr_chan W)))"

lemma wire_readyD:
  assumes "wire_ready c W"
  shows "wire_idle c W" and "next_id W \<notin> set (ch_owners (wr_chan W))"
  using assms by (simp_all add: wire_ready_def next_id_def)

lemma ready_after:
  assumes "wire_ready c W" and "wire_idle c W'" and "wr_rand W' = (\<lambda>n. wr_rand W (Suc n))"
    and "ch_owners (wr_chan W') = ch_owners (wr_chan W) @ [next_id W]"
  shows "wire_ready c W'"
proof -
  have inj: "inj (wr_rand W)" using assms(1) by (simp add: wire_ready_def)
  then have "inj (wr_rand W')" unfolding assms(3) by (auto simp: inj_def)
  moreover have "hex_encode (wr_rand W' n) \<noteq> next_id W" for n
    using inj hex_encode_inj by (auto simp: assms(3) next_id_def inj_def)
  ultimately show ?thesis using assms by (simp add: wire_ready_def)
qed

lemma comes_back_ready:
  assumes "wire_ready c W" and "comes_back c call W r w"
  shows "\<exists>W'. call W = (Ret (Inr r), W') \<and> wr_world W' = w \<and> wire_ready c W'"
  using assms(2) ready_after [OF assms(1)] by (auto simp: comes_back_def)

text \<open>\<open>on_wire c I\<close>: the stream is ready and \<open>I\<close> holds of the cluster.\<close>

definition on_wire :: "('c, 's) client \<Rightarrow> ('s \<Rightarrow> bool) \<Rightarrow> 's wire \<Rightarrow> bool" where
  "on_wire c I W \<longleftrightarrow> wire_ready c W \<and> I (wr_world W)"

lemma on_wire_call:
  assumes "returns m" and "keeps I m" and "on_wire c I W"
    and "\<And>r w. m (wr_world W) = (Ret r, w) \<Longrightarrow> comes_back c call W (f r) w"
  shows "on_wire c I (snd (call W))"
proof -
  obtain r w where m: "m (wr_world W) = (Ret r, w)" using assms(1) by (rule returnsE)
  have "I w" using keepsD [OF assms(2), of "wr_world W"] assms(3) m by (simp add: on_wire_def)
  with comes_back_ready [OF _ assms(4) [OF m]] assms(3) show ?thesis by (auto simp: on_wire_def)
qed

lemma wire_other_keeps:
  "on_wire c I W \<Longrightarrow> cid \<noteq> cl_cluster_id c \<Longrightarrow> on_wire c I (snd (route (wire_network c) cid on_role on_local on_peer W))"
  by (simp add: on_wire_def wire_ready_def wire_other_cluster)

section \<open>Requests that read\<close>

text \<open>What a handler promises of the four requests that only read.\<close>

definition handler_reads :: "'s handler \<Rightarrow> ('s \<Rightarrow> bool) \<Rightarrow> bool" where
  "handler_reads h I \<longleftrightarrow>
     (\<forall>sig. returns (h_diagnose h sig) \<and> keeps I (h_diagnose h sig))
   \<and> (\<forall>ns. returns (h_scan h ns) \<and> keeps I (h_scan h ns))
   \<and> (\<forall>ns name dep n. returns (h_get_logs h ns name dep n) \<and> keeps I (h_get_logs h ns name dep n))
   \<and> returns (h_list_nodes h) \<and> keeps I (h_list_nodes h)"

lemma agent_handler_reads: "kube_reads K I \<Longrightarrow> handler_reads (agent_handler K (default_playbooks ns)) I"
  by (simp add: handler_reads_def agent_handler_def agent.handle_diagnose_returns agent.handle_diagnose_keeps
      handle_scan_returns handle_scan_keeps handle_get_logs_effects handle_list_nodes_effects)

lemma wire_reads:
  assumes "handler_reads (cl_handler c) I"
  shows "keeps (on_wire c I) (hub_diagnose (wire_network c) cid sig)"
    and "keeps (on_wire c I) (hub_scan (wire_network c) cid ns)"
    and "keeps (on_wire c I) (hub_get_logs (wire_network c) cid ns name dep n)"
    and "keeps (on_wire c I) (hub_list_nodes (wire_network c) cid)"
proof -
  have h: "returns (diagnose_response_of (cl_handler c) sig)" "keeps I (diagnose_response_of (cl_handler c) sig)"
    "returns (scan_response_of (cl_handler c) ns)" "keeps I (scan_response_of (cl_handler c) ns)"
    "returns (get_logs_response_of (cl_handler c) ns name dep n)" "keeps I (get_logs_response_of (cl_handler c) ns name dep n)"
    "returns (list_nodes_response_of (cl_handler c))" "keeps I (list_nodes_response_of (cl_handler c))"
    using assms
    by (simp_all add: handler_reads_def diagnose_response_of_def scan_response_of_def get_logs_response_of_def
        list_nodes_response_of_def respond_keeps respond_returns)
  have "on_wire c I (snd (hub_diagnose (wire_network c) cid sig W)) \<and> on_wire c I (snd (hub_scan (wire_network c) cid ns W))
      \<and> on_wire c I (snd (hub_get_logs (wire_network c) cid ns name dep n W))
      \<and> on_wire c I (snd (hub_list_nodes (wire_network c) cid W))" if W: "on_wire c I W" for W
  proof (cases "cid = cl_cluster_id c")
    case True
    have "wire_ready c W" using W by (simp add: on_wire_def)
    note calls = stream_calls [OF wire_readyD [OF this]]
    show ?thesis unfolding True
      by (intro conjI on_wire_call [OF h(1,2) W calls(1)] on_wire_call [OF h(3,4) W calls(3)]
          on_wire_call [OF h(5,6) W calls(5)] on_wire_call [OF h(7,8) W calls(6)])
  next
    case False
    with W show ?thesis
      by (simp add: hub_diagnose_def hub_scan_def hub_get_logs_def hub_list_nodes_def wire_other_keeps)
  qed
  then show "keeps (on_wire c I) (hub_diagnose (wire_network c) cid sig)" "keeps (on_wire c I) (hub_scan (wire_network c) cid ns)"
    "keeps (on_wire c I) (hub_get_logs (wire_network c) cid ns name dep n)" "keeps (on_wire c I) (hub_list_nodes (wire_network c) cid)"
    by (simp_all add: keeps_def)
qed

lemma wire_clusters_keep: "keeps J (connected_clusters (wire_network c))"
  by (simp add: connected_clusters_def wire_network_def keeps_def io_try_def io_bind_def io_call_def io_ret_apply)

text \<open>The hub's own parts besides the stream: the inventory, the audit trail, the clock and the randomness.\<close>

definition hub_side :: "'s tools \<Rightarrow> ('s \<Rightarrow> bool) \<Rightarrow> bool" where
  "hub_side T J \<longleftrightarrow>
     (\<forall>lookup cid. tl_inventory T = Some lookup \<longrightarrow> keeps J (lookup cid))
   \<and> (\<forall>e. keeps J (as_append (tl_audit T) e)) \<and> (\<forall>i. keeps J (as_get (tl_audit T) i))
   \<and> keeps J (io_call (ev_now (tl_env T))) \<and> keeps J (io_call (ev_random (tl_env T)))"

lemma wire_hub_reads:
  assumes "tl_hub T = network_hub (wire_network c)" and "handler_reads (cl_handler c) I" and "hub_side T (on_wire c I)"
  shows "hub_reads T (on_wire c I)"
  using assms(3) wire_reads [OF assms(2)] wire_clusters_keep [of "on_wire c I" c]
  by (simp add: hub_reads_def hub_side_def assms(1) network_hub_def)

text \<open>A diagnosis over a ready stream is one the agent made of its cluster.\<close>

lemma wire_diagnosis:
  assumes "on_wire c I W" and "returns (h_diagnose (cl_handler c) sig)"
    and "hub_diagnose (wire_network c) cid sig W = (Ret (Inr diag), W')" and "dr_proposed diag \<noteq> []"
  shows "cid = cl_cluster_id c \<and> (\<exists>d w'. h_diagnose (cl_handler c) sig (wr_world W) = (Ret (Inr d), w')
    \<and> dr_proposed diag = dg_proposed d)"
proof -
  have ready: "wire_ready c W" using assms(1) by (simp add: on_wire_def)
  have cid: "cid = cl_cluster_id c"
  proof (rule ccontr)
    assume "cid \<noteq> cl_cluster_id c"
    with assms(3) show False by (simp add: hub_diagnose_def wire_other_cluster [OF wire_readyD(1) [OF ready]])
  qed
  obtain v w where v: "h_diagnose (cl_handler c) sig (wr_world W) = (Ret v, w)" using assms(2) by (rule returnsE)
  obtain r where r: "diagnose_response_of (cl_handler c) sig (wr_world W) = (Ret r, w)"
    and p: "dr_proposed r = (case v of Inl e \<Rightarrow> [] | Inr d \<Rightarrow> dg_proposed d)"
    using v by (cases v) (simp_all add: diagnose_response_of_def respond_def io_try_def io_bind_def io_ret_apply)
  from comes_back_ready [OF ready stream_calls(1) [OF wire_readyD [OF ready] r]] assms(3) cid
  have "diag = r\<lparr>dr_request_id := next_id W\<rparr>" by auto
  then have "dr_proposed diag = (case v of Inl e \<Rightarrow> [] | Inr d \<Rightarrow> dg_proposed d)" using p by simp
  with assms(4) v cid show ?thesis by (cases v) auto
qed

section \<open>Properties\<close>

text \<open>C2: from the tool to the cluster: with the hub's tools, the stream, and the agent's handler with its playbooks
  put together, \<open>troubleshoot\<close> leaves the cluster as it was unless execution is switched on, the caller's tier
  is not readonly, and the agent's own diagnosis of that signal proposed an action that is not of high risk, and
  one of medium risk only where the tier administers the cluster's environment; \<open>approve_action\<close> leaves it
  as it was unless execution is on and the caller is a prod-admin; and the other tools never change it.\<close>

theorem cluster_changes_only_authorised:
  assumes "tl_hub T = network_hub (wire_network c)" and "cl_handler c = agent_handler K (default_playbooks calico)"
    and "kube_reads K I" and "hub_side T (on_wire c I)" and "on_wire c I W"
  shows "(I (wr_world (snd (troubleshoot T i W)))
      \<or> tl_execution_flag T \<and> ti_cluster_id i = cl_cluster_id c
        \<and> (\<exists>t. highest_tier (eng_groups (tl_policy T)) (tl_caller_groups T) = (t, True) \<and> t \<noteq> tier_read_only
          \<and> (\<exists>d w w'. I w \<and> handle_diagnose K (default_playbooks calico) (Some (in_signal i)) w = (Ret (Inr d), w')
            \<and> (\<exists>a \<in> set (dg_proposed d). pa_risk a \<noteq> risk_high)
            \<and> ((\<exists>a \<in> set (dg_proposed d). pa_risk a = risk_medium) \<longrightarrow> administers t (cluster_env_of T (cl_cluster_id c))))))
    \<and> (I (wr_world (snd (approve_action T incident name W)))
      \<or> tl_execution_flag T \<and> caller_tier (tl_policy T) (tl_caller_groups T) = (tier_prod_admin, True))
    \<and> I (wr_world (snd (scan_cluster T cid ns W))) \<and> I (wr_world (snd (list_nodes_tool T cid region W)))
    \<and> I (wr_world (snd (get_postmortem T incident W)))"
proof -
  have h: "handler_reads (cl_handler c) I" unfolding assms(2) by (rule agent_handler_reads [OF assms(3)])
  note reads = wire_hub_reads [OF assms(1) h assms(4)]
  have world: "on_wire c I V \<Longrightarrow> I (wr_world V)" for V by (simp add: on_wire_def)
  have T: "I (wr_world (snd (troubleshoot T i W)))
      \<or> tl_execution_flag T \<and> ti_cluster_id i = cl_cluster_id c
        \<and> (\<exists>t. highest_tier (eng_groups (tl_policy T)) (tl_caller_groups T) = (t, True) \<and> t \<noteq> tier_read_only
          \<and> (\<exists>d w w'. I w \<and> handle_diagnose K (default_playbooks calico) (Some (in_signal i)) w = (Ret (Inr d), w')
            \<and> (\<exists>a \<in> set (dg_proposed d). pa_risk a \<noteq> risk_high)
            \<and> ((\<exists>a \<in> set (dg_proposed d). pa_risk a = risk_medium) \<longrightarrow> administers t (cluster_env_of T (cl_cluster_id c)))))"
  proof (cases "keeps (on_wire c I) (troubleshoot T i)")
    case True
    from world [OF keepsD [OF True assms(5)]] show ?thesis ..
  next
    case False
    then obtain diag V V' where V: "on_wire c I V"
      and d: "hb_diagnose (tl_hub T) (ti_cluster_id i) (Some (in_signal i)) V = (Ret (Inr diag), V')"
      and lets: "lets_run T i (dr_proposed diag)"
      using keeps_troubleshoot [OF reads] by blast
    obtain t where t: "tl_execution_flag T" "highest_tier (eng_groups (tl_policy T)) (tl_caller_groups T) = (t, True)"
      "t \<noteq> tier_read_only" "\<exists>a \<in> set (dr_proposed diag). pa_risk a \<noteq> risk_high"
      "(\<exists>a \<in> set (dr_proposed diag). pa_risk a = risk_medium) \<longrightarrow> administers t (cluster_env_of T (ti_cluster_id i))"
      using lets unfolding lets_run_iff by blast
    have "hub_diagnose (wire_network c) (ti_cluster_id i) (Some (in_signal i)) V = (Ret (Inr diag), V')"
      using d by (simp add: assms(1) network_hub_def)
    moreover have "returns (h_diagnose (cl_handler c) (Some (in_signal i)))" using h by (simp add: handler_reads_def)
    moreover have "dr_proposed diag \<noteq> []" using t(4) by auto
    ultimately obtain d w' where cid: "ti_cluster_id i = cl_cluster_id c"
      and d: "h_diagnose (cl_handler c) (Some (in_signal i)) (wr_world V) = (Ret (Inr d), w')" "dr_proposed diag = dg_proposed d"
      using wire_diagnosis [OF V] by blast
    have "handle_diagnose K (default_playbooks calico) (Some (in_signal i)) (wr_world V) = (Ret (Inr d), w')"
      using d(1) by (simp add: assms(2) agent_handler_def)
    with t cid d(2) world [OF V] show ?thesis by (intro disjI2 conjI exI [of _ t] exI [of _ d]) auto
  qed
  have A: "I (wr_world (snd (approve_action T incident name W)))
      \<or> tl_execution_flag T \<and> caller_tier (tl_policy T) (tl_caller_groups T) = (tier_prod_admin, True)"
    using world [OF keepsD [OF keeps_approve [OF reads] assms(5)]] by (auto simp: may_approve_def)
  show ?thesis
    by (intro conjI T A world keepsD [OF keeps_scan_tool [OF reads] assms(5)]
        keepsD [OF keeps_list_nodes_tool [OF reads] assms(5)] keepsD [OF keeps_postmortem [OF reads] assms(5)])
qed

definition joined_client :: "(unit, cluster) client" where
  "joined_client = \<lparr>cl_addr = ''hub:7443'', cl_cluster_id = ''c1'', cl_version = agent_version, cl_creds = (),
     cl_handler = agent_handler sim_kube (default_playbooks [])\<rparr>"

definition joined_tools :: "bool \<Rightarrow> cluster wire tools" where
  "joined_tools flag =
    \<lparr>tl_hub = network_hub (wire_network joined_client), tl_policy = new_engine [''g'' \<mapsto> tier_prod_admin],
     tl_audit = \<lparr>as_append = (\<lambda>e. io_ret None), as_list = (\<lambda>cid. io_ret (Inr [])), as_get = (\<lambda>i. io_ret (Inr None))\<rparr>,
     tl_execution_flag = flag, tl_prod_clusters = [''c1'' \<mapsto> True], tl_caller_groups = [''g''], tl_runbooks = None,
     tl_inventory = None, tl_scope = None, tl_tool_access = Map.empty, tl_env = demo_env\<rparr>"

definition joined_start :: "cluster wire" where
  "joined_start = \<lparr>wr_chan = hub_accept (open_channel joined_client), wr_world = web_cluster,
     wr_rand = (\<lambda>n. replicate n CHR ''x'')\<rparr>"

lemma joined_ready: "wire_ready joined_client joined_start"
proof -
  have "channel_reachable joined_client (hub_accept (open_channel joined_client))"
    by (rule channel_reachable.step [OF channel_reachable.start channel_step.accept]) (simp_all add: open_channel_def)
  moreover have "inj (\<lambda>n. replicate n CHR ''x'')" by (auto simp: inj_def dest: arg_cong [of _ _ length])
  ultimately show ?thesis
    by (simp add: wire_ready_def wire_idle_def joined_start_def joined_client_def open_channel_def hub_accept_def
        session_first_def hello_of_def)
qed

theorem cluster_changes_only_authorised_witness:
  "cl_deps (wr_world (snd (troubleshoot (joined_tools False) (demo_in\<lparr>ti_kind := ''PodOOMKilled''\<rparr>) joined_start)))
     = cl_deps web_cluster"
proof -
  let ?I = "\<lambda>w. cl_deps w = cl_deps web_cluster"
  have "tl_hub (joined_tools False) = network_hub (wire_network joined_client)"
    "cl_handler joined_client = agent_handler sim_kube (default_playbooks [])"
    by (simp_all add: joined_tools_def joined_client_def)
  moreover have "hub_side (joined_tools False) (on_wire joined_client ?I)"
    by (simp add: hub_side_def joined_tools_def demo_env_def keeps_def io_call_def)
  moreover have "on_wire joined_client ?I joined_start"
    using joined_ready by (simp add: on_wire_def joined_start_def)
  ultimately have "?I (wr_world (snd (troubleshoot (joined_tools False) (demo_in\<lparr>ti_kind := ''PodOOMKilled''\<rparr>) joined_start)))
      \<or> tl_execution_flag (joined_tools False)"
    using cluster_changes_only_authorised [where T = "joined_tools False" and c = joined_client and calico = "[]"
        and i = "demo_in\<lparr>ti_kind := ''PodOOMKilled''\<rparr>", OF _ _ sim_reads_deps] by blast
  then show ?thesis by (simp add: joined_tools_def)
qed

section \<open>A run whose answer is lost\<close>

text \<open>The stream of theory AgentChannel under a schedule where the caller's context ends before the answer to an
  Execute arrives: the agent has run the playbook, the hub has \<open>ctx.Err()\<close>.\<close>

definition late_wait :: "('c, 's) client \<Rightarrow> nat \<Rightarrow> 's wire \<Rightarrow> (goerr + agent_message) \<times> 's wire" where
  "late_wait c h W = (case wire_wait c h W of
     (Inr (AExecute r), W') \<Rightarrow> (Inl (errorf ''context deadline exceeded''), W')
   | x \<Rightarrow> x)"

definition late_network :: "('c, 's) client \<Rightarrow> 's wire network" where
  "late_network c = (wire_network c)\<lparr>nw_wait := (\<lambda>_ h W. late_wait c h W)\<rparr>"

lemma late_route:
  "route (late_network c) cid on_role on_local on_peer = route (wire_network c) cid on_role on_local on_peer"
  by (simp add: route_def late_network_def try_role_def peer_for_def peer_conn_def wire_network_def)

text \<open>Beside the wait the two networks agree, so a diagnosis comes back as before and an execution does not.\<close>

lemma late_local:
  assumes "local_call (wire_network c) cid conn art what msg extract W = (Ret (Inr r), W')"
  shows "(\<And>x. extract (AExecute x) = None) \<Longrightarrow>
      local_call (late_network c) cid conn art what msg extract W = (Ret (Inr r), W')"
    and "(\<And>m v. extract m = Some v \<Longrightarrow> \<exists>x. m = AExecute x) \<Longrightarrow>
      local_call (late_network c) cid conn art what msg extract W
        = (Ret (Inl (errorf ''context deadline exceeded'')), W')"
proof -
  have same: "nw_rand (late_network c) = nw_rand (wire_network c)" "nw_await (late_network c) = nw_await (wire_network c)"
    "nw_send (late_network c) = nw_send (wire_network c)" "nw_forget (late_network c) = nw_forget (wire_network c)"
    "nw_wait (wire_network c) = (\<lambda>_ h W. wire_wait c h W)" "nw_wait (late_network c) = (\<lambda>_ h W. late_wait c h W)"
    by (simp_all add: late_network_def wire_network_def)
  show "(\<And>x. extract (AExecute x) = None) \<Longrightarrow>
      local_call (late_network c) cid conn art what msg extract W = (Ret (Inr r), W')"
    using assms
    by (auto simp: local_call_def request_id_def same late_wait_def io_bind_def io_call_def io_check_def io_try_def
        io_ret_apply split: prod.splits option.splits sum.splits agent_message.splits)
  show "(\<And>m v. extract m = Some v \<Longrightarrow> \<exists>x. m = AExecute x) \<Longrightarrow>
      local_call (late_network c) cid conn art what msg extract W
        = (Ret (Inl (errorf ''context deadline exceeded'')), W')"
    using assms
    by (fastforce simp: local_call_def request_id_def same late_wait_def io_bind_def io_call_def io_check_def io_try_def
        io_ret_apply split: prod.splits option.splits sum.splits agent_message.splits)
qed

text \<open>Where the answer arrives over \<open>wire_network\<close>, the hub of \<open>late_network\<close> has the diagnosis and loses the execution.\<close>

lemma late_calls:
  assumes "wire_ready c W"
  shows "diagnose_response_of (cl_handler c) sig (wr_world W) = (Ret d, w) \<Longrightarrow>
      \<exists>W'. hub_diagnose (late_network c) (cl_cluster_id c) sig W = (Ret (Inr (d\<lparr>dr_request_id := next_id W\<rparr>)), W')
        \<and> wr_world W' = w \<and> wire_ready c W'"
    and "execute_response_of (cl_handler c) pid sig (wr_world W) = (Ret x, w) \<Longrightarrow>
      \<exists>W'. hub_execute (late_network c) (cl_cluster_id c) pid sig W
          = (Ret (Inl (errorf ''context deadline exceeded'')), W') \<and> wr_world W' = w"
proof -
  note calls = stream_calls [OF wire_readyD [OF assms]] and at = wire_route [OF wire_readyD(1) [OF assms]]
  show "diagnose_response_of (cl_handler c) sig (wr_world W) = (Ret d, w) \<Longrightarrow>
      \<exists>W'. hub_diagnose (late_network c) (cl_cluster_id c) sig W = (Ret (Inr (d\<lparr>dr_request_id := next_id W\<rparr>)), W')
        \<and> wr_world W' = w \<and> wire_ready c W'"
  proof -
    assume "diagnose_response_of (cl_handler c) sig (wr_world W) = (Ret d, w)"
    from comes_back_ready [OF assms calls(1) [OF this]] obtain W' where
      W': "hub_diagnose (wire_network c) (cl_cluster_id c) sig W = (Ret (Inr (d\<lparr>dr_request_id := next_id W\<rparr>)), W')"
      "wr_world W' = w" "wire_ready c W'" by blast
    have "hub_diagnose (late_network c) (cl_cluster_id c) sig W = (Ret (Inr (d\<lparr>dr_request_id := next_id W\<rparr>)), W')"
      using W'(1) unfolding hub_diagnose_def late_route at diagnose_local_def by (rule late_local(1)) simp
    with W' show ?thesis by blast
  qed
  show "execute_response_of (cl_handler c) pid sig (wr_world W) = (Ret x, w) \<Longrightarrow>
      \<exists>W'. hub_execute (late_network c) (cl_cluster_id c) pid sig W
          = (Ret (Inl (errorf ''context deadline exceeded'')), W') \<and> wr_world W' = w"
  proof -
    assume "execute_response_of (cl_handler c) pid sig (wr_world W) = (Ret x, w)"
    from comes_back_ready [OF assms calls(2) [OF this]] obtain W' where
      W': "hub_execute (wire_network c) (cl_cluster_id c) pid sig W = (Ret (Inr (x\<lparr>er_request_id := next_id W\<rparr>)), W')"
      "wr_world W' = w" by blast
    have "hub_execute (late_network c) (cl_cluster_id c) pid sig W
        = (Ret (Inl (errorf ''context deadline exceeded'')), W')"
      using W'(1) unfolding hub_execute_def late_route at execute_local_def
      by (rule late_local(2)) (auto split: agent_message.splits)
    with W' show ?thesis by blast
  qed
qed

text \<open>C21: a run whose result does not come back leaves no trace in the audit trail: when \<open>Execute\<close> ends in an error
  of the transport (a timeout, a broken stream) or the agent answers with an error, \<open>troubleshoot\<close> fails
  with it in the state \<open>Execute\<close> left, the same for every audit store: nothing is appended, although the
  cluster may have been changed.\<close>

theorem failed_execution_unrecorded:
  assumes "check_cluster_scope T (ti_cluster_id i) s = (Ret (Inr x), s1)"
    and "hb_diagnose (tl_hub T) (ti_cluster_id i) (Some (in_signal i)) s1 = (Ret (Inr diag), s2)"
    and "dr_error diag = []" and "\<not> dr_no_playbook diag" and "ev_stopped (tl_env T) s2 = None"
    and "lets_run T i (dr_proposed diag)" and "stamp T s2 = (Ret (eid, t), s3)"
    and "hb_execute (tl_hub T) (ti_cluster_id i) (dr_playbook_id diag) (Some (in_signal i)) s3 = (Ret res, s4)"
    and "\<And>exec. res = Inr exec \<Longrightarrow> er_error exec \<noteq> []"
  shows "troubleshoot (T\<lparr>tl_audit := A\<rparr>) i s =
    (Ret (Inl (case res of
        Inl e \<Rightarrow> wrapf (''executando no cluster '' @ ti_cluster_id i @ '': '') e
      | Inr exec \<Rightarrow> agent_error (ti_cluster_id i) (er_error exec))), s4)"
proof -
  let ?T = "T\<lparr>tl_audit := A\<rparr>"
  obtain d where d: "decide None (tl_policy T) (run_request T i (dr_proposed diag)) = Inr d" "allow d" "\<not> dry_run d"
    using assms(6) by (auto simp: lets_run_def split: sum.splits)
  have "scope_check ?T = scope_check T" by (simp add: fun_eq_iff scope_check_def)
  then have same: "check_cluster_scope ?T = check_cluster_scope T" "stamp ?T = stamp T" "run_request ?T = run_request T"
    by (simp_all add: fun_eq_iff check_cluster_scope_def stamp_def run_request_def cluster_env_of_def split: option.split)
  have "troubleshoot ?T i s = act_on_decision ?T i diag d eid t s3"
    by (rule troubleshoot_steps) (use assms d(1) in \<open>simp_all add: same\<close>)
  with assms(8,9) show ?thesis
    by (cases res) (simp_all add: act_on_decision_def Let_def d(2,3) io_wrap_def io_try_def io_bind_def io_ret_apply)
qed

text \<open>The stream of \<open>joined_client\<close>: the crash-looping pod is deleted, the hub reports a timeout.\<close>

definition late_in :: troubleshoot_in where
  "late_in = \<lparr>ti_cluster_id = ''c1'', ti_kind = ''PodImagePullBackOff'', ti_namespace = ''ns'', ti_name = ''web-1'',
     ti_node_name = []\<rparr>"

definition late_tools :: "cluster wire tools" where
  "late_tools = (joined_tools True)\<lparr>tl_hub := network_hub (late_network joined_client)\<rparr>"

lemma joined_agent:
  "\<exists>d. diagnose_response_of (cl_handler joined_client) (Some (web_signal ''PodImagePullBackOff'')) web_cluster = (Ret d, web_cluster)
    \<and> dr_error d = [] \<and> \<not> dr_no_playbook d \<and> dr_playbook_id d = ipb_id \<and> map pa_risk (dr_proposed d) = [risk_safe]"
  "\<exists>x. execute_response_of (cl_handler joined_client) ipb_id (Some (web_signal ''PodImagePullBackOff'')) web_cluster
    = (Ret x, after_restart)"
proof -
  let ?ps = "default_playbooks [] :: cluster playbook list"
  let ?sig = "web_signal ''PodImagePullBackOff''"
  let ?act = "restart_pod_action sim_kube ''ns'' ''web-1'' ''web'' True :: cluster action"
  have sig: "from_proto_signal (Some ?sig) = ?sig" by (simp add: from_proto_signal_def sig_get_def web_signal_def)
  have find: "registry_find ?ps ?sig = Some image_pull_back_off"
    by (simp add: registry_find_def default_playbooks_def default_playbook_defs web_signal_def)
  obtain f where f: "ipb_diagnose sim_kube ?sig web_cluster = (Ret (Inr f), web_cluster)"
    "fi_meta f = [''deployment'' \<mapsto> ''web'']" using sim_diagnose_pull by blast
  from ipb_diagnose_facts(3) [OF f(1)] have fs: "fi_signal f = ?sig" .
  have acts: "lad_actions (ipb_ladder (sim_kube :: cluster kube) f) = [?act]"
    "lad_playbook_id (ipb_ladder (sim_kube :: cluster kube) f) = ipb_id"
    by (simp_all add: ipb_ladder_def Let_def fs f(2) meta_get_def has_deployment_def web_signal_def)
  have diag: "agent_diagnose sim_kube ?ps ?sig web_cluster
      = (Ret (Inr (image_pull_back_off, f, ipb_ladder sim_kube f)), web_cluster)"
    using f(1) find by (simp add: agent_diagnose_def image_pull_back_off_def effect_eval)
  have h: "cl_handler joined_client = agent_handler sim_kube ?ps" by (simp add: joined_client_def)
  show "\<exists>d. diagnose_response_of (cl_handler joined_client) (Some ?sig) web_cluster = (Ret d, web_cluster)
    \<and> dr_error d = [] \<and> \<not> dr_no_playbook d \<and> dr_playbook_id d = ipb_id \<and> map pa_risk (dr_proposed d) = [risk_safe]"
    using diag find acts(1)
    by (simp add: h diagnose_response_of_def respond_def agent_handler_def handle_diagnose_def sig Let_def
        io_try_def io_bind_def io_ret_apply propose_def restart_pod_action_def image_pull_back_off_def)
  obtain r where r: "run_one ?act web_cluster = (Ret r, after_restart)" "ar_validated r"
    using sim_run_restart by blast
  have risk: "act_risk ?act \<noteq> risk_high" by (simp add: restart_pod_action_def)
  have run: "run_ladder (ipb_ladder sim_kube f) web_cluster = (Ret (Inr
      \<lparr>res_playbook_id = ipb_id, res_resolved = True, res_attempts = [r]\<rparr>), after_restart)"
    using r risk by (simp add: run_ladder_def acts max_actions_def Let_def io_bind_def io_ret_apply)
  then show "\<exists>x. execute_response_of (cl_handler joined_client) ipb_id (Some ?sig) web_cluster = (Ret x, after_restart)"
    using diag
    by (simp add: h execute_response_of_def respond_def agent_handler_def handle_execute_def sig
        io_try_def io_bind_def io_ret_apply image_pull_back_off_def)
qed

theorem failed_execution_unrecorded_witness:
  "\<exists>err W'. cl_pods (wr_world joined_start) = [web_pod] \<and> cl_pods (wr_world W') = []
    \<and> (\<forall>A. troubleshoot (late_tools\<lparr>tl_audit := A\<rparr>) late_in joined_start = (Ret (Inl err), W'))"
proof -
  let ?sig = "web_signal ''PodImagePullBackOff''" and ?N = "late_network joined_client"
  have i: "in_signal late_in = ?sig" "ti_cluster_id late_in = ''c1''" "cl_cluster_id joined_client = ''c1''"
    by (simp_all add: in_signal_def late_in_def web_signal_def joined_client_def)
  have hub: "hb_diagnose (tl_hub late_tools) = hub_diagnose ?N" "hb_execute (tl_hub late_tools) = hub_execute ?N"
    by (simp_all add: late_tools_def network_hub_def)
  have world: "wr_world joined_start = web_cluster" by (simp add: joined_start_def)
  obtain d where d: "diagnose_response_of (cl_handler joined_client) (Some ?sig) web_cluster = (Ret d, web_cluster)"
    "dr_error d = []" "\<not> dr_no_playbook d" "dr_playbook_id d = ipb_id" "map pa_risk (dr_proposed d) = [risk_safe]"
    using joined_agent(1) by (elim exE conjE) (rule that)
  obtain x where x: "execute_response_of (cl_handler joined_client) ipb_id (Some ?sig) web_cluster = (Ret x, after_restart)"
    using joined_agent(2) by blast
  let ?d = "d\<lparr>dr_request_id := next_id joined_start\<rparr>"
  obtain W1 where W1: "hub_diagnose ?N ''c1'' (Some ?sig) joined_start = (Ret (Inr ?d), W1)" "wr_world W1 = web_cluster"
    "wire_ready joined_client W1"
    using late_calls(1) [OF joined_ready, unfolded world, OF d(1)] unfolding i(3) by blast
  obtain W2 where W2: "hub_execute ?N ''c1'' ipb_id (Some ?sig) W1 = (Ret (Inl (errorf ''context deadline exceeded'')), W2)"
    "wr_world W2 = after_restart"
    using late_calls(2) [OF W1(3), of ipb_id "Some ?sig" x after_restart] x W1(2) unfolding i(3) by auto
  have scope: "check_cluster_scope late_tools (ti_cluster_id late_in) joined_start = (Ret (Inr (no_info, False)), joined_start)"
    by (simp add: check_cluster_scope_def scope_check_def late_tools_def joined_tools_def io_ret_apply)
  have go: "ev_stopped (tl_env late_tools) W1 = None" "stamp late_tools W1 = (Ret (new_id 7 ''x'', 7), W1)"
    by (simp_all add: late_tools_def joined_tools_def demo_env_def stamp_def io_bind_def io_call_def io_ret_apply)
  obtain p where p: "dr_proposed d = [p]" "pa_risk p = risk_safe" using d(5) by auto
  have tools: "tl_execution_flag late_tools" "highest_tier (eng_groups (tl_policy late_tools)) (tl_caller_groups late_tools) = (tier_prod_admin, True)"
    by (simp_all add: late_tools_def joined_tools_def new_engine_def highest_tier_def tier_rank_def tier_defs)
  have run: "lets_run late_tools late_in (dr_proposed ?d)"
    unfolding lets_run_iff using tools p prod_admin_facts(2) by (simp add: risk_defs)
  note lost = failed_execution_unrecorded [where T = late_tools and i = late_in and s = joined_start and ?s2.0 = W1 and ?s3.0 = W1
      and ?s4.0 = W2 and diag = ?d, OF scope _ _ _ go(1) run go(2)]
  have "troubleshoot (late_tools\<lparr>tl_audit := A\<rparr>) late_in joined_start
      = (Ret (Inl (wrapf (''executando no cluster '' @ ''c1'' @ '': '') (errorf ''context deadline exceeded''))), W2)" for A
    using lost [of "Inl (errorf ''context deadline exceeded'')" A] W1(1) W2(1) d(2-4) by (simp add: hub i)
  moreover have "cl_pods (wr_world joined_start) = [web_pod]" "cl_pods (wr_world W2) = []"
    by (simp_all add: world W2(2) web_cluster_def after_restart_def)
  ultimately show ?thesis by blast
qed

end
