(* ===== verification/RoleRaces.thy ===== *)
theory RoleRaces imports HubAccess begin

text \<open>
  \<open>Manager.Handler\<close> of internal/rolecluster under concurrent callers. The mutex covers only the two looks at the
  map of handlers; the inventory lookup and the building of a client run outside it. A caller is therefore a process
  of four steps over the shared world (\<open>role_step\<close>), and the callers interleave in any order with each other and
  with the requests that run on handlers already given. Run without interruption, the steps are \<open>manager_handler\<close>.
\<close>

section \<open>A caller's steps\<close>

datatype ('c, 's) caller =
    Asked string
  | Missed string
  | Found string cluster_info
  | Built string 'c
  | Answered string "'s role_answer"

text \<open>The first look, under the lock.\<close>

definition first_look :: "('c, 's) manager \<Rightarrow> string \<Rightarrow> 's \<Rightarrow> ('c, 's) caller" where
  "first_look M cid s =
    (case mg_handlers M s cid of Some c \<Rightarrow> Answered cid (RoleHandler (role_handler M c)) | None \<Rightarrow> Missed cid)"

text \<open>What the inventory's answer, and the constructor's, leave the caller with.\<close>

definition after_lookup :: "string \<Rightarrow> goerr + cluster_info option \<Rightarrow> ('c, 's) caller" where
  "after_lookup cid r =
    (case r of
       Inl e \<Rightarrow> Answered cid (RoleFailed (wrapf (''looking up cluster '' @ cid @ '' in inventory: '') e))
     | Inr None \<Rightarrow> Answered cid RoleNotMine
     | Inr (Some info) \<Rightarrow> Found cid info)"

definition client_of :: "('c, 's) manager \<Rightarrow> string \<Rightarrow> cluster_info \<Rightarrow> ('s, goerr + 'c) io" where
  "client_of M cid info =
    mg_new_client M (role_arn (ci_account info)) (if ci_eks_name info = [] then cid else ci_eks_name info) (ci_region info)"

definition after_client :: "string \<Rightarrow> cluster_info \<Rightarrow> goerr + 'c \<Rightarrow> ('c, 's) caller" where
  "after_client cid info r =
    (case r of
       Inl e \<Rightarrow> Answered cid (RoleFailed (wrapf (''building client for cluster '' @ cid @ '' (account ''
         @ ci_account info @ ''): '') e))
     | Inr c \<Rightarrow> Built cid c)"

inductive role_step :: "('c, 's) manager \<Rightarrow> 's \<times> (nat \<rightharpoonup> ('c, 's) caller) \<Rightarrow> 's \<times> (nat \<rightharpoonup> ('c, 's) caller) \<Rightarrow> bool"
  for M where
  ask: "calls i = None \<Longrightarrow> role_step M (s, calls) (s, calls(i \<mapsto> Asked cid))"
| look: "calls i = Some (Asked cid) \<Longrightarrow> role_step M (s, calls) (s, calls(i \<mapsto> first_look M cid s))"
| no_inventory: "calls i = Some (Missed cid) \<Longrightarrow> mg_inventory M = None
    \<Longrightarrow> role_step M (s, calls) (s, calls(i \<mapsto> Answered cid RoleNotMine))"
| lookup: "calls i = Some (Missed cid) \<Longrightarrow> mg_inventory M = Some lookup \<Longrightarrow> lookup cid s = (Ret r, s')
    \<Longrightarrow> role_step M (s, calls) (s', calls(i \<mapsto> after_lookup cid r))"
| client: "calls i = Some (Found cid info) \<Longrightarrow> client_of M cid info s = (Ret r, s')
    \<Longrightarrow> role_step M (s, calls) (s', calls(i \<mapsto> after_client cid info r))"
| keep: "calls i = Some (Built cid c) \<Longrightarrow> manager_keep M cid c s = (Ret a, s')
    \<Longrightarrow> role_step M (s, calls) (s', calls(i \<mapsto> Answered cid a))"
| other: "mg_handlers M s' = mg_handlers M s \<Longrightarrow> role_step M (s, calls) (s', calls)"

inductive_cases role_stepE: "role_step M (s, calls) (s', calls')"

text \<open>The inventory's client and the AWS SDK have no reference to the map of handlers.\<close>

definition builds_leave_handlers :: "('c, 's) manager \<Rightarrow> bool" where
  "builds_leave_handlers M \<longleftrightarrow>
     (\<forall>H lookup cid. mg_inventory M = Some lookup \<longrightarrow> keeps (\<lambda>s. mg_handlers M s = H) (lookup cid))
   \<and> (\<forall>H arn eks region. keeps (\<lambda>s. mg_handlers M s = H) (mg_new_client M arn eks region))"

definition role_reachable :: "('c, 's) manager \<Rightarrow> 's \<Rightarrow> 's \<times> (nat \<rightharpoonup> ('c, 's) caller) \<Rightarrow> bool" where
  "role_reachable M s0 \<sigma> \<longleftrightarrow> (role_step M)\<^sup>*\<^sup>* (s0, Map.empty) \<sigma>"

section \<open>Without interruption\<close>

text \<open>A caller that runs alone answers as the function does, from the same world to the same world.\<close>

lemma caller_alone_from_miss:
  assumes "calls i = Some (Missed cid)" and "manager_build M cid s = (Ret a, s')"
  shows "(role_step M)\<^sup>*\<^sup>* (s, calls) (s', calls(i \<mapsto> Answered cid a))"
proof (cases "mg_inventory M")
  case None
  with assms have "a = RoleNotMine" "s' = s" by (auto simp: manager_build_def)
  with role_step.no_inventory [of calls i cid M s] assms(1) None show ?thesis by auto
next
  case (Some lookup)
  with assms(2) obtain r s1 where r: "lookup cid s = (Ret r, s1)"
    by (auto simp: manager_build_def io_try_def io_bind_eq_Ret)
  have one: "role_step M (s, calls) (s1, calls(i \<mapsto> after_lookup cid r))"
    using assms(1) Some r by (rule role_step.lookup)
  show ?thesis
  proof (cases "\<exists>info. r = Inr (Some info)")
    case False
    with assms(2) Some r have "after_lookup cid r = (Answered cid a :: ('a, 'b) caller)" "s' = s1"
      by (auto simp: manager_build_def io_try_def io_bind_def after_lookup_def io_ret_apply
          split: sum.splits option.splits)
    with one show ?thesis by auto
  next
    case True
    then obtain info where info: "r = Inr (Some info)" ..
    let ?calls = "calls(i \<mapsto> Found cid info)"
    from one info have found: "role_step M (s, calls) (s1, ?calls)" by (simp add: after_lookup_def)
    from assms(2) Some r info obtain q s2 where q: "client_of M cid info s1 = (Ret q, s2)"
      by (auto simp: manager_build_def Let_def client_of_def io_try_def io_bind_eq_Ret)
    have two: "role_step M (s1, ?calls) (s2, ?calls(i \<mapsto> after_client cid info q))"
      by (rule role_step.client [OF _ q]) simp
    show ?thesis
    proof (cases q)
      case (Inl e)
      with assms(2) Some r info q have "after_client cid info q = (Answered cid a :: ('a, 'b) caller)" "s' = s2"
        by (auto simp: manager_build_def Let_def client_of_def io_try_def io_bind_def after_client_def io_ret_apply)
      with two have "role_step M (s1, ?calls) (s', calls(i \<mapsto> Answered cid a))" by simp
      with found show ?thesis by auto
    next
      case (Inr c)
      with assms(2) Some r info q have k: "manager_keep M cid c s2 = (Ret a, s')"
        by (auto simp: manager_build_def Let_def client_of_def io_try_def io_bind_def)
      have "role_step M (s2, ?calls(i \<mapsto> Built cid c)) (s', ?calls(i \<mapsto> Built cid c, i \<mapsto> Answered cid a))"
        by (rule role_step.keep [OF _ k]) simp
      then have "role_step M (s2, calls(i \<mapsto> Built cid c)) (s', calls(i \<mapsto> Answered cid a))" by simp
      moreover from two Inr have "role_step M (s1, ?calls) (s2, calls(i \<mapsto> Built cid c))"
        by (simp add: after_client_def)
      ultimately show ?thesis using found by (meson converse_rtranclp_into_rtranclp rtranclp.rtrancl_refl)
    qed
  qed
qed

lemma caller_alone:
  assumes "calls i = Some (Asked cid)" and "manager_handler M cid s = (Ret a, s')"
  shows "(role_step M)\<^sup>*\<^sup>* (s, calls) (s', calls(i \<mapsto> Answered cid a))"
proof -
  have look: "role_step M (s, calls) (s, calls(i \<mapsto> first_look M cid s))" using assms(1) by (rule role_step.look)
  show ?thesis
  proof (cases "mg_handlers M s cid")
    case (Some c)
    with assms(2) look show ?thesis by (auto simp: first_look_def manager_hit)
  next
    case None
    with assms(2) have b: "manager_build M cid s = (Ret a, s')" by (simp add: manager_handler_def)
    have "(role_step M)\<^sup>*\<^sup>* (s, calls(i \<mapsto> Missed cid)) (s', calls(i \<mapsto> Missed cid, i \<mapsto> Answered cid a))"
      by (rule caller_alone_from_miss [OF _ b]) simp
    with look None show ?thesis by (simp add: first_look_def converse_rtranclp_into_rtranclp)
  qed
qed

section \<open>The invariant\<close>

text \<open>A client was built for a cluster when its constructor ran on what the inventory answered for it.\<close>

definition listed :: "('c, 's) manager \<Rightarrow> string \<Rightarrow> cluster_info \<Rightarrow> bool" where
  "listed M cid info \<longleftrightarrow> (\<exists>lookup s s'. mg_inventory M = Some lookup \<and> lookup cid s = (Ret (Inr (Some info)), s'))"

definition built_for :: "('c, 's) manager \<Rightarrow> string \<Rightarrow> 'c \<Rightarrow> bool" where
  "built_for M cid c \<longleftrightarrow> (\<exists>info s s'. listed M cid info \<and> client_of M cid info s = (Ret (Inr c), s'))"

text \<open>What a caller holds is right: a client built for its cluster, or the handler that is in the map.\<close>

fun caller_ok :: "('c, 's) manager \<Rightarrow> (string \<rightharpoonup> 'c) \<Rightarrow> ('c, 's) caller \<Rightarrow> bool" where
  "caller_ok M H (Found cid info) = listed M cid info"
| "caller_ok M H (Built cid c) = built_for M cid c"
| "caller_ok M H (Answered cid (RoleHandler h)) = (\<exists>c. H cid = Some c \<and> h = role_handler M c)"
| "caller_ok M H _ = True"

definition role_inv :: "('c, 's) manager \<Rightarrow> 's \<times> (nat \<rightharpoonup> ('c, 's) caller) \<Rightarrow> bool" where
  "role_inv M \<sigma> \<longleftrightarrow> (\<forall>cid c. mg_handlers M (fst \<sigma>) cid = Some c \<longrightarrow> built_for M cid c)
     \<and> (\<forall>i call. snd \<sigma> i = Some call \<longrightarrow> caller_ok M (mg_handlers M (fst \<sigma>)) call)"

lemma caller_ok_mono: "caller_ok M H call \<Longrightarrow> H \<subseteq>\<^sub>m H' \<Longrightarrow> caller_ok M H' call"
  by (induction M H call rule: caller_ok.induct) (auto simp: map_le_def dom_def)

lemma role_inv_update:
  assumes "role_inv M (s, calls)" and "mg_handlers M s \<subseteq>\<^sub>m mg_handlers M s'"
    and "\<And>cid c. mg_handlers M s' cid = Some c \<Longrightarrow> built_for M cid c"
    and "caller_ok M (mg_handlers M s') call"
  shows "role_inv M (s', calls(i \<mapsto> call))"
proof -
  have "caller_ok M (mg_handlers M s') other" if "calls j = Some other" for j other
    using that assms(1) by (intro caller_ok_mono [OF _ assms(2)]) (auto simp: role_inv_def)
  with assms(3,4) show ?thesis by (simp add: role_inv_def)
qed

lemma role_inv_same:
  "\<lbrakk>role_inv M (s, calls); mg_handlers M s' = mg_handlers M s; caller_ok M (mg_handlers M s) call\<rbrakk>
   \<Longrightarrow> role_inv M (s', calls(i \<mapsto> call))"
  by (rule role_inv_update) (auto simp: role_inv_def)

lemma role_inv_step:
  assumes map: "manager_map M" and leave: "builds_leave_handlers M"
    and step: "role_step M \<sigma> \<tau>" and inv: "role_inv M \<sigma>"
  shows "role_inv M \<tau>"
  using step inv
proof cases
  case (ask calls i s cid)
  with inv show ?thesis by (auto intro: role_inv_same)
next
  case (look calls i cid s)
  then show ?thesis using inv
    by (auto intro!: role_inv_same simp: first_look_def split: option.splits)
next
  case (no_inventory calls i cid s)
  with inv show ?thesis by (auto intro: role_inv_same)
next
  case (lookup calls i cid look s r s')
  from leave lookup(4) have k: "keeps (\<lambda>t. mg_handlers M t = mg_handlers M s) (look cid)"
    by (simp add: builds_leave_handlers_def)
  from keepsD [OF k] lookup(5) have same: "mg_handlers M s' = mg_handlers M s" by fastforce
  have "caller_ok M (mg_handlers M s) (after_lookup cid r)"
    using lookup(4,5) by (auto simp: after_lookup_def listed_def split: sum.splits option.splits)
  with inv lookup(1,2) same show ?thesis by (auto intro: role_inv_same)
next
  case (client calls i cid info s r s')
  have k: "keeps (\<lambda>t. mg_handlers M t = mg_handlers M s) (client_of M cid info)"
    using leave by (simp add: builds_leave_handlers_def client_of_def)
  from keepsD [OF k] client(4) have same: "mg_handlers M s' = mg_handlers M s" by fastforce
  have "listed M cid info" using inv client(1,3) by (fastforce simp: role_inv_def)
  with client(4) have "caller_ok M (mg_handlers M s) (after_client cid info r)"
    by (auto simp: after_client_def built_for_def split: sum.splits)
  with inv client(1,2) same show ?thesis by (auto intro: role_inv_same)
next
  case (keep calls i cid c s a s')
  have built: "built_for M cid c" using inv keep(1,3) by (fastforce simp: role_inv_def)
  show ?thesis
  proof (cases "mg_handlers M s cid")
    case (Some d)
    with keep inv show ?thesis by (auto simp: manager_keep_def intro: role_inv_same)
  next
    case None
    with keep(4) map have s': "mg_handlers M s' = (mg_handlers M s)(cid \<mapsto> c)" "a = RoleHandler (role_handler M c)"
      by (auto simp: manager_keep_def manager_map_def)
    have "mg_handlers M s \<subseteq>\<^sub>m mg_handlers M s'" using None by (auto simp: s'(1) map_le_def)
    moreover have "built_for M d e" if "mg_handlers M s' d = Some e" for d e
      using that inv built keep(1) by (auto simp: s'(1) role_inv_def split: if_splits)
    ultimately show ?thesis unfolding keep(2) using inv keep(1) s' by (auto intro!: role_inv_update)
  qed
next
  case (other s' s calls)
  with inv show ?thesis by (simp add: role_inv_def)
qed

lemma role_inv_reachable:
  assumes "manager_map M" and "builds_leave_handlers M" and "mg_handlers M s0 = Map.empty" and "role_reachable M s0 \<sigma>"
  shows "role_inv M \<sigma>"
  using assms(4) unfolding role_reachable_def
proof (induction rule: rtranclp_induct)
  case base
  then show ?case by (simp add: role_inv_def assms(3))
next
  case (step \<sigma> \<tau>)
  then show ?case using role_inv_step [OF assms(1,2)] by blast
qed

text \<open>A handler in the map stays there.\<close>

lemma role_step_grows:
  assumes "manager_map M" and "builds_leave_handlers M" and "role_step M \<sigma> \<tau>"
    and "mg_handlers M (fst \<sigma>) cid = Some c"
  shows "mg_handlers M (fst \<tau>) cid = Some c"
  using assms(3)
proof cases
  case (lookup calls i d look s r s')
  have "keeps (\<lambda>t. mg_handlers M t = mg_handlers M s) (look d)"
    using assms(2) lookup(4) by (simp add: builds_leave_handlers_def)
  from keepsD [OF this] lookup assms(4) show ?thesis by fastforce
next
  case (client calls i d info s r s')
  have "keeps (\<lambda>t. mg_handlers M t = mg_handlers M s) (client_of M d info)"
    using assms(2) by (simp add: builds_leave_handlers_def client_of_def)
  from keepsD [OF this] client assms(4) show ?thesis by fastforce
next
  case (keep calls i d b s a s')
  have "keeps (\<lambda>s. mg_handlers M s cid = Some c) (manager_keep M d b)" by (rule manager_keep_keeps [OF assms(1)])
  from keepsD [OF this] keep assms(4) show ?thesis by fastforce
qed (use assms(4) in auto)

lemma role_steps_grow:
  assumes "manager_map M" and "builds_leave_handlers M" and "(role_step M)\<^sup>*\<^sup>* \<sigma> \<tau>"
    and "mg_handlers M (fst \<sigma>) cid = Some c"
  shows "mg_handlers M (fst \<tau>) cid = Some c"
  using assms(3) by (induction rule: rtranclp_induct) (auto intro: role_step_grows [OF assms(1,2)] assms(4))

section \<open>Schedules\<close>

text \<open>The next step of one caller, as a function, and a run of callers in a given order.\<close>

definition advance :: "('c, 's) manager \<Rightarrow> nat \<Rightarrow> 's \<times> (nat \<rightharpoonup> ('c, 's) caller) \<Rightarrow>
    ('s \<times> (nat \<rightharpoonup> ('c, 's) caller)) option" where
  "advance M i = (\<lambda>(s, calls).
     case calls i of
       Some (Asked cid) \<Rightarrow> Some (s, calls(i \<mapsto> first_look M cid s))
     | Some (Missed cid) \<Rightarrow>
         (case mg_inventory M of
            None \<Rightarrow> Some (s, calls(i \<mapsto> Answered cid RoleNotMine))
          | Some lookup \<Rightarrow>
              (case lookup cid s of (Ret r, s') \<Rightarrow> Some (s', calls(i \<mapsto> after_lookup cid r)) | _ \<Rightarrow> None))
     | Some (Found cid info) \<Rightarrow>
         (case client_of M cid info s of (Ret r, s') \<Rightarrow> Some (s', calls(i \<mapsto> after_client cid info r)) | _ \<Rightarrow> None)
     | Some (Built cid c) \<Rightarrow>
         (case manager_keep M cid c s of (Ret a, s') \<Rightarrow> Some (s', calls(i \<mapsto> Answered cid a)) | _ \<Rightarrow> None)
     | _ \<Rightarrow> None)"

lemma advance_step: "advance M i \<sigma> = Some \<tau> \<Longrightarrow> role_step M \<sigma> \<tau>"
  by (cases \<sigma>)
    (auto simp: advance_def intro: role_step.intros split: option.splits caller.splits prod.splits outcome.splits)

fun schedule :: "('c, 's) manager \<Rightarrow> nat list \<Rightarrow> 's \<times> (nat \<rightharpoonup> ('c, 's) caller) \<Rightarrow>
    ('s \<times> (nat \<rightharpoonup> ('c, 's) caller)) option" where
  "schedule M [] \<sigma> = Some \<sigma>"
| "schedule M (i # is) \<sigma> = (case advance M i \<sigma> of None \<Rightarrow> None | Some \<tau> \<Rightarrow> schedule M is \<tau>)"

lemma schedule_steps: "schedule M is \<sigma> = Some \<tau> \<Longrightarrow> (role_step M)\<^sup>*\<^sup>* \<sigma> \<tau>"
  by (induction "is" arbitrary: \<sigma>)
    (auto split: option.splits intro: converse_rtranclp_into_rtranclp dest: advance_step)

section \<open>Properties\<close>

text \<open>C33: however the calls of \<open>Handler\<close> interleave, all callers of a cluster get the same handler: the one whose
  client landed in the map first, built by the constructor from what the inventory answered for that very cluster;
  it is in the map from then on, and every later call is answered with it.\<close>

theorem callers_share_one_client:
  assumes "manager_map M" and "builds_leave_handlers M" and "mg_handlers M s0 = Map.empty"
    and "role_reachable M s0 (s, calls)" and "calls i = Some (Answered cid (RoleHandler h))"
  shows "(\<exists>c. h = role_handler M c \<and> built_for M cid c
      \<and> (\<forall>s' calls'. (role_step M)\<^sup>*\<^sup>* (s, calls) (s', calls') \<longrightarrow> mg_handlers M s' cid = Some c
           \<and> manager_handler M cid s' = (Ret (RoleHandler h), s')))
    \<and> (\<forall>j k. calls j = Some (Answered cid (RoleHandler k)) \<longrightarrow> k = h)"
proof -
  note inv = role_inv_reachable [OF assms(1-4), unfolded role_inv_def fst_conv snd_conv]
  have held: "\<exists>c. mg_handlers M s cid = Some c \<and> k = role_handler M c"
    if "calls j = Some (Answered cid (RoleHandler k))" for j k
    using inv that by fastforce
  from held [OF assms(5)] obtain c where c: "mg_handlers M s cid = Some c" "h = role_handler M c" by blast
  have "mg_handlers M s' cid = Some c" if "(role_step M)\<^sup>*\<^sup>* (s, calls) (s', calls')" for s' calls'
    using role_steps_grow [OF assms(1,2) that, of cid c] c(1) by simp
  moreover have "built_for M cid c" using inv c(1) by blast
  moreover have "k = h" if "calls j = Some (Answered cid (RoleHandler k))" for j k
    using held [OF that] c by auto
  ultimately show ?thesis using c(2) by (auto simp: manager_hit)
qed

text \<open>Two callers race for a cluster; each builds a client of its own, and the second to finish gets the first's.\<close>

definition racing_manager :: "(string, role_world) manager" where
  "racing_manager = demo_manager\<lparr>mg_new_client := (\<lambda>arn eks region s.
     (Ret (Inr (replicate (nat (cl_now s)) CHR ''x'')), s\<lparr>cl_now := cl_now s + 1\<rparr>))\<rparr>"

lemma racing_manager_laws: "manager_map racing_manager" "builds_leave_handlers racing_manager"
  by (auto simp: manager_map_def builds_leave_handlers_def racing_manager_def demo_manager_def keeps_def)

lemma racing_calls:
  "\<exists>look. mg_inventory racing_manager = Some look \<and> (\<forall>s. look ''c1'' s = (Ret (Inr (Some
     \<lparr>ci_cluster_id = ''c1'', ci_account = ''111'', ci_region = ''r'', ci_eks_name = []\<rparr>)), s))"
  "mg_handlers racing_manager = rw_handlers"
  "client_of racing_manager cid info s = (Ret (Inr (replicate (nat (cl_now s)) CHR ''x'')), s\<lparr>cl_now := cl_now s + 1\<rparr>)"
  "manager_keep racing_manager cid c s =
    (case rw_handlers s cid of
       Some d \<Rightarrow> (Ret (RoleHandler (role_handler racing_manager d)), s)
     | None \<Rightarrow> (Ret (RoleHandler (role_handler racing_manager c)), s\<lparr>rw_handlers := (rw_handlers s)(cid \<mapsto> c)\<rparr>))"
  by (auto simp: racing_manager_def demo_manager_def client_of_def manager_keep_def inventory_lookup_def
      new_inventory_def io_ret_apply map_build.simps split: option.splits)

lemma race_run:
  "\<exists>s calls. schedule racing_manager [0, 1, 0, 1, 0, 1, 1, 0] (role_start, [0 \<mapsto> Asked ''c1'', 1 \<mapsto> Asked ''c1'']) = Some (s, calls)
    \<and> calls 0 = Some (Answered ''c1'' (RoleHandler (role_handler racing_manager ''x'')))"
proof -
  obtain look where look: "mg_inventory racing_manager = Some look" "\<And>s. look ''c1'' s = (Ret (Inr (Some
     \<lparr>ci_cluster_id = ''c1'', ci_account = ''111'', ci_region = ''r'', ci_eks_name = []\<rparr>)), s)"
    using racing_calls(1) by blast
  then show ?thesis
    by (simp add: advance_def role_start_def first_look_def after_lookup_def after_client_def racing_calls(2-4))
qed

theorem callers_share_one_client_witness:
  "\<exists>s calls c. role_reachable racing_manager role_start (s, calls) \<and> built_for racing_manager ''c1'' c
    \<and> calls 0 = Some (Answered ''c1'' (RoleHandler (role_handler racing_manager ''x'')))
    \<and> manager_handler racing_manager ''c1'' s = (Ret (RoleHandler (role_handler racing_manager ''x'')), s)"
proof -
  from race_run obtain s calls where
    run: "schedule racing_manager [0, 1, 0, 1, 0, 1, 1, 0] (role_start, [0 \<mapsto> Asked ''c1'', 1 \<mapsto> Asked ''c1'']) = Some (s, calls)"
    and first: "calls 0 = Some (Answered ''c1'' (RoleHandler (role_handler racing_manager ''x'')))" by blast
  have "role_step racing_manager (role_start, Map.empty) (role_start, [0 \<mapsto> Asked ''c1''])"
    "role_step racing_manager (role_start, [0 \<mapsto> Asked ''c1'']) (role_start, [0 \<mapsto> Asked ''c1'', 1 \<mapsto> Asked ''c1''])"
    by (auto intro: role_step.ask)
  with schedule_steps [OF run] have reach: "role_reachable racing_manager role_start (s, calls)"
    unfolding role_reachable_def by (meson converse_rtranclp_into_rtranclp)
  have "mg_handlers racing_manager role_start = Map.empty"
    by (simp add: racing_manager_def demo_manager_def role_start_def)
  from callers_share_one_client [OF racing_manager_laws this reach first] reach first show ?thesis by blast
qed

end
