(* ===== verification/RolePath.thy ===== *)
theory RolePath imports EndToEnd RoleRaces begin

text \<open>
  The other way from the hub to a cluster: without an agent, through the handler that internal/rolecluster
  builds on a client of the account's role. \<open>agentless\<close> is a hub with no agent connected and no other replica;
  what building and caching a client may do to the clusters is \<open>role_side\<close>; that nothing but the manager
  writes its map of handlers is \<open>map_apart\<close>. Every client in the map is then one built for its cluster
  (\<open>handlers_right\<close>), and what a request changes it changes through such a client.
\<close>

section \<open>Requests by role\<close>

definition agentless :: "'s network \<Rightarrow> bool" where
  "agentless N \<longleftrightarrow> (\<forall>cid s. nw_get N cid s = (None, s)) \<and> nw_registry N = None
     \<and> (\<forall>s. snd (nw_local_ids N s) = s) \<and> nw_role_ids N = manager_cluster_ids"

definition role_side :: "('c, 's) manager \<Rightarrow> ('s \<Rightarrow> bool) \<Rightarrow> bool" where
  "role_side M I \<longleftrightarrow>
     (\<forall>lookup cid. mg_inventory M = Some lookup \<longrightarrow> keeps I (lookup cid))
   \<and> (\<forall>arn eks region. keeps I (mg_new_client M arn eks region)) \<and> (\<forall>H s. I s \<longrightarrow> I (mg_set_handlers M H s))
   \<and> (\<forall>c. kube_reads (mg_kube M c) I)"

text \<open>Only the manager writes its map of handlers: neither the cluster APIs nor the hub's other parts reach it.\<close>

definition map_apart :: "('c, 's) manager \<Rightarrow> 's tools \<Rightarrow> bool" where
  "map_apart M T \<longleftrightarrow> manager_map M \<and> builds_leave_handlers M
     \<and> (\<forall>H. (\<forall>c. kube_keeps (mg_kube M c) (\<lambda>s. mg_handlers M s = H)) \<and> hub_side T (\<lambda>s. mg_handlers M s = H))"

text \<open>Every handler in the map is around a client built for its cluster.\<close>

definition handlers_right :: "('c, 's) manager \<Rightarrow> 's \<Rightarrow> bool" where
  "handlers_right M s \<longleftrightarrow> (\<forall>cid c. mg_handlers M s cid = Some c \<longrightarrow> built_for M cid c)"

text \<open>\<open>held M I K\<close>: \<open>I\<close> holds, the handlers are right, and those of \<open>K\<close> are among them.\<close>

definition held :: "('c, 's) manager \<Rightarrow> ('s \<Rightarrow> bool) \<Rightarrow> (string \<rightharpoonup> 'c) \<Rightarrow> 's \<Rightarrow> bool" where
  "held M I K s \<longleftrightarrow> I s \<and> handlers_right M s \<and> K \<subseteq>\<^sub>m mg_handlers M s"

lemma heldD: "held M I K s \<Longrightarrow> I s" "held M I K s \<Longrightarrow> handlers_right M s" "held M I K s \<Longrightarrow> K \<subseteq>\<^sub>m mg_handlers M s"
  by (simp_all add: held_def)

lemma held_same: "held M I K s \<Longrightarrow> I s' \<Longrightarrow> mg_handlers M s' = mg_handlers M s \<Longrightarrow> held M I K s'"
  by (simp add: held_def handlers_right_def)

lemma keeps_held:
  assumes "keeps I m" and "\<And>H. keeps (\<lambda>s. mg_handlers M s = H) m"
  shows "keeps (held M I K) m"
  unfolding keeps_def
proof (intro allI impI)
  fix s assume s: "held M I K s"
  have "I (snd (m s))" by (rule keepsD [OF assms(1) heldD(1) [OF s]])
  moreover have "mg_handlers M (snd (m s)) = mg_handlers M s"
    using keepsD [OF assms(2) [of "mg_handlers M s"], of s] by simp
  ultimately show "held M I K (snd (m s))" by (rule held_same [OF s])
qed

lemma kube_reads_held:
  "kube_reads K I \<Longrightarrow> (\<And>H. kube_reads K (\<lambda>s. mg_handlers M s = H)) \<Longrightarrow> kube_reads K (held M I A)"
  by (simp add: kube_reads_def keeps_held)

lemma kube_writes_held:
  "kube_writes K I \<Longrightarrow> (\<And>H. kube_writes K (\<lambda>s. mg_handlers M s = H)) \<Longrightarrow> kube_writes K (held M I A)"
  by (simp add: kube_writes_def keeps_held)

lemma hub_side_held:
  assumes "hub_side T I" and "\<And>H. hub_side T (\<lambda>s. mg_handlers M s = H)"
  shows "hub_side T (held M I K)"
  using assms by (simp add: hub_side_def keeps_held)

lemma manager_keep_held:
  assumes map: "manager_map M" and side: "role_side M I" and c: "built_for M cid c" and s: "held M I K s"
    and run: "manager_keep M cid c s = (a, s')"
  shows "held M I K s' \<and> (\<exists>d. a = Ret (RoleHandler (role_handler M d)) \<and> built_for M cid d \<and> mg_handlers M s' cid = Some d)"
proof (cases "mg_handlers M s cid")
  case (Some d)
  with run s show ?thesis by (auto simp: manager_keep_def held_def handlers_right_def)
next
  case None
  with run map have a: "a = Ret (RoleHandler (role_handler M c))" "mg_handlers M s' = (mg_handlers M s)(cid \<mapsto> c)"
    "s' = mg_set_handlers M ((mg_handlers M s)(cid \<mapsto> c)) s"
    by (auto simp: manager_keep_def manager_map_def)
  have "I s'" using side heldD(1) [OF s] by (simp add: a(3) role_side_def)
  moreover have "K \<subseteq>\<^sub>m mg_handlers M s'"
    using heldD(3) [OF s] None by (auto simp: a(2) map_le_def dom_def)
  ultimately show ?thesis using a c heldD(2) [OF s] by (auto simp: held_def handlers_right_def)
qed

text \<open>Whatever the world, \<open>Handler\<close> answers with a handler around some client, and reads no more than \<open>role_side\<close> says.\<close>

lemma manager_handler_role:
  "manager_handler M cid s = (Ret (RoleHandler h), s') \<Longrightarrow> \<exists>c. h = role_handler M c"
  by (auto simp: manager_handler_def manager_build_def manager_keep_def Let_def io_try_eq_Ret split: option.splits)

lemma manager_handler_side:
  assumes "role_side M I"
  shows "keeps I (manager_handler M cid)"
proof -
  have keep: "keeps I (manager_keep M cid c)" for c
    using assms by (auto simp: keeps_def manager_keep_def role_side_def split: option.split)
  have "keeps I (manager_build M cid)"
    using assms unfolding manager_build_def Let_def role_side_def
    by (cases "mg_inventory M") (auto intro!: keeps_try keeps_case_option keeps_pure keep)
  then show ?thesis by (auto simp: keeps_def manager_handler_def split: option.split)
qed

text \<open>What \<open>Handler\<close> answers with is around a client built for the cluster asked for, and in the map from then on.\<close>

lemma manager_handler_held:
  assumes map: "manager_map M" "builds_leave_handlers M" and side: "role_side M I" and s: "held M I K s"
    and run: "manager_handler M cid s = (a, s')"
  shows "held M I K s' \<and> (\<forall>h. a = Ret (RoleHandler h) \<longrightarrow>
    (\<exists>c. h = role_handler M c \<and> built_for M cid c \<and> mg_handlers M s' cid = Some c))"
proof (cases "mg_handlers M s cid")
  case (Some c)
  with run s show ?thesis by (auto simp: manager_hit held_def handlers_right_def)
next
  case None
  with run have b: "manager_build M cid s = (a, s')" by (simp add: manager_handler_def)
  show ?thesis
  proof (cases "mg_inventory M")
    case None
    with b s show ?thesis by (auto simp: manager_build_def io_ret_apply)
  next
    case (Some lookup)
    obtain r s1 where r: "lookup cid s = (r, s1)" by (cases "lookup cid s")
    have "keeps (held M I K) (lookup cid)"
      using side map(2) Some by (intro keeps_held) (auto simp: role_side_def builds_leave_handlers_def)
    from keepsD [OF this s] r have s1: "held M I K s1" by simp
    show ?thesis
    proof (cases "\<exists>info. r = Ret (Inr (Some info))")
      case False
      with b Some r s1 show ?thesis
        by (cases r) (auto simp: manager_build_def io_try_def io_bind_def io_ret_apply split: sum.splits option.splits)
    next
      case True
      then obtain info where info: "r = Ret (Inr (Some info))" ..
      then have listed: "listed M cid info" using Some r by (auto simp: listed_def)
      obtain q s2 where q: "client_of M cid info s1 = (q, s2)" by (cases "client_of M cid info s1")
      have "keeps (held M I K) (client_of M cid info)"
        using side map(2) by (intro keeps_held) (auto simp: role_side_def builds_leave_handlers_def client_of_def)
      from keepsD [OF this s1] q have s2: "held M I K s2" by simp
      note steps = manager_build_def Some io_try_def io_bind_def r info Let_def q [unfolded client_of_def]
      show ?thesis
      proof (cases "\<exists>c. q = Ret (Inr c)")
        case False
        with b s2 show ?thesis
          by (cases q) (auto simp: steps io_ret_apply split: sum.splits)
      next
        case True
        then obtain c where c: "q = Ret (Inr c)" ..
        with q listed have built: "built_for M cid c" unfolding built_for_def by blast
        from b c have run: "manager_keep M cid c s2 = (a, s')" by (simp add: steps)
        note kept = manager_keep_held [OF map(1) side built s2 run]
        show ?thesis using kept by auto
      qed
    qed
  qed
qed

lemma route_by_role:
  assumes "nw_role N = Some (manager_handler M)" and "agentless N"
  shows "route N cid on_role on_local on_peer s =
    (case manager_handler M cid s of
       (Ret (RoleHandler h), s') \<Rightarrow> io_bind (on_role h) (\<lambda>r. io_ret (Inr r)) s'
     | (Ret (RoleFailed e), s') \<Rightarrow> (Ret (Inl e), s')
     | (Ret RoleNotMine, s') \<Rightarrow> (Ret (Inl (err_cluster_not_connected cid)), s')
     | (Panic m, s') \<Rightarrow> (Panic m, s')
     | (Hang, s') \<Rightarrow> (Hang, s'))"
proof -
  have "nw_get N cid = (\<lambda>s. (None, s))" "nw_registry N = None" using assms(2) by (auto simp: agentless_def)
  then show ?thesis
    by (auto simp: route_def try_role_def assms(1) io_bind_def io_call_def io_try_def peer_for_def io_ret_apply
        split: outcome.split role_answer.split prod.split)
qed

text \<open>A request keeps what resolving the handler keeps and what the handler given keeps.\<close>

lemma route_by_role_keeps:
  assumes "nw_role N = Some (manager_handler M)" and "agentless N" and "keeps I (manager_handler M cid)"
    and "\<And>s h s'. I s \<Longrightarrow> manager_handler M cid s = (Ret (RoleHandler h), s') \<Longrightarrow> keeps I (on_role h)"
  shows "keeps I (route N cid on_role on_local on_peer)"
  unfolding keeps_def
proof (intro allI impI)
  fix s assume s: "I s"
  obtain a s' where a: "manager_handler M cid s = (a, s')" by (cases "manager_handler M cid s")
  have s': "I s'" using keepsD [OF assms(3) s] a by simp
  have handled: "I (snd (io_bind (on_role h) (\<lambda>r. io_ret (Inr r)) s'))" if "a = Ret (RoleHandler h)" for h
  proof -
    have "keeps I (io_bind (on_role h) (\<lambda>r. io_ret (Inr r)))"
      using assms(4) [OF s a [unfolded that]] by (auto intro!: keeps_intros)
    from keepsD [OF this s'] show ?thesis .
  qed
  show "I (snd (route N cid on_role on_local on_peer s))"
  proof (cases a)
    case (Ret x)
    with s' handled show ?thesis by (cases x) (simp_all add: route_by_role [OF assms(1,2)] a)
  qed (simp_all add: route_by_role [OF assms(1,2)] a s')
qed

text \<open>The laws of the parts put together: the hub, the manager behind it and the world they share.\<close>

definition role_hub :: "'s tools \<Rightarrow> 's network \<Rightarrow> ('c, 's) manager \<Rightarrow> string \<Rightarrow> ('s \<Rightarrow> bool) \<Rightarrow> bool" where
  "role_hub T N M calico I \<longleftrightarrow> tl_hub T = network_hub N \<and> nw_role N = Some (manager_handler M) \<and> agentless N
     \<and> mg_registry M = default_playbooks calico \<and> role_side M I \<and> map_apart M T \<and> hub_side T I"

lemma role_hubD:
  assumes "role_hub T N M calico I"
  shows "tl_hub T = network_hub N" and "nw_role N = Some (manager_handler M)" and "agentless N"
    and "mg_registry M = default_playbooks calico" and "role_side M I" and "manager_map M" and "builds_leave_handlers M"
    and "kube_reads (mg_kube M c) (held M I K)" and "kube_keeps (mg_kube M c) I \<Longrightarrow> kube_keeps (mg_kube M c) (held M I K)"
    and "hub_side T (held M I K)"
proof -
  have reads: "\<And>H. kube_reads (mg_kube M c) (\<lambda>s. mg_handlers M s = H)" and writes: "\<And>H. kube_writes (mg_kube M c) (\<lambda>s. mg_handlers M s = H)"
    and hub: "\<And>H. hub_side T (\<lambda>s. mg_handlers M s = H)"
    using assms by (auto simp: role_hub_def map_apart_def kube_keeps_def)
  have mine: "kube_reads (mg_kube M c) I" "hub_side T I" using assms by (auto simp: role_hub_def role_side_def)
  show r: "kube_reads (mg_kube M c) (held M I K)" by (rule kube_reads_held [OF mine(1) reads])
  show "hub_side T (held M I K)" by (rule hub_side_held [OF mine(2) hub])
  show "kube_keeps (mg_kube M c) (held M I K)" if "kube_keeps (mg_kube M c) I"
    using that r kube_writes_held [OF _ writes] by (simp add: kube_keeps_def)
qed (use assms in \<open>auto simp: role_hub_def map_apart_def\<close>)

lemma handler_held:
  assumes "role_hub T N M calico I"
  shows "keeps (held M I K) (manager_handler M cid)"
  using manager_handler_held [OF role_hubD(6,7,5) [OF assms]]
  by (auto simp: keeps_def) (metis prod.collapse)

lemma role_request_held:
  assumes r: "role_hub T N M calico I"
    and req: "\<And>c. built_for M cid c \<Longrightarrow> (\<forall>d. K cid = Some d \<longrightarrow> d = c) \<Longrightarrow> keeps (held M I K) (on_role (role_handler M c))"
  shows "keeps (held M I K) (route N cid on_role on_local on_peer)"
proof (rule route_by_role_keeps [OF role_hubD(2,3) [OF r] handler_held [OF r]])
  fix s h s'
  assume s: "held M I K s" and h: "manager_handler M cid s = (Ret (RoleHandler h), s')"
  from manager_handler_held [OF role_hubD(6,7,5) [OF r] s h] obtain c where
    c: "h = role_handler M c" "built_for M cid c" "mg_handlers M s' cid = Some c" and s': "held M I K s'" by blast
  have "d = c" if "K cid = Some d" for d
    using heldD(3) [OF s'] c(3) that by (auto simp: map_le_def dom_def)
  with req [OF c(2)] show "keeps (held M I K) (on_role h)" by (simp add: c(1))
qed

lemma role_hub_reads:
  assumes r: "role_hub T N M calico I"
  shows "hub_reads T (held M I K)"
proof -
  have h: "handler_reads (role_handler M c) (held M I K)" for c
    unfolding role_handler_def role_hubD(4) [OF r] by (rule agent_handler_reads [OF role_hubD(8) [OF r]])
  have "keeps (held M I K) (connected_clusters N)"
    using role_hubD(3) [OF r]
    by (auto simp: connected_clusters_def agentless_def manager_cluster_ids_def role_hubD(2) [OF r]
        intro!: keeps_intros keeps_call)
  moreover have "keeps (held M I K) (hub_diagnose N cid sig)" "keeps (held M I K) (hub_scan N cid ns)"
    "keeps (held M I K) (hub_list_nodes N cid)" "keeps (held M I K) (hub_get_logs N cid ns name dep n)"
    for cid sig ns name dep n
    using h unfolding hub_diagnose_def hub_scan_def hub_list_nodes_def hub_get_logs_def
    by (auto simp: handler_reads_def diagnose_response_of_def scan_response_of_def get_logs_response_of_def
        list_nodes_response_of_def intro!: role_request_held [OF r] respond_keeps)
  ultimately show ?thesis
    using role_hubD(10) [OF r, of K] by (simp add: hub_reads_def hub_side_def role_hubD(1) [OF r] network_hub_def)
qed

text \<open>A request that runs actions keeps \<open>I\<close> when the calls of the cluster's own client do.\<close>

lemma role_hub_writes:
  assumes r: "role_hub T N M calico I"
    and c: "\<And>c. built_for M cid c \<Longrightarrow> (\<forall>d. K cid = Some d \<longrightarrow> d = c) \<Longrightarrow> kube_keeps (mg_kube M c) I"
  shows "keeps (held M I K) (hb_execute (tl_hub T) cid pid sig)"
    and "keeps (held M I K) (hb_approve_action (tl_hub T) cid pid sig name m)"
proof -
  have h: "keeps (held M I K) (h_execute (role_handler M c) pid sig)"
    "keeps (held M I K) (h_approve_action (role_handler M c) pid sig name m)"
    if "built_for M cid c" "\<forall>d. K cid = Some d \<longrightarrow> d = c" for c
    using handler_writes_keep [OF role_hubD(9) [OF r assms(2) [OF that]]]
    by (simp_all add: role_handler_def role_hubD(4) [OF r] agent_handler_def)
  show "keeps (held M I K) (hb_execute (tl_hub T) cid pid sig)"
    "keeps (held M I K) (hb_approve_action (tl_hub T) cid pid sig name m)"
    by (auto simp: role_hubD(1) [OF r] network_hub_def hub_execute_def hub_approve_action_def execute_response_of_def
        approve_action_response_of_def intro!: role_request_held [OF r] respond_keeps h)
qed

text \<open>A diagnosis by role is one the handler made of its cluster, through the client now in the map.\<close>

lemma role_diagnosis:
  assumes r: "role_hub T N M calico I" and s: "held M I K s"
    and run: "hb_diagnose (tl_hub T) cid sig s = (Ret (Inr diag), s')"
  shows "\<exists>c w. held M I [cid \<mapsto> c] s' \<and> built_for M cid c \<and> I w
    \<and> (dr_proposed diag \<noteq> [] \<longrightarrow> (\<exists>d w'. handle_diagnose (mg_kube M c) (default_playbooks calico) sig w = (Ret (Inr d), w')
         \<and> dr_proposed diag = dg_proposed d))"
proof -
  from run obtain h w where h: "manager_handler M cid s = (Ret (RoleHandler h), w)"
    and resp: "diagnose_response_of h sig w = (Ret diag, s')"
    by (auto simp: role_hubD(1) [OF r] network_hub_def hub_diagnose_def route_by_role [OF role_hubD(2,3) [OF r]] io_bind_def
        io_ret_apply split: outcome.splits role_answer.splits prod.splits)
  from manager_handler_held [OF role_hubD(6,7,5) [OF r] s h] obtain c where w: "held M I K w"
    and c: "h = role_handler M c" "built_for M cid c" "mg_handlers M w cid = Some c" by blast
  have in_map: "held M I [cid \<mapsto> c] w" using w c(3) by (auto simp: held_def map_le_def)
  have "keeps (held M I [cid \<mapsto> c]) (diagnose_response_of h sig)"
    using agent_handler_reads [OF role_hubD(8) [OF r]]
    by (simp add: diagnose_response_of_def c(1) role_handler_def role_hubD(4) [OF r] handler_reads_def respond_keeps)
  from keepsD [OF this in_map] have "held M I [cid \<mapsto> c] s'" by (simp only: resp snd_conv)
  moreover have "\<exists>d w'. handle_diagnose (mg_kube M c) (default_playbooks calico) sig w = (Ret (Inr d), w')
      \<and> dr_proposed diag = dg_proposed d" if "dr_proposed diag \<noteq> []"
    using resp that
    by (auto simp: c(1) role_handler_def agent_handler_def role_hubD(4) [OF r] diagnose_response_of_def respond_def io_try_def
        io_bind_def io_ret_apply split: outcome.splits sum.splits prod.splits)
  ultimately show ?thesis using c(2) heldD(1) [OF w] by blast
qed

section \<open>What a tool changes\<close>

text \<open>A change by \<open>troubleshoot\<close> goes through the client that made the diagnosis.\<close>

lemma role_troubleshoot_changes:
  assumes r: "role_hub T N M calico I" and s: "held M I Map.empty s" and no: "\<not> I (snd (troubleshoot T i s))"
  shows "\<exists>c d w w'. built_for M (ti_cluster_id i) c \<and> \<not> kube_keeps (mg_kube M c) I \<and> I w
    \<and> lets_run T i (dg_proposed d)
    \<and> handle_diagnose (mg_kube M c) (default_playbooks calico) (Some (in_signal i)) w = (Ret (Inr d), w')"
proof (rule ccontr)
  assume none: "\<not> ?thesis"
  note reads = role_hub_reads [OF r]
  let ?cid = "ti_cluster_id i" and ?J = "held M I Map.empty"
  have "keeps ?J (troubleshoot T i)"
  proof (rule troubleshoot_stages [OF reads])
    fix v diag v'
    assume v: "?J v" and d: "hb_diagnose (tl_hub T) ?cid (Some (in_signal i)) v = (Ret (Inr diag), v')"
    from role_diagnosis [OF r v d] obtain c w where v': "held M I [?cid \<mapsto> c] v'" and c: "built_for M ?cid c" "I w"
      and dg: "dr_proposed diag \<noteq> [] \<longrightarrow> (\<exists>d w'. handle_diagnose (mg_kube M c) (default_playbooks calico) (Some (in_signal i)) w
          = (Ret (Inr d), w') \<and> dr_proposed diag = dg_proposed d)" by blast
    have "keeps (held M I [?cid \<mapsto> c]) (decide_and_act T i diag)"
    proof (rule decide_and_act_keeps [OF reads])
      assume lets: "lets_run T i (dr_proposed diag)"
      then have "dr_proposed diag \<noteq> []" unfolding lets_run_iff by auto
      with dg obtain d w' where "handle_diagnose (mg_kube M c) (default_playbooks calico) (Some (in_signal i)) w = (Ret (Inr d), w')"
        "dr_proposed diag = dg_proposed d" by blast
      with lets c have "kube_keeps (mg_kube M c) I" using none by metis
      then show "keeps (held M I [?cid \<mapsto> c]) (hb_execute (tl_hub T) ?cid (dr_playbook_id diag) (Some (in_signal i)))"
        by (intro role_hub_writes [OF r]) simp
    qed
    from keepsD [OF this v'] show "?J (snd (decide_and_act T i diag v'))" by (simp add: held_def)
  qed
  from keepsD [OF this s] no show False by (simp add: held_def)
qed

text \<open>A change by \<open>approve_action\<close> goes through a client of the incident's cluster.\<close>

lemma role_approve_changes:
  assumes r: "role_hub T N M calico I" and s: "held M I Map.empty s" and no: "\<not> I (snd (approve_action T incident name s))"
  shows "may_approve T \<and> (\<exists>e s' c. as_get (tl_audit T) incident s = (Ret (Inr (Some e)), s')
    \<and> built_for M (en_cluster_id e) c \<and> \<not> kube_keeps (mg_kube M c) I)"
proof (rule ccontr)
  assume none: "\<not> ?thesis"
  have "held M I Map.empty (snd (approve_action T incident name s))"
    by (rule approve_keeps_at [OF role_hub_reads [OF r] s]) (use none in \<open>blast intro: role_hub_writes [OF r]\<close>)
  with no show False by (simp add: held_def)
qed

text \<open>Whatever the clusters do, the map of handlers stays right.\<close>

lemma role_map_right:
  assumes r: "role_hub T N M calico I" and s: "handlers_right M s"
  shows "handlers_right M (snd (troubleshoot T i s))" and "handlers_right M (snd (approve_action T incident name s))"
proof -
  have all: "role_hub T N M calico (\<lambda>_. True)"
    using r by (simp add: role_hub_def role_side_def hub_side_def kube_reads_def keeps_def)
  have "kube_keeps (mg_kube M c) (\<lambda>_. True)" for c by (simp add: kube_keeps_def kube_reads_def kube_writes_def keeps_def)
  note writes = role_hub_writes [OF all this] and reads = role_hub_reads [OF all]
  have t: "held M (\<lambda>_. True) Map.empty s" using s by (simp add: held_def)
  have "keeps (held M (\<lambda>_. True) Map.empty) (troubleshoot T i)"
    by (rule troubleshoot_stages [OF reads]) (erule keepsD [OF decide_and_act_keeps [OF reads writes(1)], rotated])
  from heldD(2) [OF keepsD [OF this t]] show "handlers_right M (snd (troubleshoot T i s))" .
  show "handlers_right M (snd (approve_action T incident name s))"
    by (rule heldD(2) [OF approve_keeps_at [OF reads t writes(2)]])
qed

section \<open>Properties\<close>

text \<open>C3: the same as over the stream, for a cluster reached by a role: with the hub's tools, the role manager and
  the handler with its playbooks on the role's client put together, \<open>troubleshoot\<close> leaves the clusters as they
  were unless the flag, the caller's tier and the diagnosis allow it; the diagnosis was then made through a
  client built for the very cluster the caller named, and it is the calls of that client that can change what
  changed. \<open>approve_action\<close> changes them only with the flag on, for a prod-admin, and through a client built
  for the cluster of the incident approved. The other tools never change them, and the handlers kept are
  at all times around clients built for their clusters.\<close>

theorem role_cluster_changes_only_authorised:
  assumes "role_hub T N M calico I" and "I s" and "handlers_right M s"
  shows "(I (snd (troubleshoot T i s))
      \<or> tl_execution_flag T
        \<and> (\<exists>t. highest_tier (eng_groups (tl_policy T)) (tl_caller_groups T) = (t, True) \<and> t \<noteq> tier_read_only
          \<and> (\<exists>c d w w'. built_for M (ti_cluster_id i) c \<and> \<not> kube_keeps (mg_kube M c) I
            \<and> I w \<and> handle_diagnose (mg_kube M c) (default_playbooks calico) (Some (in_signal i)) w = (Ret (Inr d), w')
            \<and> (\<exists>a \<in> set (dg_proposed d). pa_risk a \<noteq> risk_high)
            \<and> ((\<exists>a \<in> set (dg_proposed d). pa_risk a = risk_medium) \<longrightarrow> administers t (cluster_env_of T (ti_cluster_id i))))))
    \<and> (I (snd (approve_action T incident name s))
      \<or> tl_execution_flag T \<and> caller_tier (tl_policy T) (tl_caller_groups T) = (tier_prod_admin, True)
        \<and> (\<exists>e s' c. as_get (tl_audit T) incident s = (Ret (Inr (Some e)), s')
            \<and> built_for M (en_cluster_id e) c \<and> \<not> kube_keeps (mg_kube M c) I))
    \<and> I (snd (scan_cluster T cid ns s)) \<and> I (snd (list_nodes_tool T cid region s)) \<and> I (snd (get_postmortem T incident s))
    \<and> handlers_right M (snd (troubleshoot T i s)) \<and> handlers_right M (snd (approve_action T incident name s))"
proof -
  note reads = role_hub_reads [OF assms(1)]
  have s: "held M I Map.empty s" using assms(2,3) by (simp add: held_def)
  have T: "I (snd (troubleshoot T i s))
      \<or> tl_execution_flag T
        \<and> (\<exists>t. highest_tier (eng_groups (tl_policy T)) (tl_caller_groups T) = (t, True) \<and> t \<noteq> tier_read_only
          \<and> (\<exists>c d w w'. built_for M (ti_cluster_id i) c \<and> \<not> kube_keeps (mg_kube M c) I
            \<and> I w \<and> handle_diagnose (mg_kube M c) (default_playbooks calico) (Some (in_signal i)) w = (Ret (Inr d), w')
            \<and> (\<exists>a \<in> set (dg_proposed d). pa_risk a \<noteq> risk_high)
            \<and> ((\<exists>a \<in> set (dg_proposed d). pa_risk a = risk_medium) \<longrightarrow> administers t (cluster_env_of T (ti_cluster_id i)))))"
    using role_troubleshoot_changes [OF assms(1) s] unfolding lets_run_iff by metis
  have A: "I (snd (approve_action T incident name s))
      \<or> may_approve T \<and> (\<exists>e s' c. as_get (tl_audit T) incident s = (Ret (Inr (Some e)), s')
            \<and> built_for M (en_cluster_id e) c \<and> \<not> kube_keeps (mg_kube M c) I)"
    using role_approve_changes [OF assms(1) s] by blast
  show ?thesis
    by (intro conjI T A [unfolded may_approve_def conj_assoc] role_map_right [OF assms(1,3)]
        heldD(1) [OF keepsD [OF keeps_scan_tool [OF reads] s]] heldD(1) [OF keepsD [OF keeps_list_nodes_tool [OF reads] s]]
        heldD(1) [OF keepsD [OF keeps_postmortem [OF reads] s]])
qed

text \<open>A hub with two accounts: the pods are behind the client of the account of \<open>c1\<close>. A prod-admin, execution
  switched on, has a pod of \<open>c2\<close> repaired: the pods of \<open>c1\<close> stay as they are.\<close>

definition quiet_kube :: "role_world kube" where
  "quiet_kube = sim_kube\<lparr>k_delete_pod := (\<lambda>ns n s. (None, s)), k_update_deployment := (\<lambda>ns n d s. (None, s)),
     k_delete_hpa := (\<lambda>ns n s. (None, s))\<rparr>"

definition two_accounts :: "(string, role_world) manager" where
  "two_accounts = demo_manager\<lparr>mg_inventory := Some (inventory_lookup (Some (new_inventory
       [\<lparr>ci_cluster_id = ''c1'', ci_account = ''111'', ci_region = ''r'', ci_eks_name = []\<rparr>,
        \<lparr>ci_cluster_id = ''c2'', ci_account = ''222'', ci_region = ''r'', ci_eks_name = []\<rparr>]))),
     mg_kube := (\<lambda>c. if c = role_arn ''111'' then sim_kube else quiet_kube)\<rparr>"

definition role_tools :: "role_world tools" where
  "role_tools =
    \<lparr>tl_hub = network_hub (role_only (manager_handler two_accounts)), tl_policy = new_engine [''g'' \<mapsto> tier_prod_admin],
     tl_audit = \<lparr>as_append = (\<lambda>e. io_ret None), as_list = (\<lambda>cid. io_ret (Inr [])), as_get = (\<lambda>i. io_ret (Inr None))\<rparr>,
     tl_execution_flag = True, tl_prod_clusters = Map.empty, tl_caller_groups = [''g''], tl_runbooks = None,
     tl_inventory = None, tl_scope = None, tl_tool_access = Map.empty, tl_env = demo_env\<rparr>"

lemma quiet_keeps:
  assumes "\<And>s d. I s \<Longrightarrow> I (s\<lparr>cl_now := cl_now s + max 0 d\<rparr>)"
  shows "kube_keeps quiet_kube I"
proof -
  have "kube_reads sim_kube I" by (rule sim_reads_pure) (rule assms)
  then have "kube_reads quiet_kube I" by (simp add: quiet_kube_def kube_reads_def)
  then show ?thesis by (auto simp: kube_keeps_def kube_writes_def quiet_kube_def intro!: keeps_call)
qed

lemma sim_keeps_handlers: "kube_keeps sim_kube (\<lambda>s :: role_world. rw_handlers s = H)"
  by (auto simp: kube_keeps_def kube_writes_def sim_kube_def intro!: sim_reads_pure [unfolded sim_kube_def] keeps_call)

lemma two_accounts_hub: "role_hub role_tools (role_only (manager_handler two_accounts)) two_accounts [] (\<lambda>s. cl_pods s = [web_pod])"
proof -
  have reads: "kube_reads (mg_kube two_accounts c) (\<lambda>s. cl_pods s = [web_pod])" for c
    using quiet_keeps [of "\<lambda>s. cl_pods s = [web_pod]"]
    by (simp add: two_accounts_def demo_manager_def sim_reads_pods kube_keeps_def)
  have map: "kube_keeps (mg_kube two_accounts c) (\<lambda>s. mg_handlers two_accounts s = H)" for c H
    using quiet_keeps [of "\<lambda>s. rw_handlers s = H"] sim_keeps_handlers by (simp add: two_accounts_def demo_manager_def)
  have side: "hub_side role_tools J" for J
    by (simp add: hub_side_def role_tools_def demo_env_def keeps_def io_call_def)
  note parts = two_accounts_def demo_manager_def inventory_lookup_def keeps_def io_ret_apply
  have "role_side two_accounts (\<lambda>s. cl_pods s = [web_pod])"
    unfolding role_side_def using reads by (auto simp: parts)
  moreover have "map_apart two_accounts role_tools"
    unfolding map_apart_def using map side by (auto simp: manager_map_def builds_leave_handlers_def parts)
  ultimately show ?thesis
    using side by (simp add: role_hub_def agentless_def role_tools_def role_only_def)
      (simp add: two_accounts_def demo_manager_def)
qed

theorem role_cluster_changes_only_authorised_witness:
  "cl_pods (snd (troubleshoot role_tools (demo_in\<lparr>ti_cluster_id := ''c2'', ti_kind := ''PodImagePullBackOff''\<rparr>) role_start)) = [web_pod]"
proof -
  let ?I = "\<lambda>s :: role_world. cl_pods s = [web_pod]"
  have "handlers_right two_accounts role_start"
    by (simp add: handlers_right_def two_accounts_def demo_manager_def role_start_def)
  from role_cluster_changes_only_authorised [OF two_accounts_hub _ this,
    of "demo_in\<lparr>ti_cluster_id := ''c2'', ti_kind := ''PodImagePullBackOff''\<rparr>"]
  have "?I (snd (troubleshoot role_tools (demo_in\<lparr>ti_cluster_id := ''c2'', ti_kind := ''PodImagePullBackOff''\<rparr>) role_start))
      \<or> (\<exists>c. built_for two_accounts ''c2'' c \<and> \<not> kube_keeps (mg_kube two_accounts c) ?I)"
    by (simp add: role_start_def) blast
  moreover have "c = role_arn ''222''" if "built_for two_accounts ''c2'' c" for c
    using that by (auto simp: built_for_def listed_def client_of_def two_accounts_def demo_manager_def inventory_lookup_def
        new_inventory_def io_ret_apply map_build.simps)
  moreover have "kube_keeps (mg_kube two_accounts (role_arn ''222'')) ?I"
    using quiet_keeps [of ?I] by (simp add: two_accounts_def role_arn_def)
  ultimately show ?thesis by blast
qed

end
