(* ===== verification/Fleet.thy ===== *)
theory Fleet imports Transport begin

text \<open>
  The hub as several replicas (internal/transport/server.go with a shared internal/registry): each replica is
  a \<open>server\<close> with its own sessions, all announce to and look up in one registry, and a request for a cluster
  held elsewhere is forwarded to the replica the registry names, over its InternalService.

  \<^item> \<open>fleet\<close>: the replicas by their address, the registry's records and the clock, as a step relation. The
    registry is \<open>InMemory\<close>, the model of the contract Redis has too.
  \<^item> \<open>fleet_network\<close>: the network of one replica over such a fleet. What it takes from gRPC (its connections'
    streams, dialling, the errors of a call) is the parameter \<open>base\<close> of each replica, and \<open>rpc\<close>.
\<close>

section \<open>Lookups in a server\<close>

definition server_get :: "string \<Rightarrow> server \<Rightarrow> nat option" where
  "server_get cid S = sv_agents S cid"

text \<open>\<open>LocalClusters\<close>: the keys of \<open>agents\<close>, of which Go promises no order. Each is a session's cluster.\<close>

definition local_clusters :: "server \<Rightarrow> string list" where
  "local_clusters S = map snd (filter (\<lambda>(c, cid). sv_agents S cid = Some c) (sv_live S))"

section \<open>The fleet\<close>

record fleet =
  fl_servers :: "string \<Rightarrow> server"
  fl_records :: in_memory
  fl_now :: int

definition new_fleet :: fleet where
  "new_fleet = \<lparr>fl_servers = (\<lambda>_. new_server), fl_records = [], fl_now = 0\<rparr>"

definition replica_config :: "int \<Rightarrow> string \<Rightarrow> server_config" where
  "replica_config ttl a = \<lparr>sc_registry = True, sc_self_addr = a, sc_ttl = ttl, sc_heartbeat_interval = 0\<rparr>"

text \<open>One replica's operation, on the shared records and clock.\<close>

definition on_replica :: "string \<Rightarrow> (server \<Rightarrow> server) \<Rightarrow> fleet \<Rightarrow> fleet" where
  "on_replica a f F =
    (let S = f ((fl_servers F a)\<lparr>sv_records := fl_records F, sv_now := fl_now F\<rparr>) in
     F\<lparr>fl_servers := (fl_servers F)(a := S), fl_records := sv_records S\<rparr>)"

definition fleet_hello :: "int \<Rightarrow> string \<Rightarrow> string \<Rightarrow> fleet \<Rightarrow> fleet" where
  "fleet_hello ttl a cid = on_replica a (session_hello (replica_config ttl a) cid)"

definition fleet_end :: "int \<Rightarrow> string \<Rightarrow> nat \<times> string \<Rightarrow> fleet \<Rightarrow> fleet" where
  "fleet_end ttl a s = on_replica a (session_end (replica_config ttl a) s)"

definition fleet_tick :: "int \<Rightarrow> string \<Rightarrow> string \<Rightarrow> fleet \<Rightarrow> fleet" where
  "fleet_tick ttl a cid = on_replica a (server_heartbeat (replica_config ttl a) cid)"

definition fleet_pass :: "int \<Rightarrow> fleet \<Rightarrow> fleet" where
  "fleet_pass d F = F\<lparr>fl_now := fl_now F + d\<rparr>"

text \<open>A replica that dies leaves its records.\<close>

definition fleet_crash :: "string \<Rightarrow> fleet \<Rightarrow> fleet" where
  "fleet_crash a F = F\<lparr>fl_servers := (fl_servers F)(a := new_server)\<rparr>"

definition fleet_lookup :: "string \<Rightarrow> fleet \<Rightarrow> string option" where
  "fleet_lookup cid F = in_memory_lookup cid (fl_now F) (fl_records F)"

inductive fleet_reachable :: "int \<Rightarrow> fleet \<Rightarrow> bool" for ttl where
  start: "fleet_reachable ttl new_fleet"
| hello: "fleet_reachable ttl F \<Longrightarrow> cid \<noteq> [] \<Longrightarrow> fleet_reachable ttl (fleet_hello ttl a cid F)"
| ends: "fleet_reachable ttl F \<Longrightarrow> s \<in> set (sv_live (fl_servers F a)) \<Longrightarrow> fleet_reachable ttl (fleet_end ttl a s F)"
| tick: "fleet_reachable ttl F \<Longrightarrow> b \<in> set (sv_beating (fl_servers F a)) \<Longrightarrow>
    fleet_reachable ttl (fleet_tick ttl a (snd b) F)"
| pass: "fleet_reachable ttl F \<Longrightarrow> 0 \<le> d \<Longrightarrow> fleet_reachable ttl (fleet_pass d F)"
| crash: "fleet_reachable ttl F \<Longrightarrow> fleet_reachable ttl (fleet_crash a F)"

text \<open>
  Orderly: no session of a cluster starts while another is in progress on any replica, no replica dies, and
  every heartbeat comes before its record expires (time passes only as long as every cluster in session keeps a
  live record). In both relations the registry's calls get through, and a Hello or the end of a session is one
  step: \<open>register\<close> and \<open>unregister\<close> change the map under the mutex and call the registry after it, so a state here is
  one in which no such call, and no heartbeat of an ended session, is on its way. Theory FleetFaults has the
  replicas that die and the calls that fail.
\<close>

inductive fleet_orderly :: "int \<Rightarrow> fleet \<Rightarrow> bool" for ttl where
  start: "fleet_orderly ttl new_fleet"
| hello: "fleet_orderly ttl F \<Longrightarrow> cid \<noteq> [] \<Longrightarrow> (\<And>b. cid \<notin> snd ` set (sv_live (fl_servers F b))) \<Longrightarrow>
    fleet_orderly ttl (fleet_hello ttl a cid F)"
| ends: "fleet_orderly ttl F \<Longrightarrow> s \<in> set (sv_live (fl_servers F a)) \<Longrightarrow> fleet_orderly ttl (fleet_end ttl a s F)"
| tick: "fleet_orderly ttl F \<Longrightarrow> b \<in> set (sv_beating (fl_servers F a)) \<Longrightarrow>
    fleet_orderly ttl (fleet_tick ttl a (snd b) F)"
| pass: "fleet_orderly ttl F \<Longrightarrow> 0 \<le> d \<Longrightarrow>
    (\<And>a cid. cid \<in> snd ` set (sv_live (fl_servers F a)) \<Longrightarrow> fleet_lookup cid (fleet_pass d F) \<noteq> None) \<Longrightarrow>
    fleet_orderly ttl (fleet_pass d F)"

text \<open>The clusters a replica has a session for.\<close>

definition held :: "fleet \<Rightarrow> string \<Rightarrow> string set" where
  "held F a = snd ` set (sv_live (fl_servers F a))"

definition fleet_ok :: "int \<Rightarrow> fleet \<Rightarrow> bool" where
  "fleet_ok ttl F \<longleftrightarrow>
     (\<forall>a. server_ok (replica_config ttl a) (fl_servers F a))
   \<and> (\<forall>a b cid. cid \<in> held F a \<longrightarrow> cid \<in> held F b \<longrightarrow> a = b)
   \<and> (\<forall>a cid. cid \<in> held F a \<longrightarrow> fleet_lookup cid F = Some a)
   \<and> (\<forall>t a cid. in_memory_lookup cid t (fl_records F) = Some a \<longrightarrow> cid \<in> held F a)"

lemma fleet_okI:
  assumes "\<And>a. server_ok (replica_config ttl a) (fl_servers F a)"
    and "\<And>a b cid. cid \<in> held F a \<Longrightarrow> cid \<in> held F b \<Longrightarrow> a = b"
    and "\<And>a cid. cid \<in> held F a \<Longrightarrow> fleet_lookup cid F = Some a"
    and "\<And>t a cid. in_memory_lookup cid t (fl_records F) = Some a \<Longrightarrow> cid \<in> held F a"
  shows "fleet_ok ttl F"
  using assms by (simp add: fleet_ok_def)

lemma fleet_okD:
  assumes "fleet_ok ttl F"
  shows fleet_server: "server_ok (replica_config ttl a) (fl_servers F a)"
    and fleet_one: "cid \<in> held F a \<Longrightarrow> cid \<in> held F b \<Longrightarrow> a = b"
    and fleet_found: "cid \<in> held F a \<Longrightarrow> fleet_lookup cid F = Some a"
    and fleet_record: "in_memory_lookup cid t (fl_records F) = Some a \<Longrightarrow> cid \<in> held F a"
  using assms unfolding fleet_ok_def by blast+

lemma ttl_positive: "0 < server_ttl cfg"
  by (simp add: server_ttl_def default_ttl_def)

lemma server_ok_world [simp]:
  "server_ok cfg (S\<lparr>sv_records := r, sv_now := t\<rparr>) \<longleftrightarrow> server_ok cfg S"
  "server_ok cfg (S\<lparr>sv_records := r\<rparr>) \<longleftrightarrow> server_ok cfg S"
  "server_ok cfg (S\<lparr>sv_now := t\<rparr>) \<longleftrightarrow> server_ok cfg S"
  by (simp_all add: server_ok_def)

lemma lookup_announced:
  "in_memory_lookup d t (in_memory_announce c a ttl now r) = Some b \<Longrightarrow>
    (d = c \<and> b = a) \<or> (d \<noteq> c \<and> in_memory_lookup d t r = Some b)"
  using in_memory.lookup_announce [of t now ttl c a r] in_memory.lookup_expired [of now ttl t c a r]
    in_memory.lookup_announce_other [of d c t a ttl now r]
  by (cases "d = c"; cases "t \<le> now + ttl") auto

lemma lookup_forgotten:
  "in_memory_lookup d t (in_memory_forget c r) = Some b \<Longrightarrow> d \<noteq> c \<and> in_memory_lookup d t r = Some b"
  using in_memory.lookup_forget [of c t r] in_memory.lookup_forget_other [of d c t r] by (cases "d = c") auto

lemma fleet_ok_hello:
  assumes ok: "fleet_ok ttl F" and free: "\<And>b. cid \<notin> held F b"
  shows "fleet_ok ttl (fleet_hello ttl a cid F)"
proof -
  let ?cfg = "replica_config ttl a" and ?F = "fleet_hello ttl a cid F"
  have sv: "server_ok ?cfg (session_hello ?cfg cid ((fl_servers F a)\<lparr>sv_records := fl_records F, sv_now := fl_now F\<rparr>))"
    using fleet_server [OF ok] free [of a] by (intro server_ok_hello) (simp_all add: held_def)
  have h: "held ?F b = (if b = a then insert cid (held F a) else held F b)" for b
    by (simp add: held_def fleet_hello_def on_replica_def session_hello_def server_register_def Let_def)
  have r: "fl_records ?F = in_memory_announce cid a (server_ttl ?cfg) (fl_now F) (fl_records F)" "fl_now ?F = fl_now F"
    by (simp_all add: fleet_hello_def on_replica_def session_hello_def server_register_def Let_def replica_config_def)
  have own: "fleet_lookup cid ?F = Some a"
    using ttl_positive [of ?cfg] by (simp add: fleet_lookup_def r in_memory.lookup_announce)
  have other: "d \<noteq> cid \<Longrightarrow> fleet_lookup d ?F = fleet_lookup d F" for d
    by (simp add: fleet_lookup_def r in_memory.lookup_announce_other)
  show ?thesis
  proof (rule fleet_okI)
    show "server_ok (replica_config ttl b) (fl_servers ?F b)" for b
      using sv fleet_server [OF ok] by (simp add: fleet_hello_def on_replica_def Let_def)
  next
    fix b e d assume "d \<in> held ?F b" "d \<in> held ?F e"
    with free fleet_one [OF ok, of d b e] show "b = e" by (auto simp: h split: if_splits)
  next
    fix b d assume "d \<in> held ?F b"
    with free own other [of d] fleet_found [OF ok, of d b] show "fleet_lookup d ?F = Some b"
      by (cases "d = cid") (auto simp: h split: if_splits)
  next
    fix t b d assume "in_memory_lookup d t (fl_records ?F) = Some b"
    then have "(d = cid \<and> b = a) \<or> d \<in> held F b"
      unfolding r by (blast dest: lookup_announced fleet_record [OF ok])
    then show "d \<in> held ?F b" by (auto simp: h)
  qed
qed

lemma server_ok_unique:
  assumes "server_ok cfg S" and "(c, cid) \<in> set (sv_live S)" and "(d, cid) \<in> set (sv_live S)"
  shows "c = d"
proof -
  have "sv_agents S cid = Some c" "sv_agents S cid = Some d" using assms by (simp_all add: server_ok_def)
  then show ?thesis by simp
qed

lemma fleet_ok_end:
  assumes ok: "fleet_ok ttl F" and s: "s \<in> set (sv_live (fl_servers F a))"
  shows "fleet_ok ttl (fleet_end ttl a s F)"
proof -
  let ?cfg = "replica_config ttl a" and ?F = "fleet_end ttl a s F" and ?S = "fl_servers F a"
  obtain c cid where sc: "s = (c, cid)" by (cases s)
  have sv: "server_ok ?cfg (session_end ?cfg s (?S\<lparr>sv_records := fl_records F, sv_now := fl_now F\<rparr>))"
    using fleet_server [OF ok] s by (intro server_ok_end) simp_all
  have only: "(d, cid) \<in> set (sv_live ?S) \<Longrightarrow> d = c" for d
    using server_ok_unique [OF fleet_server [OF ok]] s sc by blast
  have mine: "cid \<in> held F a" using s sc by (force simp: held_def)
  have "set (sv_live (session_end ?cfg s (?S\<lparr>sv_records := fl_records F, sv_now := fl_now F\<rparr>))) = set (sv_live ?S) - {s}"
    by (simp add: session_end_def server_unregister_def Let_def)
  then have "held ?F a = snd ` (set (sv_live ?S) - {s})" by (simp add: held_def fleet_end_def on_replica_def Let_def)
  also have "\<dots> = held F a - {cid}" using only sc by (force simp: held_def)
  finally have ha: "held ?F a = held F a - {cid}" .
  have hb: "held ?F b = held F b" if "b \<noteq> a" for b
    using that by (simp add: held_def fleet_end_def on_replica_def Let_def)
  have h: "held ?F b = held F b - {cid}" for b
    using ha hb [of b] fleet_one [OF ok mine, of b] by (cases "b = a") auto
  have r: "fl_records ?F = in_memory_forget cid (fl_records F)" "fl_now ?F = fl_now F"
    by (simp_all add: fleet_end_def on_replica_def session_end_def server_unregister_def Let_def replica_config_def sc)
  show ?thesis
  proof (rule fleet_okI)
    show "server_ok (replica_config ttl b) (fl_servers ?F b)" for b
      using sv fleet_server [OF ok] by (simp add: fleet_end_def on_replica_def Let_def)
  next
    fix b e d assume "d \<in> held ?F b" "d \<in> held ?F e"
    then show "b = e" using fleet_one [OF ok, of d b e] by (simp add: h)
  next
    fix b d assume "d \<in> held ?F b"
    then show "fleet_lookup d ?F = Some b" using fleet_found [OF ok, of d b]
      by (simp add: h r fleet_lookup_def in_memory.lookup_forget_other)
  next
    fix t b d assume "in_memory_lookup d t (fl_records ?F) = Some b"
    then show "d \<in> held ?F b" unfolding r h by (blast dest: lookup_forgotten fleet_record [OF ok])
  qed
qed

lemma fleet_ok_tick:
  assumes ok: "fleet_ok ttl F" and b: "b \<in> set (sv_beating (fl_servers F a))"
  shows "fleet_ok ttl (fleet_tick ttl a (snd b) F)"
proof -
  let ?cfg = "replica_config ttl a" and ?F = "fleet_tick ttl a (snd b) F" and ?c = "snd b"
  have "set (sv_beating (fl_servers F a)) = set (sv_live (fl_servers F a))"
    using fleet_server [OF ok, of a] by (simp add: server_ok_def replica_config_def)
  with b have mine: "?c \<in> held F a" by (auto simp: held_def)
  have h: "held ?F e = held F e" for e
    by (simp add: held_def fleet_tick_def on_replica_def server_heartbeat_def Let_def)
  have r: "fl_records ?F = in_memory_announce ?c a (server_ttl ?cfg) (fl_now F) (fl_records F)" "fl_now ?F = fl_now F"
    by (simp_all add: fleet_tick_def on_replica_def server_heartbeat_def in_memory_heartbeat_def Let_def replica_config_def)
  have own: "fleet_lookup ?c ?F = Some a"
    using ttl_positive [of ?cfg] by (simp add: fleet_lookup_def r in_memory.lookup_announce)
  have other: "d \<noteq> ?c \<Longrightarrow> fleet_lookup d ?F = fleet_lookup d F" for d
    by (simp add: fleet_lookup_def r in_memory.lookup_announce_other)
  show ?thesis
  proof (rule fleet_okI)
    show "server_ok (replica_config ttl e) (fl_servers ?F e)" for e
      using fleet_server [OF ok] by (simp add: fleet_tick_def on_replica_def server_heartbeat_def Let_def)
  next
    fix e f d assume "d \<in> held ?F e" "d \<in> held ?F f"
    then show "e = f" using fleet_one [OF ok] by (simp add: h)
  next
    fix e d assume d: "d \<in> held ?F e"
    show "fleet_lookup d ?F = Some e"
    proof (cases "d = ?c")
      case True
      with d mine fleet_one [OF ok] have "e = a" unfolding h by blast
      with True own show ?thesis by simp
    next
      case False
      with d other fleet_found [OF ok] show ?thesis by (simp add: h)
    qed
  next
    fix t e d assume "in_memory_lookup d t (fl_records ?F) = Some e"
    then show "d \<in> held ?F e" unfolding r h using mine by (blast dest: lookup_announced fleet_record [OF ok])
  qed
qed

lemma fleet_ok_pass:
  assumes ok: "fleet_ok ttl F" and timely: "\<And>a cid. cid \<in> held F a \<Longrightarrow> fleet_lookup cid (fleet_pass d F) \<noteq> None"
  shows "fleet_ok ttl (fleet_pass d F)"
proof (rule fleet_okI)
  show "server_ok (replica_config ttl a) (fl_servers (fleet_pass d F) a)" for a
    using fleet_server [OF ok] by (simp add: fleet_pass_def)
next
  fix a b cid assume "cid \<in> held (fleet_pass d F) a" "cid \<in> held (fleet_pass d F) b"
  then show "a = b" by (intro fleet_one [OF ok, of cid]) (simp_all add: held_def fleet_pass_def)
next
  fix a cid assume "cid \<in> held (fleet_pass d F) a"
  then have mine: "cid \<in> held F a" by (simp add: held_def fleet_pass_def)
  then obtain b where b: "fleet_lookup cid (fleet_pass d F) = Some b" using timely by blast
  then have "cid \<in> held F b" by (intro fleet_record [OF ok]) (simp add: fleet_lookup_def fleet_pass_def)
  with b mine fleet_one [OF ok] show "fleet_lookup cid (fleet_pass d F) = Some a" by blast
next
  fix t a cid assume "in_memory_lookup cid t (fl_records (fleet_pass d F)) = Some a"
  then show "cid \<in> held (fleet_pass d F) a" using fleet_record [OF ok] by (simp add: held_def fleet_pass_def)
qed

lemma fleet_orderly_ok: "fleet_orderly ttl F \<Longrightarrow> fleet_ok ttl F"
proof (induction rule: fleet_orderly.induct)
  case start
  show ?case
    by (rule fleet_okI) (simp_all add: new_fleet_def held_def server_ok_def new_server_def in_memory_lookup_def)
next
  case (hello F cid a)
  then show ?case by (intro fleet_ok_hello) (simp_all add: held_def)
next
  case (ends F s a)
  then show ?case by (blast intro: fleet_ok_end)
next
  case (tick F b a)
  then show ?case by (blast intro: fleet_ok_tick)
next
  case (pass F d)
  then show ?case by (intro fleet_ok_pass) (simp_all add: held_def)
qed

lemma held_get: "fleet_ok ttl F \<Longrightarrow> cid \<in> held F a \<longleftrightarrow> (\<exists>k. server_get cid (fl_servers F a) = Some k)"
proof -
  assume "fleet_ok ttl F"
  then have "sv_agents (fl_servers F a) cid = Some k \<longleftrightarrow> (k, cid) \<in> set (sv_live (fl_servers F a))" for k
    using fleet_server [of ttl F a] by (simp add: server_ok_def)
  then show ?thesis by (force simp: held_def server_get_def)
qed

text \<open>\<open>local_clusters\<close> lists the connections the server holds.\<close>

lemma agents_live: "fleet_reachable ttl F \<Longrightarrow> sv_agents (fl_servers F a) cid = Some c \<Longrightarrow> (c, cid) \<in> set (sv_live (fl_servers F a))"
proof (induction arbitrary: a cid c rule: fleet_reachable.induct)
  case start
  then show ?case by (simp add: new_fleet_def new_server_def)
next
  case (hello F cid' b)
  then show ?case
    by (auto simp: fleet_hello_def on_replica_def session_hello_def server_register_def Let_def split: if_splits)
next
  case (ends F s b)
  then show ?case
    by (cases s) (auto simp: fleet_end_def on_replica_def session_end_def server_unregister_def Let_def split: if_splits)
next
  case (tick F b b')
  then show ?case by (auto simp: fleet_tick_def on_replica_def server_heartbeat_def Let_def split: if_splits)
next
  case (pass F d)
  then show ?case by (simp add: fleet_pass_def)
next
  case (crash F b)
  then show ?case by (auto simp: fleet_crash_def new_server_def split: if_splits)
qed

lemma local_clusters_dom:
  assumes "fleet_reachable ttl F"
  shows "set (local_clusters (fl_servers F a)) = dom (sv_agents (fl_servers F a))"
  using agents_live [OF assms] by (force simp: local_clusters_def)

section \<open>One replica's network\<close>

record 's fleet_world =
  fw_fleet :: fleet
  fw_rest :: 's

definition on_rest :: "('s \<Rightarrow> 'a \<times> 's) \<Rightarrow> 's fleet_world \<Rightarrow> 'a \<times> 's fleet_world" where
  "on_rest f W = (case f (fw_rest W) of (x, w) \<Rightarrow> (x, W\<lparr>fw_rest := w\<rparr>))"

text \<open>A call of another replica over gRPC: its error crosses as \<open>rpc\<close> makes it; a handler that panics or does
  not end gives the caller an error of gRPC's.\<close>

definition peer_call :: "(goerr \<Rightarrow> goerr) \<Rightarrow> ('s, goerr + 'r) io \<Rightarrow> 's \<Rightarrow> (goerr + 'r) \<times> 's" where
  "peer_call rpc m s =
    (case m s of
       (Ret (Inr r), s') \<Rightarrow> (Inr r, s')
     | (Ret (Inl e), s') \<Rightarrow> (Inl (rpc e), s')
     | (Panic p, s') \<Rightarrow> (Inl (rpc (errorf ''error reading from server: EOF'')), s')
     | (Hang, s') \<Rightarrow> (Inl (rpc (errorf ''context deadline exceeded'')), s'))"

definition fleet_registry :: "'s fleet_world registry_ops" where
  "fleet_registry =
    (let call = (\<lambda>f W. (None, W\<lparr>fw_fleet := (fw_fleet W)\<lparr>fl_records := f (fl_now (fw_fleet W)) (fl_records (fw_fleet W))\<rparr>\<rparr>)) in
    \<lparr>rg_announce = (\<lambda>c a ttl. call (in_memory_announce c a ttl)),
     rg_heartbeat = (\<lambda>c a ttl. call (in_memory_heartbeat c a ttl)),
     rg_lookup = (\<lambda>c W. (Inr (fleet_lookup c (fw_fleet W)), W)),
     rg_forget = (\<lambda>c. call (\<lambda>now. in_memory_forget c)),
     rg_list = (\<lambda>W. (Inr (in_memory_list (fl_now (fw_fleet W)) (fl_records (fw_fleet W))), W))\<rparr>)"

text \<open>What a replica reaches by itself: its own connections. The clusters of roles are left aside here.\<close>

definition replica_local :: "(string \<Rightarrow> 's network) \<Rightarrow> string \<Rightarrow> 's fleet_world network" where
  "replica_local base a = \<lparr>nw_role = None, nw_role_ids = (\<lambda>W. ([], W)),
     nw_get = (\<lambda>cid W. (server_get cid (fl_servers (fw_fleet W) a), W)),
     nw_local_ids = (\<lambda>W. (local_clusters (fl_servers (fw_fleet W) a), W)),
     nw_rand = on_rest (nw_rand (base a)), nw_await = (\<lambda>k rid. on_rest (nw_await (base a) k rid)),
     nw_forget = (\<lambda>k rid W. W\<lparr>fw_rest := nw_forget (base a) k rid (fw_rest W)\<rparr>),
     nw_send = (\<lambda>k q. on_rest (nw_send (base a) k q)), nw_wait = (\<lambda>k h. on_rest (nw_wait (base a) k h)),
     nw_registry = None, nw_peer_known = (\<lambda>b. on_rest (nw_peer_known (base a) b)),
     nw_peer_creds = nw_peer_creds (base a), nw_peer_dial = (\<lambda>b. on_rest (nw_peer_dial (base a) b)),
     nw_peer_diagnose = (\<lambda>b q W. (Inl (errorf []), W)), nw_peer_execute = (\<lambda>b q W. (Inl (errorf []), W)),
     nw_peer_scan = (\<lambda>b q W. (Inl (errorf []), W)), nw_peer_approve = (\<lambda>b q W. (Inl (errorf []), W)),
     nw_peer_get_logs = (\<lambda>b q W. (Inl (errorf []), W)), nw_peer_list_nodes = (\<lambda>b q W. (Inl (errorf []), W))\<rparr>"

text \<open>With the registry and the InternalService of the others.\<close>

definition fleet_network :: "(goerr \<Rightarrow> goerr) \<Rightarrow> (string \<Rightarrow> 's network) \<Rightarrow> string \<Rightarrow> 's fleet_world network" where
  "fleet_network rpc base a = (replica_local base a)
    \<lparr>nw_registry := Some fleet_registry,
     nw_peer_diagnose := (\<lambda>b q. peer_call rpc (internal_diagnose (replica_local base b) q)),
     nw_peer_execute := (\<lambda>b q. peer_call rpc (internal_execute (replica_local base b) q)),
     nw_peer_scan := (\<lambda>b q. peer_call rpc (internal_scan (replica_local base b) q)),
     nw_peer_approve := (\<lambda>b q. peer_call rpc (internal_approve_action (replica_local base b) q)),
     nw_peer_get_logs := (\<lambda>b q. peer_call rpc (internal_get_logs (replica_local base b) q)),
     nw_peer_list_nodes := (\<lambda>b q. peer_call rpc (internal_list_nodes (replica_local base b) q))\<rparr>"

lemma fleet_fields [simp]:
  "nw_role (fleet_network rpc base a) = None" "nw_registry (fleet_network rpc base a) = Some fleet_registry"
  "nw_get (fleet_network rpc base a) cid W = (server_get cid (fl_servers (fw_fleet W) a), W)"
  "nw_get (replica_local base a) cid W = (server_get cid (fl_servers (fw_fleet W) a), W)"
  by (simp_all add: fleet_network_def replica_local_def)

lemma fleet_route:
  assumes "server_get cid (fl_servers (fw_fleet W) a) = None" and "fleet_lookup cid (fw_fleet W) = Some b"
    and "peer_conn (fleet_network rpc base a) b W = (Ret (Inr b), W1)"
  shows "route (fleet_network rpc base a) cid on_role on_local on_peer W = on_peer b W1"
proof -
  have "peer_for (fleet_network rpc base a) cid W = (Ret (Inr b), W1)"
    using assms by (simp add: peer_for_def io_wrap_def io_try_def io_bind_def io_call_def io_ret_apply fleet_registry_def Let_def)
  with assms(1) show ?thesis by (simp add: route_def try_role_def io_try_def io_bind_def io_call_def io_ret_apply)
qed

lemma internal_route_get:
  "server_get cid (fl_servers (fw_fleet W) b) = Some k \<Longrightarrow> internal_route (replica_local base b) cid on_local W = on_local k W"
  "server_get cid (fl_servers (fw_fleet W) b) = None \<Longrightarrow>
    internal_route (replica_local base b) cid on_local W = (Ret (Inl (err_cluster_not_connected cid)), W)"
  by (simp_all add: internal_route_def io_bind_def io_call_def io_ret_apply)

text \<open>Dialling a peer and drawing an id leave the fleet as it is.\<close>

lemma on_rest_fleet: "on_rest f W = (x, W') \<Longrightarrow> fw_fleet W' = fw_fleet W"
  by (auto simp: on_rest_def split: prod.splits)

lemma peer_conn_fleet:
  "peer_conn (fleet_network rpc base a) b W = (r, W') \<Longrightarrow> fw_fleet W' = fw_fleet W"
  by (auto simp: peer_conn_def io_bind_def io_call_def io_ret_apply fleet_network_def replica_local_def
      dest!: on_rest_fleet split: prod.splits if_splits option.splits)

lemma request_id_fleet: "request_id (fleet_network rpc base a) W = (r, W') \<Longrightarrow> fw_fleet W' = fw_fleet W"
  by (auto simp: request_id_def io_bind_def io_call_def io_ret_apply fleet_network_def replica_local_def
      dest!: on_rest_fleet split: prod.splits)

lemma peer_call_cong: "m s = m' s \<Longrightarrow> peer_call rpc m s = peer_call rpc m' s"
  by (simp add: peer_call_def)

section \<open>Properties\<close>

definition demo_fleet :: fleet where
  "demo_fleet = fleet_hello 30 ''10.0.0.2:7443'' ''spoke-1'' new_fleet"

lemma demo_fleet_orderly: "fleet_orderly 30 demo_fleet"
  unfolding demo_fleet_def by (rule fleet_orderly.hello [OF fleet_orderly.start]) (simp_all add: new_fleet_def new_server_def)

lemmas fleet_ops = fleet_hello_def fleet_end_def fleet_tick_def on_replica_def session_hello_def session_end_def
  server_register_def server_unregister_def server_heartbeat_def Let_def

lemma demo_fleet_get: "server_get ''spoke-1'' (fl_servers demo_fleet ''10.0.0.2:7443'') = Some 0"
  "server_get ''spoke-1'' (fl_servers demo_fleet ''10.0.0.1:7443'') = None"
  by (simp_all add: demo_fleet_def fleet_ops new_fleet_def new_server_def server_get_def replica_config_def)

text \<open>C36: every replica reaches every connected cluster: in an orderly fleet (no overlapping sessions, no replica dead,
  no registry call failed or still on its way) a request for a cluster held by
  another replica is answered by that replica, over its own connection to the cluster's agent, as if it had
  been asked there; the caller sees its response as it is.\<close>

theorem any_replica_reaches:
  assumes "fleet_orderly ttl (fw_fleet W)" and "server_get cid (fl_servers (fw_fleet W) b) = Some k" and "a \<noteq> b"
    and "peer_conn (fleet_network rpc base a) b W = (Ret (Inr b), W1)"
    and "request_id (fleet_network rpc base a) W1 = (Ret rid, W2)"
  shows "hub_diagnose (fleet_network rpc base a) cid sig W
      = io_call (peer_call rpc (diagnose_local (replica_local base b) cid k sig)) W2
    \<and> hub_execute (fleet_network rpc base a) cid pid sig W
      = io_call (peer_call rpc (execute_local (replica_local base b) cid k pid sig)) W2
    \<and> hub_scan (fleet_network rpc base a) cid ns W
      = io_call (peer_call rpc (scan_local (replica_local base b) cid k ns)) W2
    \<and> hub_approve_action (fleet_network rpc base a) cid pid sig name m W
      = io_call (peer_call rpc (approve_action_local (replica_local base b) cid k pid sig name m)) W2
    \<and> hub_get_logs (fleet_network rpc base a) cid ns name dep n W
      = io_call (peer_call rpc (get_logs_local (replica_local base b) cid k ns name dep n)) W2
    \<and> hub_list_nodes (fleet_network rpc base a) cid W
      = io_call (peer_call rpc (list_nodes_local (replica_local base b) cid k)) W2"
proof -
  note ok = fleet_orderly_ok [OF assms(1)]
  have b: "cid \<in> held (fw_fleet W) b" using held_get [OF ok] assms(2) by blast
  have "cid \<notin> held (fw_fleet W) a" using fleet_one [OF ok b] assms(3) by blast
  then have none: "server_get cid (fl_servers (fw_fleet W) a) = None" using held_get [OF ok, of cid a] by auto
  note go = fleet_route [OF none fleet_found [OF ok b] assms(4)]
  have "server_get cid (fl_servers (fw_fleet W2) b) = Some k"
    using assms(2) peer_conn_fleet [OF assms(4)] request_id_fleet [OF assms(5)] by simp
  note there = internal_route_get(1) [OF this]
  note id = io_bind_Ret [where m = "request_id (fleet_network rpc base a)", OF assms(5)]
  show ?thesis
    by (simp add: hub_diagnose_def hub_execute_def hub_scan_def hub_approve_action_def hub_get_logs_def hub_list_nodes_def
        go id io_call_def)
      (simp add: fleet_network_def peer_call_def internal_diagnose_def internal_execute_def internal_scan_def
        internal_approve_action_def internal_get_logs_def internal_list_nodes_def there)
qed

definition demo_base :: "string \<Rightarrow> unit network" where
  "demo_base a = demo_network\<lparr>nw_peer_creds := True\<rparr>"

definition demo_world :: "unit fleet_world" where
  "demo_world = \<lparr>fw_fleet = demo_fleet, fw_rest = ()\<rparr>"

lemma demo_peer: "peer_conn (fleet_network rpc demo_base a) b demo_world = (Ret (Inr b), demo_world)"
  "request_id (fleet_network rpc demo_base a) demo_world = (Ret (hex_encode ''r''), demo_world)"
  by (simp_all add: peer_conn_def request_id_def io_bind_def io_call_def io_ret_apply fleet_network_def replica_local_def
      demo_base_def demo_network_def on_rest_def demo_world_def)

theorem any_replica_reaches_witness:
  "hub_diagnose (fleet_network (wrapf ''rpc error: '') demo_base ''10.0.0.1:7443'') ''spoke-1'' None demo_world
    = io_call (peer_call (wrapf ''rpc error: '') (diagnose_local (replica_local demo_base ''10.0.0.2:7443'') ''spoke-1'' 0 None))
        demo_world"
proof -
  have "fleet_orderly 30 (fw_fleet demo_world)" "server_get ''spoke-1'' (fl_servers (fw_fleet demo_world) ''10.0.0.2:7443'') = Some 0"
    using demo_fleet_orderly demo_fleet_get by (simp_all add: demo_world_def)
  from any_replica_reaches [OF this _ demo_peer, of "''10.0.0.1:7443''"] show ?thesis by simp
qed

text \<open>C37: a stale record fails fast: when the registry names a replica that no longer holds the cluster, every
  request fails with that replica's error that the cluster is not connected; it is not forwarded again, and
  nothing is sent to any agent.\<close>

theorem stale_record_fails_fast:
  assumes "server_get cid (fl_servers (fw_fleet W) a) = None" and "fleet_lookup cid (fw_fleet W) = Some b"
    and "server_get cid (fl_servers (fw_fleet W) b) = None"
    and "peer_conn (fleet_network rpc base a) b W = (Ret (Inr b), W1)"
    and "request_id (fleet_network rpc base a) W1 = (Ret rid, W2)"
  shows "hub_diagnose (fleet_network rpc base a) cid sig W = (Ret (Inl (rpc (err_cluster_not_connected cid))), W2)
    \<and> hub_execute (fleet_network rpc base a) cid pid sig W = (Ret (Inl (rpc (err_cluster_not_connected cid))), W2)
    \<and> hub_scan (fleet_network rpc base a) cid ns W = (Ret (Inl (rpc (err_cluster_not_connected cid))), W2)
    \<and> hub_approve_action (fleet_network rpc base a) cid pid sig name m W
        = (Ret (Inl (rpc (err_cluster_not_connected cid))), W2)
    \<and> hub_get_logs (fleet_network rpc base a) cid ns name dep n W
        = (Ret (Inl (rpc (err_cluster_not_connected cid))), W2)
    \<and> hub_list_nodes (fleet_network rpc base a) cid W = (Ret (Inl (rpc (err_cluster_not_connected cid))), W2)"
proof -
  note go = fleet_route [OF assms(1,2,4)]
  have "server_get cid (fl_servers (fw_fleet W2) b) = None"
    using assms(3) peer_conn_fleet [OF assms(4)] request_id_fleet [OF assms(5)] by simp
  note there = internal_route_get(2) [OF this]
  note id = io_bind_Ret [where m = "request_id (fleet_network rpc base a)", OF assms(5)]
  show ?thesis
    by (simp add: hub_diagnose_def hub_execute_def hub_scan_def hub_approve_action_def hub_get_logs_def hub_list_nodes_def
        go id io_call_def)
      (simp add: fleet_network_def peer_call_def internal_diagnose_def internal_execute_def internal_scan_def
        internal_approve_action_def internal_get_logs_def internal_list_nodes_def there)
qed

theorem stale_record_fails_fast_witness:
  "hub_scan (fleet_network (wrapf ''rpc error: '') demo_base ''10.0.0.1:7443'') ''spoke-1'' []
      \<lparr>fw_fleet = fleet_crash ''10.0.0.2:7443'' demo_fleet, fw_rest = ()\<rparr>
    = (Ret (Inl (wrapf ''rpc error: '' (err_cluster_not_connected ''spoke-1''))),
       \<lparr>fw_fleet = fleet_crash ''10.0.0.2:7443'' demo_fleet, fw_rest = ()\<rparr>)"
proof -
  let ?W = "\<lparr>fw_fleet = fleet_crash ''10.0.0.2:7443'' demo_fleet, fw_rest = ()\<rparr>"
  have get: "server_get ''spoke-1'' (fl_servers (fw_fleet ?W) a) = None" for a
    using demo_fleet_get by (auto simp: fleet_crash_def new_server_def server_get_def demo_fleet_def fleet_ops new_fleet_def replica_config_def)
  have "fleet_lookup ''spoke-1'' demo_fleet = Some ''10.0.0.2:7443''"
    using fleet_found [OF fleet_orderly_ok [OF demo_fleet_orderly]] held_get [OF fleet_orderly_ok [OF demo_fleet_orderly]]
      demo_fleet_get(1) by blast
  then have found: "fleet_lookup ''spoke-1'' (fw_fleet ?W) = Some ''10.0.0.2:7443''"
    by (simp add: fleet_lookup_def fleet_crash_def)
  have "peer_conn (fleet_network (wrapf ''rpc error: '') demo_base ''10.0.0.1:7443'') ''10.0.0.2:7443'' ?W
      = (Ret (Inr ''10.0.0.2:7443''), ?W)"
    "request_id (fleet_network (wrapf ''rpc error: '') demo_base ''10.0.0.1:7443'') ?W = (Ret (hex_encode ''r''), ?W)"
    by (simp_all add: peer_conn_def request_id_def io_bind_def io_call_def io_ret_apply fleet_network_def replica_local_def
        demo_base_def demo_network_def on_rest_def)
  from stale_record_fails_fast [OF get found get this] show ?thesis by blast
qed

text \<open>C39: an agent that moves to another replica is forgotten by the whole fleet: when its old session ends on the
  first replica, the record the second one announced is removed, although the second replica holds the agent;
  only that replica's next heartbeat brings the cluster back to the others.\<close>

theorem moved_agent_forgotten:
  assumes "a \<noteq> b" and "cid \<noteq> []"
  shows "let F1 = fleet_hello ttl b cid (fleet_hello ttl a cid new_fleet);
           F2 = fleet_end ttl a (0, cid) F1;
           F3 = fleet_tick ttl b cid F2
    in fleet_reachable ttl F3 \<and> fleet_lookup cid F1 = Some b
      \<and> server_get cid (fl_servers F2 b) = Some 0 \<and> fleet_lookup cid F2 = None
      \<and> fleet_lookup cid F3 = Some b"
proof -
  define F0 where "F0 = fleet_hello ttl a cid new_fleet"
  define F1 where "F1 = fleet_hello ttl b cid F0"
  define F2 where "F2 = fleet_end ttl a (0, cid) F1"
  define F3 where "F3 = fleet_tick ttl b cid F2"
  note ops = fleet_ops replica_config_def
  have "fleet_reachable ttl F0" unfolding F0_def by (rule fleet_reachable.hello [OF fleet_reachable.start assms(2)])
  then have "fleet_reachable ttl F1" unfolding F1_def by (rule fleet_reachable.hello [OF _ assms(2)])
  moreover have "(0, cid) \<in> set (sv_live (fl_servers F1 a))"
    using assms(1) by (simp add: F1_def F0_def ops new_fleet_def new_server_def)
  ultimately have "fleet_reachable ttl F2" unfolding F2_def by (rule fleet_reachable.ends)
  moreover have "(0, cid) \<in> set (sv_beating (fl_servers F2 b))"
    using assms(1) by (simp add: F2_def F1_def F0_def ops new_fleet_def new_server_def)
  ultimately have "fleet_reachable ttl F3" unfolding F3_def using fleet_reachable.tick [of ttl F2 "(0, cid)" b] by simp
  moreover have "fleet_lookup cid F1 = Some b"
  proof -
    have "fl_records F1 = in_memory_announce cid b (server_ttl (replica_config ttl b)) (fl_now F1) (fl_records F0)"
      by (simp add: F1_def ops)
    then show ?thesis using ttl_positive [of "replica_config ttl b"] by (simp add: fleet_lookup_def in_memory.lookup_announce)
  qed
  moreover have "server_get cid (fl_servers F2 b) = Some 0"
    using assms(1) by (simp add: F2_def F1_def F0_def ops new_fleet_def new_server_def server_get_def)
  moreover have "fleet_lookup cid F2 = None"
    by (simp add: F2_def ops fleet_lookup_def in_memory.lookup_forget)
  moreover have "fleet_lookup cid F3 = Some b"
  proof -
    have "fl_records F3 = in_memory_announce cid b (server_ttl (replica_config ttl b)) (fl_now F3) (fl_records F2)"
      by (simp add: F3_def ops in_memory_heartbeat_def)
    then show ?thesis using ttl_positive [of "replica_config ttl b"] by (simp add: fleet_lookup_def in_memory.lookup_announce)
  qed
  ultimately show ?thesis by (simp add: Let_def F0_def F1_def F2_def F3_def)
qed

theorem moved_agent_forgotten_witness:
  "server_get ''spoke-1'' (fl_servers (fleet_end 30 ''a'' (0, ''spoke-1'') (fleet_hello 30 ''b'' ''spoke-1''
      (fleet_hello 30 ''a'' ''spoke-1'' new_fleet))) ''b'') = Some 0"
  using moved_agent_forgotten [of "''a''" "''b''" "''spoke-1''" 30] by (simp add: Let_def)

end
