(* ===== verification/Directory.thy ===== *)
theory Directory imports Registry begin

text \<open>
  What the hub's replicas may rely on of either implementation of \<open>registry.Registry\<close>, and that both keep
  it. A call has a beginning and an end on the directory's clock; \<open>dir_step\<close> says what it may answer and
  do between them, in terms of the records of InMemory: a call that fails may have taken effect or not, and
  a listing, which Redis collects in several steps, names at least what is live at its end and nothing that
  was not live at its beginning. The locale \<open>directory_service\<close> is the contract of one call, its lemma \<open>runs\<close>
  what follows for a sequence of calls; \<open>in_memory_ops\<close> is interpreted in it, and \<open>redis_ops\<close> fulfils it
  over any server that keeps the documented meaning of \<open>SET\<close>, \<open>GET\<close>, \<open>DEL\<close> and \<open>SCAN\<close> (\<open>redis_server\<close>).

  registry.go says that \<open>Heartbeat\<close> refreshes a live record without changing its value; both implementations
  write the address they are called with (\<open>heartbeat_overwrites\<close>). \<open>dir_effect\<close> is what they do,
  \<open>dir_promise\<close> what registry.go promises; the two agree where a caller only refreshes records that carry
  its own address (\<open>own_renewals\<close>).
\<close>

section \<open>Calls\<close>

datatype dir_op =
    Announce string string int
  | Heartbeat string string int
  | Lookup string
  | Forget string
  | Listing

datatype dir_answer = Done "goerr option" | Found "goerr + string option" | Listed "goerr + string list"

fun dir_call :: "'s registry_ops \<Rightarrow> dir_op \<Rightarrow> 's \<Rightarrow> dir_answer \<times> 's" where
  "dir_call G (Announce c addr ttl) s = map_prod Done id (rg_announce G c addr ttl s)"
| "dir_call G (Heartbeat c addr ttl) s = map_prod Done id (rg_heartbeat G c addr ttl s)"
| "dir_call G (Lookup c) s = map_prod Found id (rg_lookup G c s)"
| "dir_call G (Forget c) s = map_prod Done id (rg_forget G c s)"
| "dir_call G Listing s = map_prod Listed id (rg_list G s)"

fun dir_calls :: "'s registry_ops \<Rightarrow> dir_op list \<Rightarrow> 's \<Rightarrow> dir_answer list \<times> 's" where
  "dir_calls G [] s = ([], s)"
| "dir_calls G (p # ps) s =
    (case dir_call G p s of (a, s') \<Rightarrow> case dir_calls G ps s' of (as, s'') \<Rightarrow> (a # as, s''))"

text \<open>The change a call makes at time \<open>t\<close>, when it makes one: as the code has it, and as registry.go documents it.\<close>

fun dir_effect :: "dir_op \<Rightarrow> int \<Rightarrow> in_memory \<Rightarrow> in_memory" where
  "dir_effect (Announce c addr ttl) t r = in_memory_announce c addr ttl t r"
| "dir_effect (Heartbeat c addr ttl) t r = in_memory_heartbeat c addr ttl t r"
| "dir_effect (Forget c) t r = in_memory_forget c r"
| "dir_effect _ t r = r"

definition refreshed :: "string \<Rightarrow> string \<Rightarrow> int \<Rightarrow> int \<Rightarrow> in_memory \<Rightarrow> in_memory" where
  "refreshed c addr ttl t r =
    in_memory_announce c (case in_memory_lookup c t r of Some held \<Rightarrow> held | None \<Rightarrow> addr) ttl t r"

fun dir_promise :: "dir_op \<Rightarrow> int \<Rightarrow> in_memory \<Rightarrow> in_memory" where
  "dir_promise (Announce c addr ttl) t r = in_memory_announce c addr ttl t r"
| "dir_promise (Heartbeat c addr ttl) t r = refreshed c addr ttl t r"
| "dir_promise (Forget c) t r = in_memory_forget c r"
| "dir_promise _ t r = r"

definition updates :: "dir_op \<Rightarrow> bool" where
  "updates p = (case p of Lookup _ \<Rightarrow> False | Listing \<Rightarrow> False | _ \<Rightarrow> True)"

text \<open>
  Redis counts in milliseconds and takes a TTL of zero for none, so the implementations agree on positive
  TTLs of whole milliseconds; the hub's are 30 seconds unless configured.
\<close>

definition lasting :: "int \<Rightarrow> bool" where
  "lasting ttl \<longleftrightarrow> 0 < ttl \<and> ttl mod 1000000 = 0"

definition well_timed :: "dir_op \<Rightarrow> bool" where
  "well_timed p = (case p of Announce _ _ ttl \<Rightarrow> lasting ttl | Heartbeat _ _ ttl \<Rightarrow> lasting ttl | _ \<Rightarrow> True)"

inductive dir_step :: "(dir_op \<Rightarrow> int \<Rightarrow> in_memory \<Rightarrow> in_memory) \<Rightarrow> int \<Rightarrow> int \<Rightarrow> dir_op \<Rightarrow> dir_answer \<Rightarrow>
    in_memory \<Rightarrow> in_memory \<Rightarrow> bool" for effect where
  update: "updates p \<Longrightarrow> t0 \<le> t \<Longrightarrow> t \<le> t1 \<Longrightarrow> dir_step effect t0 t1 p (Done None) r (effect p t r)"
| update_failed: "updates p \<Longrightarrow> dir_step effect t0 t1 p (Done (Some e)) r r"
| update_unheard: "updates p \<Longrightarrow> t0 \<le> t \<Longrightarrow> t \<le> t1 \<Longrightarrow> dir_step effect t0 t1 p (Done (Some e)) r (effect p t r)"
| lookup: "t0 \<le> t \<Longrightarrow> t \<le> t1 \<Longrightarrow> dir_step effect t0 t1 (Lookup c) (Found (Inr (in_memory_lookup c t r))) r r"
| lookup_failed: "dir_step effect t0 t1 (Lookup c) (Found (Inl e)) r r"
| listing: "set (in_memory_list t1 r) \<subseteq> set cs \<Longrightarrow> \<forall>c \<in> set cs. in_memory_lookup c t0 r \<noteq> None \<Longrightarrow>
    dir_step effect t0 t1 Listing (Listed (Inr cs)) r r"
| listing_failed: "dir_step effect t0 t1 Listing (Listed (Inl e)) r r"

inductive_cases dir_step_lookupE: "dir_step effect t0 t1 (Lookup c) a r r'"
inductive_cases dir_step_listingE: "dir_step effect t0 t1 Listing a r r'"

text \<open>Calls one after the other, between two moments.\<close>

inductive dir_runs :: "(dir_op \<Rightarrow> int \<Rightarrow> in_memory \<Rightarrow> in_memory) \<Rightarrow> int \<Rightarrow> int \<Rightarrow> dir_op list \<Rightarrow> dir_answer list \<Rightarrow>
    in_memory \<Rightarrow> in_memory \<Rightarrow> bool" for effect where
  none: "t0 \<le> t1 \<Longrightarrow> dir_runs effect t0 t1 [] [] r r"
| some: "t0 \<le> t1 \<Longrightarrow> dir_step effect t0 t1 p a r r' \<Longrightarrow> dir_runs effect t1 t2 ps as r' r'' \<Longrightarrow>
    dir_runs effect t0 t2 (p # ps) (a # as) r r''"

text \<open>A heartbeat that finds its cluster without a live record or with one of its own address, and calls that only make
  such heartbeats; \<open>live s\<close> is what a lookup finds in \<open>s\<close>.\<close>

definition own_renewal :: "dir_op \<Rightarrow> (string \<rightharpoonup> string) \<Rightarrow> bool" where
  "own_renewal p l \<longleftrightarrow> (\<forall>c addr ttl. p = Heartbeat c addr ttl \<longrightarrow> l c = None \<or> l c = Some addr)"

fun own_renewals :: "'s registry_ops \<Rightarrow> ('s \<Rightarrow> string \<rightharpoonup> string) \<Rightarrow> dir_op list \<Rightarrow> 's \<Rightarrow> bool" where
  "own_renewals G live [] s \<longleftrightarrow> True"
| "own_renewals G live (p # ps) s \<longleftrightarrow> own_renewal p (live s) \<and> own_renewals G live ps (snd (dir_call G p s))"

lemma lookup_earlier: "in_memory_lookup c t r = Some addr \<Longrightarrow> t0 \<le> t \<Longrightarrow> in_memory_lookup c t0 r = Some addr"
  by (auto simp: in_memory_lookup_def split: option.splits if_splits)

lemma own_effect:
  assumes "own_renewal p (\<lambda>c. in_memory_lookup c t0 r)" and "t0 \<le> t"
  shows "dir_effect p t r = dir_promise p t r"
proof (cases p)
  case (Heartbeat c addr ttl)
  have "in_memory_lookup c t r = Some held \<Longrightarrow> held = addr" for held
    using lookup_earlier [OF _ assms(2), of c r held] assms(1) Heartbeat by (auto simp: own_renewal_def)
  then show ?thesis using Heartbeat by (auto simp: in_memory_heartbeat_def refreshed_def split: option.split)
qed simp_all

lemma own_step:
  assumes "dir_step dir_effect t0 t1 p a r r'" and "own_renewal p (\<lambda>c. in_memory_lookup c t0 r)"
  shows "dir_step dir_promise t0 t1 p a r r'"
  using assms(1)
proof cases
  case (update t)
  then show ?thesis using own_effect [OF assms(2), of t] by (auto intro: dir_step.update)
next
  case (update_unheard t e)
  then show ?thesis using own_effect [OF assms(2), of t] by (auto intro: dir_step.update_unheard)
qed (auto intro: dir_step.intros)

section \<open>The contract\<close>

locale directory_service =
  fixes ops :: "'s registry_ops"
    and clock :: "'s \<Rightarrow> int"
    and stands_for :: "'s \<Rightarrow> in_memory \<Rightarrow> bool"
    and live :: "'s \<Rightarrow> string \<rightharpoonup> string"
  assumes view: "stands_for s r \<Longrightarrow> in_memory_lookup c (clock s) r = live s c"
    and one_call: "well_timed p \<Longrightarrow> stands_for s r \<Longrightarrow> dir_call ops p s = (a, s') \<Longrightarrow>
    clock s \<le> clock s' \<and> (\<exists>r'. dir_step dir_effect (clock s) (clock s') p a r r' \<and> stands_for s' r')"
begin

lemma runs:
  "list_all well_timed ps \<Longrightarrow> own_renewals ops live ps s \<Longrightarrow> stands_for s r \<Longrightarrow> dir_calls ops ps s = (as, s') \<Longrightarrow>
     \<exists>r'. dir_runs dir_promise (clock s) (clock s') ps as r r' \<and> stands_for s' r'"
proof (induction ps arbitrary: s r as)
  case Nil
  then show ?case by (auto intro: dir_runs.none)
next
  case (Cons p ps)
  obtain a s1 where c: "dir_call ops p s = (a, s1)" by (cases "dir_call ops p s")
  with Cons.prems(4) obtain as' where cs: "dir_calls ops ps s1 = (as', s')" and as: "as = a # as'"
    by (auto split: prod.splits)
  from Cons.prems(1,2) c have p: "well_timed p" "own_renewal p (live s)" and ps: "list_all well_timed ps" "own_renewals ops live ps s1"
    by simp_all
  from one_call [OF p(1) Cons.prems(3) c] obtain r1 where le: "clock s \<le> clock s1"
    and step: "dir_step dir_effect (clock s) (clock s1) p a r r1" and r1: "stands_for s1 r1" by blast
  have "dir_step dir_promise (clock s) (clock s1) p a r r1"
    using p(2) by (intro own_step [OF step]) (simp add: view [OF Cons.prems(3)])
  moreover from Cons.IH [OF ps r1 cs] obtain r' where
    "dir_runs dir_promise (clock s1) (clock s') ps as' r1 r'" "stands_for s' r'" by blast
  ultimately show ?case unfolding as using le by (blast intro: dir_runs.some)
qed

end

section \<open>InMemory\<close>

interpretation in_memory_service: directory_service in_memory_ops snd "\<lambda>s r. fst s = r" "\<lambda>s c. in_memory_lookup c (snd s) (fst s)"
proof unfold_locales
  show "fst s = r \<Longrightarrow> in_memory_lookup c (snd s) r = in_memory_lookup c (snd s) (fst s)" for s :: "in_memory \<times> int" and r c by simp
next
  fix s s' :: "in_memory \<times> int" and r p a
  assume r: "fst s = r" and c: "dir_call in_memory_ops p s = (a, s')"
  obtain now where s: "s = (r, now)" using r by (cases s) simp
  have up: "updates p \<Longrightarrow> a = Done None \<and> s' = (dir_effect p now r, now)"
    using c s by (cases p) (simp_all add: in_memory_ops_def updates_def)
  show "snd s \<le> snd s' \<and> (\<exists>r'. dir_step dir_effect (snd s) (snd s') p a r r' \<and> fst s' = r')"
  proof (cases "updates p")
    case True
    with up s show ?thesis by (auto intro: dir_step.update)
  next
    case False
    then consider c where "p = Lookup c" | "p = Listing" by (cases p) (auto simp: updates_def)
    then show ?thesis
    proof cases
      case 1
      with c s show ?thesis by (auto simp: in_memory_ops_def intro: dir_step.lookup)
    next
      case 2
      with c s show ?thesis
        by (auto simp: in_memory_ops_def intro!: dir_step.listing dest: in_memory.listing_lookup)
    qed
  qed
qed

section \<open>Redis\<close>

text \<open>
  A server of Redis: \<open>db\<close> gives of each key its value and the time it lives to, \<open>clock\<close> the server's time.
  A key is gone when its time is past. \<open>moments s s'\<close> are the times of a call from \<open>s\<close> to \<open>s'\<close>.
\<close>

type_synonym redis_db = "string \<Rightarrow> (string \<times> int) option"

definition key_live :: "int \<Rightarrow> (string \<times> int) option \<Rightarrow> string option" where
  "key_live t x = (case x of None \<Rightarrow> None | Some (v, until) \<Rightarrow> if t > until then None else Some v)"

text \<open>A pattern's prefix that holds no character with a meaning in patterns.\<close>

definition plain_glob :: "string \<Rightarrow> bool" where
  "plain_glob p = list_all (\<lambda>c. c \<notin> {CHR ''*'', CHR ''?'', CHR ''['', CHR 0x5C}) p"

definition redis_sets :: "'s redis_client \<Rightarrow> ('s \<Rightarrow> redis_db) \<Rightarrow> ('s \<Rightarrow> int) \<Rightarrow> bool" where
  "redis_sets R db clock \<longleftrightarrow> (\<forall>k v ttl s e s'. lasting ttl \<longrightarrow> rc_set R k v ttl s = (e, s') \<longrightarrow>
     clock s \<le> clock s' \<and> ((\<exists>t. clock s \<le> t \<and> t \<le> clock s' \<and> db s' = (db s)(k \<mapsto> (v, t + ttl)))
       \<or> e \<noteq> None \<and> db s' = db s))"

definition redis_dels :: "'s redis_client \<Rightarrow> ('s \<Rightarrow> redis_db) \<Rightarrow> ('s \<Rightarrow> int) \<Rightarrow> bool" where
  "redis_dels R db clock \<longleftrightarrow> (\<forall>k s e s'. rc_del R k s = (e, s') \<longrightarrow>
     clock s \<le> clock s' \<and> (db s' = (db s)(k := None) \<or> e \<noteq> None \<and> db s' = db s))"

definition redis_gets :: "'s redis_client \<Rightarrow> ('s \<Rightarrow> redis_db) \<Rightarrow> ('s \<Rightarrow> int) \<Rightarrow> bool" where
  "redis_gets R db clock \<longleftrightarrow> (\<forall>k s a s'. rc_get R k s = (a, s') \<longrightarrow>
     clock s \<le> clock s' \<and> db s' = db s
     \<and> (\<forall>v. a = Inr v \<longrightarrow> (\<exists>t. clock s \<le> t \<and> t \<le> clock s' \<and> v = key_live t (db s k))))"

definition redis_scans :: "'s redis_client \<Rightarrow> ('s \<Rightarrow> redis_db) \<Rightarrow> ('s \<Rightarrow> int) \<Rightarrow> bool" where
  "redis_scans R db clock \<longleftrightarrow> (\<forall>p s a s'. plain_glob p \<longrightarrow> rc_scan R (p @ ''*'') s = (a, s') \<longrightarrow>
     clock s \<le> clock s' \<and> db s' = db s
     \<and> (\<forall>ks. a = Inr ks \<longrightarrow>
          (\<forall>k \<in> set ks. has_prefix p k \<and> key_live (clock s) (db s k) \<noteq> None)
        \<and> (\<forall>k. has_prefix p k \<longrightarrow> key_live (clock s') (db s k) \<noteq> None \<longrightarrow> k \<in> set ks)))"

definition redis_server :: "'s redis_client \<Rightarrow> ('s \<Rightarrow> redis_db) \<Rightarrow> ('s \<Rightarrow> int) \<Rightarrow> bool" where
  "redis_server R db clock \<longleftrightarrow>
     redis_sets R db clock \<and> redis_dels R db clock \<and> redis_gets R db clock \<and> redis_scans R db clock"

text \<open>
  \<open>agent_records d0 d r\<close>: under the hub's prefix the database \<open>d\<close> holds the records \<open>r\<close>, and its other keys,
  of which the server may have any, are those of \<open>d0\<close>.
\<close>

definition agent_records :: "redis_db \<Rightarrow> redis_db \<Rightarrow> in_memory \<Rightarrow> bool" where
  "agent_records d0 d r \<longleftrightarrow>
     (\<forall>c. map_of r c = map_option (\<lambda>(v, until). \<lparr>im_addr = v, im_expires = until\<rparr>) (d (key_prefix @ c)))
   \<and> (\<forall>k. \<not> has_prefix key_prefix k \<longrightarrow> d k = d0 k)"

lemma agent_records_lookup: "agent_records d0 d r \<Longrightarrow> in_memory_lookup c t r = key_live t (d (key_prefix @ c))"
  by (auto simp: agent_records_def in_memory_lookup_def key_live_def split: option.splits)

lemma agent_records_announce:
  "agent_records d0 d r \<Longrightarrow> agent_records d0 (d(key_prefix @ c \<mapsto> (v, t + ttl))) (in_memory_announce c v ttl t r)"
  by (auto simp: agent_records_def in_memory_announce_def update_conv')

lemma agent_records_forget:
  "agent_records d0 d r \<Longrightarrow> agent_records d0 (d(key_prefix @ c := None)) (in_memory_forget c r)"
  by (auto simp: agent_records_def in_memory_forget_def delete_conv')

lemma agent_records_list:
  "agent_records d0 d r \<Longrightarrow> c \<in> set (in_memory_list t r) \<Longrightarrow> key_live t (d (key_prefix @ c)) \<noteq> None"
  using in_memory.listing_lookup [of c t r] by (simp add: agent_records_lookup)

text \<open>What a lookup of the hub finds in a database.\<close>

definition redis_live :: "('s \<Rightarrow> redis_db) \<Rightarrow> ('s \<Rightarrow> int) \<Rightarrow> 's \<Rightarrow> string \<rightharpoonup> string" where
  "redis_live db clock s c = key_live (clock s) (db s (key_prefix @ c))"

text \<open>A call that changes the records: it did so at some time of the call, or it failed and did nothing.\<close>

lemma update_step:
  assumes "updates p" and "t0 \<le> t1"
    and "(\<exists>t. t0 \<le> t \<and> t \<le> t1 \<and> K (dir_effect p t r)) \<or> e \<noteq> None \<and> K r"
  shows "t0 \<le> t1 \<and> (\<exists>r'. dir_step dir_effect t0 t1 p (Done e) r r' \<and> K r')"
  using assms by (cases e) (blast intro: dir_step.intros)+

lemma redis_announce_step:
  assumes "redis_server R db clock" and "agent_records d0 (db s) r" and "lasting ttl"
    and "redis_announce R c addr ttl s = (e, s')"
  shows "clock s \<le> clock s' \<and> ((\<exists>t. clock s \<le> t \<and> t \<le> clock s' \<and> agent_records d0 (db s') (in_memory_announce c addr ttl t r))
    \<or> e \<noteq> None \<and> agent_records d0 (db s') r)"
proof -
  from assms(4) obtain e' where "rc_set R (key_prefix @ c) addr ttl s = (e', s')" "e = None \<longleftrightarrow> e' = None"
    by (auto simp: redis_announce_def map_err_def split: prod.splits)
  with assms(1,3) have "clock s \<le> clock s' \<and> ((\<exists>t. clock s \<le> t \<and> t \<le> clock s' \<and> db s' = (db s)(key_prefix @ c \<mapsto> (addr, t + ttl)))
       \<or> e \<noteq> None \<and> db s' = db s)"
    unfolding redis_server_def redis_sets_def by blast
  with assms(2) show ?thesis by (metis agent_records_announce)
qed

lemma redis_forget_step:
  assumes "redis_server R db clock" and "agent_records d0 (db s) r" and "redis_forget R c s = (e, s')"
  shows "clock s \<le> clock s' \<and> (agent_records d0 (db s') (in_memory_forget c r) \<or> e \<noteq> None \<and> agent_records d0 (db s') r)"
proof -
  from assms(3) obtain e' where "rc_del R (key_prefix @ c) s = (e', s')" "e = None \<longleftrightarrow> e' = None"
    by (auto simp: redis_forget_def map_err_def split: prod.splits)
  with assms(1) have "clock s \<le> clock s' \<and> (db s' = (db s)(key_prefix @ c := None) \<or> e \<noteq> None \<and> db s' = db s)"
    unfolding redis_server_def redis_dels_def by blast
  with assms(2) show ?thesis by (metis agent_records_forget)
qed

lemma redis_lookup_step:
  assumes "redis_server R db clock" and "agent_records d0 (db s) r" and "redis_lookup R c s = (a, s')"
  shows "clock s \<le> clock s' \<and> (\<exists>r'. dir_step dir_effect (clock s) (clock s') (Lookup c) (Found a) r r' \<and> agent_records d0 (db s') r')"
proof -
  obtain g where g: "rc_get R (key_prefix @ c) s = (g, s')"
    using assms(3) by (auto simp: redis_lookup_def split: prod.splits sum.splits)
  with assms(1) have k: "clock s \<le> clock s'" "db s' = db s"
    and v: "\<And>v. g = Inr v \<Longrightarrow> \<exists>t. clock s \<le> t \<and> t \<le> clock s' \<and> v = key_live t (db s (key_prefix @ c))"
    unfolding redis_server_def redis_gets_def by blast+
  have "dir_step dir_effect (clock s) (clock s') (Lookup c) (Found a) r r"
  proof (cases g)
    case (Inl e)
    with g assms(3) show ?thesis by (auto simp: redis_lookup_def intro: dir_step.lookup_failed)
  next
    case (Inr v)
    from v [OF Inr] obtain t where t: "clock s \<le> t" "t \<le> clock s'" "v = in_memory_lookup c t r"
      by (auto simp: agent_records_lookup [OF assms(2)])
    from g Inr assms(3) have "a = Inr v" by (auto simp: redis_lookup_def)
    with t show ?thesis by (auto intro: dir_step.lookup)
  qed
  with k assms(2) show ?thesis by auto
qed

lemma key_prefix_plain: "plain_glob key_prefix"
  by (simp add: plain_glob_def key_prefix_def)

lemma redis_list_step:
  assumes "redis_server R db clock" and "agent_records d0 (db s) r" and "redis_list R s = (a, s')"
  shows "clock s \<le> clock s' \<and> (\<exists>r'. dir_step dir_effect (clock s) (clock s') Listing (Listed a) r r' \<and> agent_records d0 (db s') r')"
proof -
  obtain g where g: "rc_scan R (key_prefix @ ''*'') s = (g, s')"
    using assms(3) by (auto simp: redis_list_def split: prod.splits sum.splits)
  with assms(1) key_prefix_plain have k: "clock s \<le> clock s'" "db s' = db s"
    and v: "\<And>ks. g = Inr ks \<Longrightarrow> (\<forall>k \<in> set ks. has_prefix key_prefix k \<and> key_live (clock s) (db s k) \<noteq> None)
        \<and> (\<forall>k. has_prefix key_prefix k \<longrightarrow> key_live (clock s') (db s k) \<noteq> None \<longrightarrow> k \<in> set ks)"
    unfolding redis_server_def redis_scans_def by blast+
  have "dir_step dir_effect (clock s) (clock s') Listing (Listed a) r r"
  proof (cases g)
    case (Inl e)
    with g assms(3) show ?thesis by (auto simp: redis_list_def intro: dir_step.listing_failed)
  next
    case (Inr ks)
    with g assms(3) have a: "a = Inr (map (\<lambda>k. trim_prefix k key_prefix) ks)" by (auto simp: redis_list_def)
    have "c \<in> (\<lambda>k. trim_prefix k key_prefix) ` set ks" if c: "c \<in> set (in_memory_list (clock s') r)" for c
    proof -
      have "key_prefix @ c \<in> set ks" using v [OF Inr] agent_records_list [OF assms(2) c] by simp
      then show ?thesis using trim_key [of c] by (metis imageI)
    qed
    moreover have "in_memory_lookup (trim_prefix k key_prefix) (clock s) r \<noteq> None" if "k \<in> set ks" for k
    proof -
      from that v [OF Inr] obtain c where "k = key_prefix @ c" "key_live (clock s) (db s k) \<noteq> None"
        by (auto simp: has_prefix_iff)
      then show ?thesis by (simp only: trim_key agent_records_lookup [OF assms(2)] not_False_eq_True)
    qed
    ultimately show ?thesis unfolding a by (intro dir_step.listing) auto
  qed
  with k assms(2) show ?thesis by auto
qed

lemma redis_service:
  assumes "redis_server R db clock"
  shows "directory_service (redis_ops R) clock (\<lambda>s. agent_records d0 (db s)) (redis_live db clock)"
proof
  show "agent_records d0 (db s) r \<Longrightarrow> in_memory_lookup c (clock s) r = redis_live db clock s c" for s r c
    by (simp add: agent_records_lookup redis_live_def)
next
  fix p r a and s s' :: 'a
  assume p: "well_timed p" and r: "agent_records d0 (db s) r" and c: "dir_call (redis_ops R) p s = (a, s')"
  let ?goal = "clock s \<le> clock s' \<and> (\<exists>r'. dir_step dir_effect (clock s) (clock s') p a r r' \<and> agent_records d0 (db s') r')"
  have update: ?goal if "updates p" "a = Done e" and "clock s \<le> clock s' \<and>
      ((\<exists>t. clock s \<le> t \<and> t \<le> clock s' \<and> agent_records d0 (db s') (dir_effect p t r)) \<or> e \<noteq> None \<and> agent_records d0 (db s') r)" for e
    using that update_step [of p "clock s" "clock s'" "agent_records d0 (db s')" r e] by blast
  show ?goal
  proof (cases p)
    case (Announce d addr ttl)
    from c Announce obtain e where e: "redis_announce R d addr ttl s = (e, s')" "a = Done e"
      by (cases "redis_announce R d addr ttl s") (simp add: redis_ops_def)
    show ?thesis using redis_announce_step [OF assms r _ e(1)] p Announce
      by (intro update [OF _ e(2)]) (simp_all add: updates_def well_timed_def)
  next
    case (Heartbeat d addr ttl)
    from c Heartbeat obtain e where e: "redis_announce R d addr ttl s = (e, s')" "a = Done e"
      by (cases "redis_announce R d addr ttl s") (simp add: redis_ops_def redis_heartbeat_def)
    show ?thesis using redis_announce_step [OF assms r _ e(1)] p Heartbeat
      by (intro update [OF _ e(2)]) (simp_all add: updates_def well_timed_def in_memory_heartbeat_def)
  next
    case (Forget d)
    from c Forget obtain e where e: "redis_forget R d s = (e, s')" "a = Done e"
      by (cases "redis_forget R d s") (simp add: redis_ops_def)
    show ?thesis using redis_forget_step [OF assms r e(1)] Forget
      by (intro update [OF _ e(2)]) (auto simp: updates_def)
  next
    case (Lookup d)
    from c Lookup obtain g where g: "redis_lookup R d s = (g, s')" "a = Found g"
      by (cases "redis_lookup R d s") (simp add: redis_ops_def)
    show ?thesis using redis_lookup_step [OF assms r g(1)] by (simp only: Lookup g(2))
  next
    case Listing
    from c Listing obtain g where g: "redis_list R s = (g, s')" "a = Listed g"
      by (cases "redis_list R s") (simp add: redis_ops_def)
    show ?thesis using redis_list_step [OF assms r g(1)] by (simp only: Listing g(2))
  qed
qed

section \<open>What a run promises\<close>

text \<open>Whoever keeps the contract: the address of a record after a run was that of the record before it, or a call of
  the run announced it for that cluster, and the record's time is at most the old one or the call's TTL after the run.\<close>

definition announces :: "dir_op \<Rightarrow> string \<Rightarrow> string \<Rightarrow> bool" where
  "announces p c addr \<longleftrightarrow> (\<exists>ttl. p = Announce c addr ttl \<or> p = Heartbeat c addr ttl)"

definition address_of :: "in_memory \<Rightarrow> string \<rightharpoonup> string" where
  "address_of r c = map_option im_addr (map_of r c)"

lemma promise_origin:
  assumes "address_of (dir_promise p t r) c = Some addr"
  shows "address_of r c = Some addr \<or> announces p c addr"
  using assms
  by (cases p) (auto simp: address_of_def refreshed_def in_memory_lookup_def in_memory_announce_def in_memory_forget_def
      update_conv' delete_conv' announces_def split: if_splits option.splits)

lemma promise_step_origin:
  assumes "dir_step dir_promise t0 t1 p a r r'" and "address_of r' c = Some addr"
  shows "address_of r c = Some addr \<or> announces p c addr"
  using assms by cases (auto dest: promise_origin)

lemma promise_runs_origin:
  assumes "dir_runs dir_promise t0 t1 ps as r r'" and "address_of r' c = Some addr"
  shows "address_of r c = Some addr \<or> (\<exists>p \<in> set ps. announces p c addr)"
  using assms
proof (induction rule: dir_runs.induct)
  case (some t0 t1 p a r r' t2 ps as r'')
  then show ?case using promise_step_origin [OF some.hyps(2)] by fastforce
qed simp

text \<open>Against registry.go, both implementations let a heartbeat replace the address of a live record.\<close>

lemma heartbeat_overwrites:
  assumes "in_memory_lookup c t r = Some held" and "0 \<le> ttl"
  shows "in_memory_lookup c t (in_memory_heartbeat c addr ttl t r) = Some addr"
    and "in_memory_lookup c t (refreshed c addr ttl t r) = Some held"
  using assms by (simp_all add: in_memory_heartbeat_def refreshed_def in_memory_lookup_def in_memory_announce_def update_conv')

section \<open>Properties\<close>

text \<open>C34: over a Redis server that keeps its word, any sequence of the hub's registry calls, failures included, in
  which a heartbeat finds no live record or one with its own address, is one that registry.go allows on the records
  InMemory keeps, at the times of the calls: there a heartbeat refreshes a live record without changing its
  address, and announces where there is none. Keys that are not the hub's stay as they were; and an address that
  is found afterwards was there before or was announced in between.\<close>

theorem redis_keeps_directory:
  assumes "redis_server R db clock" and "list_all well_timed ps" and "agent_records (db s) (db s) r"
    and "own_renewals (redis_ops R) (redis_live db clock) ps s"
    and "dir_calls (redis_ops R) ps s = (as, s')"
  shows "\<exists>r'. dir_runs dir_promise (clock s) (clock s') ps as r r' \<and> agent_records (db s) (db s') r'
    \<and> (\<forall>c addr s''. redis_lookup R c s' = (Inr (Some addr), s'') \<longrightarrow>
         address_of r c = Some addr \<or> (\<exists>p \<in> set ps. announces p c addr))"
proof -
  from directory_service.runs [OF redis_service [OF assms(1)] assms(2,4,3,5)] obtain r'
    where run: "dir_runs dir_promise (clock s) (clock s') ps as r r'" and r': "agent_records (db s) (db s') r'" by blast
  have "address_of r c = Some addr \<or> (\<exists>p \<in> set ps. announces p c addr)"
    if found: "redis_lookup R c s' = (Inr (Some addr), s'')" for c addr s''
  proof -
    from redis_lookup_step [OF assms(1) r' found] obtain t where "in_memory_lookup c t r' = Some addr"
      by (auto elim!: dir_step_lookupE)
    then have "address_of r' c = Some addr"
      by (auto simp: address_of_def in_memory_lookup_def split: option.splits if_splits)
    with promise_runs_origin [OF run] show ?thesis by blast
  qed
  with run r' show ?thesis by blast
qed

text \<open>A server with a standing clock and a key of somebody else.\<close>

definition plain_redis :: "((string \<times> string \<times> int) list \<times> int) redis_client" where
  "plain_redis =
    \<lparr>rc_set = (\<lambda>k v ttl (d, now). (None, (AList.update k (v, now + ttl) d, now))),
     rc_get = (\<lambda>k (d, now). (Inr (key_live now (map_of d k)), (d, now))),
     rc_del = (\<lambda>k (d, now). (None, (AList.delete k d, now))),
     rc_scan = (\<lambda>pat (d, now). (Inr (filter (\<lambda>k. has_prefix (butlast pat) k \<and> key_live now (map_of d k) \<noteq> None)
       (map fst d)), (d, now)))\<rparr>"

lemma plain_redis_server: "redis_server plain_redis (\<lambda>s. map_of (fst s)) snd"
proof -
  have "k \<in> fst ` set d" if "key_live t (map_of d k) \<noteq> None" for k t and d :: "(string \<times> string \<times> int) list"
    using that by (metis key_live_def map_of_eq_None_iff option.simps(4))
  then show ?thesis
    by (auto simp: redis_server_def redis_sets_def redis_dels_def redis_gets_def redis_scans_def plain_redis_def
        update_conv' delete_conv')
qed

theorem redis_keeps_directory_witness:
  "\<exists>r'. dir_runs dir_promise 0 0 [Announce ''c1'' ''a:1'' 30000000000, Heartbeat ''c1'' ''a:1'' 60000000000, Forget ''c2'', Listing]
      [Done None, Done None, Done None, Listed (Inr [''c1''])] [] r'
    \<and> map_of r' ''c1'' = Some \<lparr>im_addr = ''a:1'', im_expires = 60000000000\<rparr>"
proof -
  let ?s = "([(''other'', ''x'', 0 :: int)], 0 :: int)"
  let ?ps = "[Announce ''c1'' ''a:1'' 30000000000, Heartbeat ''c1'' ''a:1'' 60000000000, Forget ''c2'', Listing]"
  let ?as = "[Done None, Done None, Done None, Listed (Inr [''c1''])]"
  let ?s' = "([(''other'', ''x'', 0 :: int), (''k8sts:agent:c1'', ''a:1'', 60000000000)], 0 :: int)"
  note ops = redis_ops_def redis_announce_def redis_heartbeat_def redis_forget_def redis_list_def map_err_def plain_redis_def
    key_prefix_def trim_prefix_def key_live_def
  have calls: "dir_calls (redis_ops plain_redis) ?ps ?s = (?as, ?s')" by (simp add: ops)
  have timed: "list_all well_timed ?ps" by (simp add: well_timed_def lasting_def)
  have own: "own_renewals (redis_ops plain_redis) (redis_live (\<lambda>s. map_of (fst s)) snd) ?ps ?s"
    by (simp add: own_renewal_def redis_live_def ops)
  have "agent_records (map_of (fst ?s)) (map_of (fst ?s)) []"
    by (simp add: agent_records_def key_prefix_def)
  from redis_keeps_directory [OF plain_redis_server timed this own calls] obtain r'
    where run: "dir_runs dir_promise (snd ?s) (snd ?s') ?ps ?as [] r'"
      and r': "agent_records (map_of (fst ?s)) (map_of (fst ?s')) r'"
    by blast
  from r' have "map_of r' ''c1'' = Some \<lparr>im_addr = ''a:1'', im_expires = 60000000000\<rparr>"
    by (simp add: agent_records_def key_prefix_def)
  with run show ?thesis by (simp only: snd_conv) blast
qed

end
