(* ===== verification/FleetFaults.thy ===== *)
theory FleetFaults imports Fleet Directory begin

text \<open>
  Replicas whose calls of the registry may fail. \<open>register\<close>, \<open>heartbeatLoop\<close> and \<open>unregister\<close>
  (internal/transport/server.go) only log the error of a call and go on, so the change of the sessions is that
  of theory Fleet and the registry is as before. Replicas may die and sessions of a cluster may overlap. What
  is left then is what redis.go promises of its keys' TTL: a stale record is gone within one TTL. That a
  registry with the contract of theory Directory, Redis for one, does no more than these events is
  \<open>registry_heard_or_unheard\<close>.
\<close>

section \<open>Events\<close>

datatype fleet_event =
    Hello string string
  | Ended string "nat \<times> string"
  | Tick string "nat \<times> string"
  | Pass int
  | Crash string

fun after_event :: "int \<Rightarrow> fleet_event \<Rightarrow> fleet \<Rightarrow> fleet" where
  "after_event ttl (Hello a cid) F = fleet_hello ttl a cid F"
| "after_event ttl (Ended a s) F = fleet_end ttl a s F"
| "after_event ttl (Tick a b) F = fleet_tick ttl a (snd b) F"
| "after_event ttl (Pass d) F = fleet_pass d F"
| "after_event ttl (Crash a) F = fleet_crash a F"

fun fleet_can :: "fleet_event \<Rightarrow> fleet \<Rightarrow> bool" where
  "fleet_can (Hello a cid) F = (cid \<noteq> [])"
| "fleet_can (Ended a s) F = (s \<in> set (sv_live (fl_servers F a)))"
| "fleet_can (Tick a b) F = (b \<in> set (sv_beating (fl_servers F a)))"
| "fleet_can (Pass d) F = (0 \<le> d)"
| "fleet_can (Crash a) F = True"

text \<open>The event's call of the registry does not get through.\<close>

definition fleet_unheard :: "int \<Rightarrow> fleet_event \<Rightarrow> fleet \<Rightarrow> fleet" where
  "fleet_unheard ttl e F = (after_event ttl e F)\<lparr>fl_records := fl_records F\<rparr>"

inductive fleet_run :: "int \<Rightarrow> fleet_event list \<Rightarrow> fleet \<Rightarrow> fleet \<Rightarrow> bool" for ttl where
  none: "fleet_run ttl [] F F"
| heard: "fleet_can e F \<Longrightarrow> fleet_run ttl es (after_event ttl e F) F' \<Longrightarrow> fleet_run ttl (e # es) F F'"
| unheard: "fleet_can e F \<Longrightarrow> fleet_run ttl es (fleet_unheard ttl e F) F' \<Longrightarrow> fleet_run ttl (e # es) F F'"

section \<open>Lemmas\<close>

text \<open>What an event does to the records, the clock and the heartbeats of a replica.\<close>

lemma event_records:
  "fl_records (after_event ttl (Hello a cid) F)
     = in_memory_announce cid a (server_ttl (replica_config ttl a)) (fl_now F) (fl_records F)"
  "fl_records (after_event ttl (Ended a s) F) = in_memory_forget (snd s) (fl_records F)"
  "fl_records (after_event ttl (Tick a b) F)
     = in_memory_announce (snd b) a (server_ttl (replica_config ttl a)) (fl_now F) (fl_records F)"
  "fl_records (after_event ttl (Pass d) F) = fl_records F"
  "fl_records (after_event ttl (Crash a) F) = fl_records F"
  by (simp_all add: fleet_hello_def fleet_end_def fleet_tick_def fleet_pass_def fleet_crash_def on_replica_def
      session_hello_def session_end_def server_register_def server_unregister_def server_heartbeat_def
      in_memory_heartbeat_def replica_config_def Let_def)

lemma event_now:
  "fleet_can e F \<Longrightarrow> fl_now F \<le> fl_now (after_event ttl e F)" "fl_now (fleet_unheard ttl e F) = fl_now (after_event ttl e F)"
  by (cases e; simp add: fleet_hello_def fleet_end_def fleet_tick_def fleet_pass_def fleet_crash_def on_replica_def
      Let_def) (simp add: fleet_unheard_def)

lemma event_beating:
  "set (sv_beating (fl_servers (after_event ttl e F) a)) \<subseteq>
     set (sv_beating (fl_servers F a)) \<union> (case e of Hello b cid \<Rightarrow> if b = a then UNIV \<times> {cid} else {} | _ \<Rightarrow> {})"
  by (cases e) (auto simp: fleet_hello_def fleet_end_def fleet_tick_def fleet_pass_def fleet_crash_def on_replica_def
      session_hello_def session_end_def server_register_def server_unregister_def server_heartbeat_def Let_def
      new_server_def split: option.splits if_splits)

declare after_event.simps [simp del]

lemma unheard_servers: "fl_servers (fleet_unheard ttl e F) = fl_servers (after_event ttl e F)"
  by (simp add: fleet_unheard_def)

text \<open>
  The registry calls of the events, and that these are all a registry with the contract of theory Directory
  can do: whatever it answers at the time of the event, its records are those of the event or those before it.
\<close>

fun event_call :: "int \<Rightarrow> fleet_event \<Rightarrow> dir_op option" where
  "event_call ttl (Hello a cid) = Some (Announce cid a (server_ttl (replica_config ttl a)))"
| "event_call ttl (Ended a s) = Some (Forget (snd s))"
| "event_call ttl (Tick a b) = Some (Heartbeat (snd b) a (server_ttl (replica_config ttl a)))"
| "event_call ttl (Pass d) = None"
| "event_call ttl (Crash a) = None"

lemma registry_heard_or_unheard:
  assumes "event_call ttl e = Some p" and "dir_step dir_effect (fl_now F) (fl_now F) p answer (fl_records F) r"
  shows "r = fl_records (after_event ttl e F) \<or> r = fl_records (fleet_unheard ttl e F)"
proof -
  have "r = dir_effect p (fl_now F) (fl_records F) \<or> r = fl_records F"
    using assms(2) by (cases rule: dir_step.cases) auto
  moreover have "dir_effect p (fl_now F) (fl_records F) = fl_records (after_event ttl e F)"
    using assms(1) by (cases e) (auto simp: event_records in_memory_heartbeat_def)
  ultimately show ?thesis by (simp add: fleet_unheard_def)
qed

text \<open>
  \<open>silent a cid t F\<close>: replica \<open>a\<close> has no heartbeat for \<open>cid\<close>, and a record that names it ends by \<open>t\<close>. In any
  state a record lives at most a TTL from now.
\<close>

definition silent :: "string \<Rightarrow> string \<Rightarrow> int \<Rightarrow> fleet \<Rightarrow> bool" where
  "silent a cid t F \<longleftrightarrow> (\<forall>b \<in> set (sv_beating (fl_servers F a)). snd b \<noteq> cid)
     \<and> (\<forall>rec. map_of (fl_records F) cid = Some rec \<longrightarrow> im_addr rec = a \<longrightarrow> im_expires rec \<le> t)"

definition records_end :: "int \<Rightarrow> fleet \<Rightarrow> bool" where
  "records_end ttl F \<longleftrightarrow> (\<forall>cid rec. map_of (fl_records F) cid = Some rec \<longrightarrow>
     im_expires rec \<le> fl_now F + server_ttl (replica_config ttl (im_addr rec)))"

lemma replica_ttl: "server_ttl (replica_config ttl a) = server_ttl (replica_config ttl b)"
  by (simp add: server_ttl_def replica_config_def)

lemma records_end_event:
  assumes "records_end ttl F" and "fleet_can e F"
  shows "records_end ttl (after_event ttl e F)" and "records_end ttl (fleet_unheard ttl e F)"
proof -
  have now: "fl_now F \<le> fl_now (after_event ttl e F)" using assms(2) by (rule event_now)
  have old: "map_of (fl_records F) cid = Some rec \<Longrightarrow>
      im_expires rec \<le> fl_now (after_event ttl e F) + server_ttl (replica_config ttl (im_addr rec))" for cid rec
    using assms(1) now unfolding records_end_def by fastforce
  then show "records_end ttl (fleet_unheard ttl e F)"
    unfolding records_end_def event_now(2) by (simp add: fleet_unheard_def)
  have announced: "map_of (in_memory_announce c a (server_ttl (replica_config ttl a)) (fl_now F) (fl_records F)) cid = Some rec \<Longrightarrow>
      im_expires rec \<le> fl_now (after_event ttl e F) + server_ttl (replica_config ttl (im_addr rec))" for c a cid rec
    using old [of cid rec] now by (auto simp: in_memory_announce_def update_conv' split: if_splits)
  have forgotten: "map_of (in_memory_forget c (fl_records F)) cid = Some rec \<Longrightarrow>
      im_expires rec \<le> fl_now (after_event ttl e F) + server_ttl (replica_config ttl (im_addr rec))" for c cid rec
    using old [of cid rec] by (auto simp: in_memory_forget_def delete_conv' split: if_splits)
  show "records_end ttl (after_event ttl e F)"
    unfolding records_end_def using old announced forgotten by (cases e) (simp_all only: event_records, blast+)
qed

lemma silent_event:
  assumes "silent a cid t F" and "fleet_can e F" and "e \<noteq> Hello a cid"
  shows "silent a cid t (after_event ttl e F)" and "silent a cid t (fleet_unheard ttl e F)"
proof -
  have beats: "\<forall>b \<in> set (sv_beating (fl_servers (after_event ttl e F) a)). snd b \<noteq> cid"
    using event_beating [of ttl e F a] assms(1,3) by (fastforce simp: silent_def split: fleet_event.splits if_splits)
  have old: "map_of (fl_records F) cid = Some rec \<Longrightarrow> im_addr rec = a \<Longrightarrow> im_expires rec \<le> t" for rec
    using assms(1) by (simp add: silent_def)
  with beats show "silent a cid t (fleet_unheard ttl e F)"
    unfolding silent_def unheard_servers by (simp add: fleet_unheard_def)
  have "im_expires rec \<le> t" if "map_of (fl_records (after_event ttl e F)) cid = Some rec" "im_addr rec = a" for rec
  proof (cases e)
    case (Hello b d)
    with that assms(3) old show ?thesis
      by (auto simp: event_records in_memory_announce_def update_conv' split: if_splits)
  next
    case (Ended b s)
    with that old show ?thesis by (auto simp: event_records in_memory_forget_def delete_conv' split: if_splits)
  next
    case (Tick b s)
    with assms(1,2) have "b \<noteq> a \<or> snd s \<noteq> cid" by (auto simp: silent_def)
    with that Tick old show ?thesis
      by (auto simp: event_records in_memory_announce_def update_conv' split: if_splits)
  qed (use that old in \<open>simp_all add: event_records\<close>)
  with beats show "silent a cid t (after_event ttl e F)" by (simp add: silent_def)
qed

lemma records_end_run: "fleet_run ttl es F F' \<Longrightarrow> records_end ttl F \<Longrightarrow> records_end ttl F'"
  by (induction rule: fleet_run.induct) (simp_all add: records_end_event)

lemma silent_run: "fleet_run ttl es F F' \<Longrightarrow> Hello a cid \<notin> set es \<Longrightarrow> silent a cid t F \<Longrightarrow> silent a cid t F'"
  by (induction rule: fleet_run.induct) (auto simp: silent_event)

lemma records_end_start: "records_end ttl new_fleet"
  by (simp add: records_end_def new_fleet_def)

section \<open>Properties\<close>

text \<open>C38: whatever else happens, and whichever calls of the registry fail, a replica that no longer beats for a
  cluster is out of the registry for it one TTL later, unless the cluster's agent connects to it again. So
  it is with one that dies, and with one whose \<open>Forget\<close> failed when its last session of the cluster ended.\<close>

theorem stale_record_expires:
  assumes "fleet_run ttl es0 new_fleet F" and "\<forall>b \<in> set (sv_beating (fl_servers F a)). snd b \<noteq> cid"
    and "fleet_run ttl es F F'" and "Hello a cid \<notin> set es"
    and "fl_now F + server_ttl (replica_config ttl a) < fl_now F'"
  shows "fleet_lookup cid F' \<noteq> Some a"
proof
  assume "fleet_lookup cid F' = Some a"
  then obtain rec where rec: "map_of (fl_records F') cid = Some rec" "im_addr rec = a" "\<not> fl_now F' > im_expires rec"
    by (auto simp: fleet_lookup_def in_memory_lookup_def split: option.splits if_splits)
  have "records_end ttl F" using assms(1) records_end_start by (rule records_end_run)
  then have "silent a cid (fl_now F + server_ttl (replica_config ttl a)) F"
    using assms(2) unfolding silent_def records_end_def by blast
  from silent_run [OF assms(3,4) this] rec assms(5) show False by (simp add: silent_def)
qed

text \<open>An agent moves from one replica to another while the first does not reach the registry to forget it.\<close>

theorem stale_record_expires_witness:
  "\<exists>F F'. fleet_lookup ''c1'' F = Some ''a'' \<and> fleet_lookup ''c1'' F' \<noteq> Some ''a'' \<and> held F' ''b'' = {''c1''}"
proof -
  let ?moved = "[Hello ''a'' ''c1'', Ended ''a'' (0, ''c1'')]" and ?es = "[Hello ''b'' ''c1'', Pass 31]"
  let ?Fa = "after_event 30 (Hello ''a'' ''c1'') new_fleet"
  let ?Fb = "fleet_unheard 30 (Ended ''a'' (0, ''c1'')) ?Fa"
  let ?Fc = "fleet_unheard 30 (Hello ''b'' ''c1'') ?Fb"
  let ?Fd = "after_event 30 (Pass 31) ?Fc"
  note sim = after_event.simps fleet_unheard_def fleet_hello_def fleet_end_def fleet_pass_def on_replica_def
    session_hello_def session_end_def server_register_def server_unregister_def replica_config_def new_fleet_def
    new_server_def Let_def server_ttl_def held_def
  have r: "fleet_run 30 ?moved new_fleet ?Fb"
    by (rule fleet_run.heard, simp, rule fleet_run.unheard, simp add: sim, rule fleet_run.none)
  have r': "fleet_run 30 ?es ?Fb ?Fd"
    by (rule fleet_run.unheard, simp, rule fleet_run.heard, simp, rule fleet_run.none)
  have s: "\<forall>b \<in> set (sv_beating (fl_servers ?Fb ''a'')). snd b \<noteq> ''c1''" by (simp add: sim)
  have n: "fl_now ?Fb + server_ttl (replica_config 30 ''a'') < fl_now ?Fd" by (simp add: sim)
  have "Hello ''a'' ''c1'' \<notin> set ?es" by simp
  from stale_record_expires [OF r s r' this n] have "fleet_lookup ''c1'' ?Fd \<noteq> Some ''a''" .
  moreover have "fleet_lookup ''c1'' ?Fb = Some ''a''"
    by (simp add: sim fleet_lookup_def in_memory_announce_def in_memory_lookup_def)
  moreover have "held ?Fd ''b'' = {''c1''}" by (simp add: sim)
  ultimately show ?thesis by blast
qed

end
