(* ===== verification/RunbookFormat.thy ===== *)
theory RunbookFormat imports Runbooks begin

text \<open>
  The format of internal/runbooks' documents, as docs/runbooks/kubernetes-errors.md explains it, against the
  parser of runbooks.go: a document written from entries is read back as these entries. \<open>document\<close> writes a
  preamble, then each entry as a heading, its four metadata lines, a blank line, its body and the separator.
\<close>

section \<open>Trimming\<close>

text \<open>A string that neither starts nor ends with white space.\<close>

definition trimmed :: "string \<Rightarrow> bool" where
  "trimmed s \<longleftrightarrow> space_len wide_spaces s = 0 \<and> space_len (map rev wide_spaces) (rev s) = 0"

text \<open>A character of no wide space ends any prefix that is one.\<close>

definition narrow :: "char \<Rightarrow> bool" where
  "narrow c = list_all (\<lambda>w. c \<notin> set w) wide_spaces"

lemma narrow_ascii: "narrow CHR 0x0A" "narrow CHR '' ''" "narrow CHR '':''" "narrow CHR '',''" "narrow CHR ''-''"
  by (simp_all add: narrow_def wide_spaces_def)

lemma prefix_before: "c \<notin> set w \<Longrightarrow> has_prefix w (s @ c # t) = has_prefix w s"
  by (induction w s rule: has_prefix.induct) auto

lemma find_same: "(\<And>x. x \<in> set xs \<Longrightarrow> P x = Q x) \<Longrightarrow> find P xs = find Q xs"
  by (induction xs) auto

lemma space_len_before:
  assumes "s \<noteq> []" and "\<And>w. w \<in> set ws \<Longrightarrow> c \<notin> set w"
  shows "space_len ws (s @ c # t) = space_len ws s"
proof -
  obtain x s' where s: "s = x # s'" using assms(1) by (cases s) auto
  have "find (\<lambda>w. has_prefix w (s @ c # t)) ws = find (\<lambda>w. has_prefix w s) ws"
    using assms(2) by (intro find_same prefix_before)
  then show ?thesis unfolding s by simp
qed

lemma space_len_narrow:
  assumes "narrow c" and "s \<noteq> []"
  shows "space_len wide_spaces (s @ c # t) = space_len wide_spaces s"
    "space_len (map rev wide_spaces) (s @ c # t) = space_len (map rev wide_spaces) s"
  by (rule space_len_before; use assms in \<open>auto simp: narrow_def list_all_iff\<close>)+

lemma trim_start_stop: "space_len ws s = 0 \<Longrightarrow> trim_start ws s = s"
  by (subst trim_start.simps) simp

lemma trim_start_spaces: "list_all ascii_space u \<Longrightarrow> trim_start ws (u @ s) = trim_start ws s"
proof (induction u)
  case Nil
  then show ?case by simp
next
  case (Cons x u)
  then show ?case by (subst trim_start.simps) simp
qed

lemma ascii_space_narrow: "ascii_space c \<Longrightarrow> narrow c"
  by (auto simp: ascii_space_def narrow_def wide_spaces_def)

lemma trim_space_pad:
  assumes "trimmed s" and "list_all ascii_space u" and "list_all ascii_space v"
  shows "trim_space (u @ s @ v) = s"
proof -
  have l: "trim_left (u @ s @ v) = (if s = [] then [] else s @ v)"
  proof (cases "s = []")
    case True
    then show ?thesis using trim_start_spaces [of "u @ v" wide_spaces "[]"] assms(2,3)
      by (simp add: trim_left_def trim_start_stop)
  next
    case False
    have "space_len wide_spaces (s @ v) = 0"
    proof (cases v)
      case Nil
      then show ?thesis using assms(1) by (simp add: trimmed_def)
    next
      case (Cons c v')
      then have "narrow c" using assms(3) by (auto intro: ascii_space_narrow)
      from space_len_narrow(1) [OF this False] show ?thesis using assms(1) Cons by (simp add: trimmed_def)
    qed
    then show ?thesis using False trim_start_spaces [OF assms(2)] by (simp add: trim_left_def trim_start_stop)
  qed
  have "trim_start (map rev wide_spaces) (rev v @ rev s) = rev s"
    using trim_start_spaces [of "rev v"] assms(1,3) by (simp add: trimmed_def trim_start_stop)
  with l show ?thesis by (simp add: trim_space_def trim_right_def trim_start_stop)
qed

lemma trim_space_trimmed: "trimmed s \<Longrightarrow> trim_space s = s"
  using trim_space_pad [of s "[]" "[]"] by simp

lemma trimmed_nil [simp]: "trimmed []"
  by (simp add: trimmed_def)

text \<open>Two trimmed strings put together with a narrow character between them, or at the end of the first, are trimmed.\<close>

lemma trimmed_around:
  assumes "trimmed a" and "trimmed b" and "a \<noteq> []" and "b \<noteq> []" and "narrow c" and "narrow d"
  shows "trimmed (a @ c # m @ d # b)" "trimmed (a @ c # b)"
proof -
  have "space_len (map rev wide_spaces) (rev b @ d # rev m @ c # rev a) = 0"
    "space_len (map rev wide_spaces) (rev b @ c # rev a) = 0"
    using assms by (simp_all add: space_len_narrow trimmed_def)
  then show "trimmed (a @ c # m @ d # b)" "trimmed (a @ c # b)"
    using assms by (simp_all add: space_len_narrow trimmed_def)
qed

section \<open>Splitting\<close>

text \<open>A separator whose first character does not come again in it never overlaps what it separates.\<close>

lemma str_cut_here:
  assumes "c \<notin> set r"
  shows "\<not> contains (c # r) a \<Longrightarrow> str_cut (c # r) (a @ c # r @ b) = Some (a, b)"
proof (induction a)
  case Nil
  then show ?case by simp
next
  case (Cons x a)
  have "\<not> has_prefix (c # r) (x # a)" using Cons.prems contains_prefix by blast
  then have "\<not> has_prefix (c # r) (x # a @ c # r @ b)" using prefix_before [OF assms, of a "r @ b"] by auto
  with Cons show ?case by simp
qed

lemma str_split_join:
  assumes "c \<notin> set r"
  shows "xs \<noteq> [] \<Longrightarrow> \<forall>x \<in> set xs. \<not> contains (c # r) x \<Longrightarrow> str_split (c # r) (str_join (c # r) xs) = xs"
proof (induction xs)
  case Nil
  then show ?case by simp
next
  case (Cons x xs)
  show ?case
  proof (cases "xs = []")
    case True
    with Cons.prems have "str_cut (c # r) x = None" by (simp add: str_cut_None)
    with True show ?thesis by (subst str_split.simps) simp
  next
    case False
    have "str_cut (c # r) (x @ c # r @ str_join (c # r) xs) = Some (x, str_join (c # r) xs)"
      using str_cut_here [OF assms] Cons.prems by simp
    with Cons False show ?thesis by (subst str_split.simps) (simp add: str_join_Cons)
  qed
qed

lemma contains_char: "contains [c] s \<longleftrightarrow> c \<in> set s"
  by (induction s) auto

text \<open>Where a heading starts in lines that are joined, a line but the first starts with its mark.\<close>

lemma heading_in_lines:
  assumes "\<forall>l \<in> set ls. CHR 0x0A \<notin> set l" and "\<forall>l \<in> set (tl ls). \<not> has_prefix ''## '' l"
  shows "\<not> contains heading (str_join newline ls)"
  using assms
proof (induction ls)
  case Nil
  then show ?case by (simp add: heading_def newline_def)
next
  case (Cons l ls)
  have one: "\<not> contains heading l" if "CHR 0x0A \<notin> set l" for l
    using that by (induction l) (auto simp: heading_def newline_def)
  have two: "\<not> contains heading (l @ CHR 0x0A # t)"
    if "CHR 0x0A \<notin> set l" "\<not> contains heading t" "\<not> has_prefix ''## '' t" for l t
    using that
  proof (induction l)
    case Nil
    then show ?case by (simp add: heading_def newline_def)
  next
    case (Cons x l)
    then show ?case by (auto simp: heading_def newline_def)
  qed
  show ?case
  proof (cases ls)
    case Nil
    with Cons.prems one show ?thesis by simp
  next
    case (Cons l' ls')
    have "\<not> has_prefix ''## '' (str_join newline ls)"
    proof (cases ls')
      case Nil
      with Cons Cons.prems show ?thesis by simp
    next
      case (Cons y ys)
      have "has_prefix ''## '' (l' @ CHR 0x0A # q) = has_prefix ''## '' l'" for q
        by (rule prefix_before) simp
      with Cons \<open>ls = l' # ls'\<close> Cons.prems show ?thesis by (simp add: newline_def)
    qed
    moreover have "\<not> contains heading (str_join newline ls)"
      using Cons.prems Cons by (intro Cons.IH) auto
    ultimately show ?thesis using two [of l "str_join newline ls"] Cons Cons.prems by (simp add: newline_def)
  qed
qed

lemma str_split_lines: "\<forall>l \<in> set (str_split newline s). CHR 0x0A \<notin> set l"
proof (induction newline s rule: str_split.induct)
  case (1 s)
  show ?case
  proof (cases "str_cut newline s")
    case None
    then have "CHR 0x0A \<notin> set s" by (simp add: str_cut_None newline_def contains_char)
    then show ?thesis using None by (subst str_split.simps) simp
  next
    case (Some p)
    obtain a b where p: "p = (a, b)" by (cases p)
    have "CHR 0x0A \<notin> set a" if "str_cut newline s = Some (a, b)" for s a b
      using that by (induction s arbitrary: a) (auto simp: newline_def split: if_splits)
    with Some p 1 show ?thesis by (subst str_split.simps) (auto simp: newline_def)
  qed
qed

section \<open>The format\<close>

definition meta_line :: "string \<Rightarrow> string \<Rightarrow> string" where
  "meta_line key v = key @ '' '' @ v"

definition entry_lines :: "runbook \<Rightarrow> string list" where
  "entry_lines e =
    [rb_title e, meta_line ''kind:'' (rb_kind e), meta_line ''keywords:'' (str_join '', '' (rb_keywords e)),
     meta_line ''log_signatures:'' (str_join '', '' (rb_signatures e)), meta_line ''log_source:'' (rb_source e), []]
    @ str_split newline (rb_body e) @ [[], ''---'', []]"

definition document :: "string \<Rightarrow> runbook list \<Rightarrow> string" where
  "document preamble es = preamble @ concat (map (\<lambda>e. heading @ str_join newline (entry_lines e)) es)"

text \<open>What can be written: values of one line, without commas in lists, a body that does not begin like metadata
  and has no heading in it, and something to look the entry up by.\<close>

definition plain_line :: "string \<Rightarrow> bool" where
  "plain_line s \<longleftrightarrow> CHR 0x0A \<notin> set s \<and> trimmed s"

definition plain_value :: "string \<Rightarrow> bool" where
  "plain_value s \<longleftrightarrow> plain_line s \<and> s \<noteq> [] \<and> CHR '','' \<notin> set s"

definition meta_or_blank :: "string \<Rightarrow> bool" where
  "meta_or_blank l \<longleftrightarrow> trim_space l = []
     \<or> list_ex (\<lambda>k. has_prefix k (trim_space l)) [''kind:'', ''keywords:'', ''log_signatures:'', ''log_source:'']"

definition no_headings :: "string \<Rightarrow> bool" where
  "no_headings s \<longleftrightarrow> list_all (\<lambda>l. \<not> has_prefix ''## '' l) (str_split newline s)"

definition writable :: "runbook \<Rightarrow> bool" where
  "writable e \<longleftrightarrow> plain_line (rb_title e) \<and> plain_line (rb_kind e) \<and> plain_line (rb_source e)
     \<and> list_all plain_value (rb_keywords e) \<and> list_all plain_value (rb_signatures e)
     \<and> rb_body e \<noteq> [] \<and> trimmed (rb_body e) \<and> no_headings (rb_body e)
     \<and> \<not> meta_or_blank (hd (str_split newline (rb_body e))) \<and> lookupable e"

section \<open>Reading it back\<close>

lemma trimmed_keys: "trimmed ''kind:''" "trimmed ''keywords:''" "trimmed ''log_signatures:''" "trimmed ''log_source:''"
  by code_simp+

lemma meta_line_trim:
  assumes "trimmed key" and "key \<noteq> []" and "trimmed v"
  shows "trim_space (meta_line key v) = (if v = [] then key else meta_line key v)"
proof (cases "v = []")
  case True
  then show ?thesis using trim_space_pad [OF assms(1), of "[]" "'' ''"] by (simp add: meta_line_def ascii_space_def)
next
  case False
  with assms narrow_ascii(2) have "trimmed (key @ CHR '' '' # v)" by (intro trimmed_around(2))
  with False show ?thesis by (simp add: meta_line_def trim_space_trimmed)
qed

lemma space_value: "trimmed v \<Longrightarrow> trim_space (CHR '' '' # v) = v"
  using trim_space_pad [of v "'' ''" "[]"] by (simp add: ascii_space_def)

lemma str_join_nil: "list_all plain_value ws \<Longrightarrow> str_join '', '' ws = [] \<longleftrightarrow> ws = []"
proof (cases ws)
  case (Cons w vs)
  then show "list_all plain_value ws \<Longrightarrow> ?thesis" by (cases vs) (auto simp: plain_value_def)
qed simp

lemma trimmed_join: "list_all plain_value ws \<Longrightarrow> trimmed (str_join '', '' ws)"
proof (induction ws)
  case Nil
  then show ?case by simp
next
  case (Cons w ws)
  show ?case
  proof (cases "ws = []")
    case True
    with Cons.prems show ?thesis by (simp add: plain_value_def plain_line_def)
  next
    case False
    with Cons.prems have "str_join '', '' ws \<noteq> []" by (simp add: str_join_nil)
    with Cons have "trimmed (w @ CHR '','' # [] @ CHR '' '' # str_join '', '' ws)"
      by (intro trimmed_around(1)) (simp_all add: plain_value_def plain_line_def narrow_ascii)
    with False show ?thesis by (simp add: str_join_Cons)
  qed
qed

lemma comma_values_join:
  assumes "list_all plain_value ws" and "ws \<noteq> []"
  shows "comma_values (CHR '' '' # str_join '', '' ws) = ws"
proof -
  have "CHR '' '' # str_join '', '' ws = str_join '','' (map ((#) (CHR '' '')) ws)"
    using assms(2)
  proof (induction ws)
    case (Cons w ws)
    then show ?case by (cases "ws = []") (simp_all add: str_join_Cons)
  qed simp
  moreover have "str_split '','' (str_join '','' (map ((#) (CHR '' '')) ws)) = map ((#) (CHR '' '')) ws"
    using assms by (intro str_split_join) (auto simp: contains_char list_all_iff plain_value_def)
  moreover have "map trim_space (map ((#) (CHR '' '')) ws) = ws"
    using assms(1) by (intro nth_equalityI) (auto simp: list_all_length plain_value_def plain_line_def space_value)
  ultimately show ?thesis using assms(1) by (simp add: comma_values_def filter_id_conv list_all_iff plain_value_def)
qed

lemma meta_loop_kind:
  assumes "trimmed v"
  shows "meta_loop e (meta_line ''kind:'' v # ls) = meta_loop (e\<lparr>rb_kind := v\<rparr>) ls"
  using assms meta_line_trim [OF trimmed_keys(1) _ assms] space_value [OF assms] trim_space_trimmed [OF trimmed_nil]
  by (simp add: meta_line_def trim_prefix_def)

lemma meta_loop_source:
  assumes "trimmed v"
  shows "meta_loop e (meta_line ''log_source:'' v # ls) = meta_loop (e\<lparr>rb_source := v\<rparr>) ls"
  using assms meta_line_trim [OF trimmed_keys(4) _ assms] space_value [OF assms] trim_space_trimmed [OF trimmed_nil]
  by (simp add: meta_line_def trim_prefix_def)

lemma comma_values_nil: "comma_values [] = []"
  by code_simp

lemma meta_loop_lists:
  assumes "list_all plain_value ws"
  shows "meta_loop e (meta_line ''keywords:'' (str_join '', '' ws) # ls)
      = meta_loop (e\<lparr>rb_keywords := rb_keywords e @ ws\<rparr>) ls"
    and "meta_loop e (meta_line ''log_signatures:'' (str_join '', '' ws) # ls)
      = meta_loop (e\<lparr>rb_signatures := rb_signatures e @ ws\<rparr>) ls"
proof -
  note t = trimmed_join [OF assms]
  show "meta_loop e (meta_line ''keywords:'' (str_join '', '' ws) # ls)
      = meta_loop (e\<lparr>rb_keywords := rb_keywords e @ ws\<rparr>) ls"
    using meta_line_trim [OF trimmed_keys(2) _ t] comma_values_join [OF assms] comma_values_nil str_join_nil [OF assms]
    by (cases "ws = []") (simp_all add: meta_line_def trim_prefix_def)
  show "meta_loop e (meta_line ''log_signatures:'' (str_join '', '' ws) # ls)
      = meta_loop (e\<lparr>rb_signatures := rb_signatures e @ ws\<rparr>) ls"
    using meta_line_trim [OF trimmed_keys(3) _ t] comma_values_join [OF assms] comma_values_nil str_join_nil [OF assms]
    by (cases "ws = []") (simp_all add: meta_line_def trim_prefix_def)
qed

lemma meta_loop_body:
  assumes "\<not> meta_or_blank l"
  shows "meta_loop e ([] # l # ls) = (e, l # ls)"
  using assms trim_space_trimmed [OF trimmed_nil] by (simp add: meta_or_blank_def Let_def)

lemma body_of_written:
  assumes "trimmed b" and "b \<noteq> []"
  shows "body_of (str_split newline b @ [[], ''---'', []]) = b"
proof -
  have join: "str_join newline (ls @ [[], ''---'', []]) = str_join newline ls @ newline @ newline @ ''---'' @ newline"
    if "ls \<noteq> []" for ls
    using that by (induction ls rule: str_join.induct [of _ newline]) (auto simp: str_join_Cons)
  have "trimmed (b @ CHR 0x0A # newline @ CHR ''-'' # ''--'')"
  proof -
    have "narrow (CHR ''-'')" "trimmed ''--''" by (simp_all add: narrow_ascii) code_simp
    then show ?thesis using trimmed_around(1) [OF assms(1) _ assms(2) _ narrow_ascii(1), of "''--''" "CHR ''-''" newline]
      by simp
  qed
  then have "trim_space ([] @ (b @ newline @ newline @ ''---'') @ newline) = b @ newline @ newline @ ''---''"
    by (intro trim_space_pad) (simp_all add: newline_def ascii_space_def)
  moreover have "trim_suffix (b @ newline @ newline @ ''---'') ''---'' = b @ newline @ newline"
    by (simp add: trim_suffix_def has_suffix_def)
  moreover have "trim_space ([] @ b @ newline @ newline) = b"
    by (intro trim_space_pad assms(1)) (simp_all add: newline_def ascii_space_def)
  ultimately show ?thesis by (simp add: body_of_def join str_join_split)
qed

lemma entry_lines_plain:
  assumes "writable e"
  shows "\<forall>l \<in> set (entry_lines e). CHR 0x0A \<notin> set l" and "\<forall>l \<in> set (tl (entry_lines e)). \<not> has_prefix ''## '' l"
proof -
  have "CHR 0x0A \<notin> set (str_join '', '' ws)" if "list_all plain_value ws" for ws
    using that
  proof (induction ws)
    case (Cons w ws)
    then show ?case by (cases "ws = []") (auto simp: str_join_Cons plain_value_def plain_line_def)
  qed simp
  with assms show "\<forall>l \<in> set (entry_lines e). CHR 0x0A \<notin> set l"
    by (auto simp: entry_lines_def meta_line_def writable_def plain_line_def str_split_lines)
  show "\<forall>l \<in> set (tl (entry_lines e)). \<not> has_prefix ''## '' l"
    using assms by (auto simp: entry_lines_def meta_line_def writable_def no_headings_def list_all_iff)
qed

lemma parse_written:
  assumes "writable e"
  shows "parse_entry (str_join newline (entry_lines e)) = e"
proof -
  have "str_split newline (str_join newline (entry_lines e)) = entry_lines e"
    using entry_lines_plain(1) [OF assms] str_split_join [of "CHR 0x0A" "[]" "entry_lines e"]
    by (simp add: newline_def contains_char) (simp add: entry_lines_def)
  moreover obtain l ls where body: "str_split newline (rb_body e) = l # ls"
    by (cases "str_split newline (rb_body e)") simp_all
  ultimately show ?thesis
    using assms trim_space_trimmed [of "rb_title e"] body_of_written [of "rb_body e"]
    by (simp add: parse_entry_def entry_lines_def body writable_def plain_line_def meta_loop_kind meta_loop_lists
        meta_loop_source meta_loop_body titled_def del: meta_loop.simps)
qed

lemma preamble_plain:
  assumes "no_headings s"
  shows "\<not> contains heading (newline @ s)"
proof -
  have "newline @ s = str_join newline ([] # str_split newline s)" by (simp add: str_join_Cons str_join_split)
  moreover have "\<not> contains heading (str_join newline ([] # str_split newline s))"
    using assms str_split_lines [of s] by (intro heading_in_lines) (auto simp: no_headings_def list_all_iff)
  ultimately show ?thesis by simp
qed

lemma document_join:
  "newline @ document preamble es
    = str_join heading ((newline @ preamble) # map (\<lambda>e. str_join newline (entry_lines e)) es)"
proof -
  have "x @ concat (map (\<lambda>e. heading @ f e) es) = str_join heading (x # map f es)" for x :: string and f
  proof (induction es arbitrary: x)
    case (Cons e es)
    from Cons.IH [of "f e"] show ?case by (simp add: str_join_Cons)
  qed simp
  from this [of "newline @ preamble"] show ?thesis by (simp add: document_def)
qed

section \<open>Properties\<close>

text \<open>C35: a runbook document in the documented format is read back as exactly the entries it was written from,
  in order, whatever comes before its first heading.\<close>

theorem runbooks_roundtrip:
  assumes "no_headings preamble" and "list_all writable es"
  shows "parse_runbooks (document preamble es) = es"
proof -
  let ?texts = "map (\<lambda>e. str_join newline (entry_lines e)) es"
  have h: "heading = CHR 0x0A # ''## ''" by (simp add: heading_def newline_def)
  have "\<forall>x \<in> set ((newline @ preamble) # ?texts). \<not> contains heading x"
    using preamble_plain [OF assms(1)] assms(2) heading_in_lines entry_lines_plain by (auto simp: list_all_iff)
  then have "str_split heading (newline @ document preamble es) = (newline @ preamble) # ?texts"
    unfolding document_join h by (intro str_split_join) simp_all
  moreover have "map parse_entry ?texts = es"
    using assms(2) by (intro nth_equalityI) (auto simp: list_all_length parse_written)
  moreover have "filter lookupable es = es"
    using assms(2) by (auto simp: filter_id_conv list_all_iff writable_def)
  ultimately show ?thesis by (simp add: parse_runbooks_def)
qed

definition pending_entry :: runbook where
  "pending_entry = \<lparr>rb_title = ''Pod pending'', rb_kind = ''PodPending'', rb_keywords = [''pending'', ''no node fits''],
     rb_body = ''**Diagn**: kubectl describe pod'', rb_signatures = [''FailedScheduling''], rb_source = ''self''\<rparr>"

theorem runbooks_roundtrip_witness:
  "parse_runbooks (document ''# Catalogue'' [pending_entry, pending_entry\<lparr>rb_kind := []\<rparr>])
    = [pending_entry, pending_entry\<lparr>rb_kind := []\<rparr>]"
proof (rule runbooks_roundtrip)
  show "no_headings ''# Catalogue''" by code_simp
  show "list_all writable [pending_entry, pending_entry\<lparr>rb_kind := []\<rparr>]" by code_simp
qed

end
