(* ===== verification/SmokeTest.thy ===== *)
theory SmokeTest imports HubServer begin

text \<open>
  cmd/smoketest: a client of the hub's MCP endpoint for calls by hand. What it takes from the MCP SDK and
  the JSON decoder is the record \<open>mcp_client\<close>; a \<open>log.Fatalf\<close> is an error, and it leaves the connection as
  it is, since the process ends without running deferred calls.
\<close>

section \<open>Requests\<close>

text \<open>An \<open>http.Header\<close> by its canonical keys. \<open>Get\<close> reads the first value, \<open>Set\<close> replaces all of them.\<close>

type_synonym header = "string \<rightharpoonup> string list"

definition header_get :: "header \<Rightarrow> string \<Rightarrow> string" where
  "header_get h key = (case h key of Some (v # _) \<Rightarrow> v | _ \<Rightarrow> [])"

definition header_set :: "header \<Rightarrow> string \<Rightarrow> string \<Rightarrow> header" where
  "header_set h key v = h(key \<mapsto> [v])"

text \<open>\<open>RoundTrip\<close> works on a clone: the request of the caller keeps its header.\<close>

definition bearer_round_trip :: "string \<Rightarrow> (header \<Rightarrow> 'r) \<Rightarrow> header \<Rightarrow> 'r" where
  "bearer_round_trip token base h = base (header_set h ''Authorization'' (''Bearer '' @ token))"

section \<open>main\<close>

record smoke_flags =
  sf_endpoint :: string
  sf_tool :: string
  sf_args :: string
  sf_token :: string

definition smoke_defaults :: smoke_flags where
  "smoke_defaults =
    \<lparr>sf_endpoint = ''http://localhost:8443'', sf_tool = ''list_clusters'', sf_args = ''{}'', sf_token = []\<rparr>"

datatype content = TextContent string | OtherContent

record call_result =
  cr_is_error :: bool
  cr_content :: "content list"

text \<open>\<open>'j\<close> is the decoded arguments. A connection is made over a way to send requests.\<close>

record ('s, 'j, 'r) mcp_client =
  mc_unmarshal :: "string \<Rightarrow> goerr + 'j"
  mc_default_transport :: "header \<Rightarrow> 'r"
  mc_connect :: "string \<Rightarrow> (header \<Rightarrow> 'r) \<Rightarrow> 's \<Rightarrow> goerr option \<times> 's"
  mc_call_tool :: "string \<Rightarrow> 'j \<Rightarrow> 's \<Rightarrow> (goerr + call_result) \<times> 's"
  mc_close :: "'s \<Rightarrow> unit \<times> 's"

definition smoke_transport :: "('s, 'j, 'r) mcp_client \<Rightarrow> string \<Rightarrow> header \<Rightarrow> 'r" where
  "smoke_transport C token =
    (if token \<noteq> [] then bearer_round_trip token (mc_default_transport C) else mc_default_transport C)"

definition text_lines :: "content list \<Rightarrow> string list" where
  "text_lines cs = concat (map (\<lambda>c. case c of TextContent t \<Rightarrow> [t] | OtherContent \<Rightarrow> []) cs)"

definition printed :: "call_result \<Rightarrow> string list" where
  "printed res = (if cr_is_error res then [''--- ERRO ---''] else []) @ text_lines (cr_content res)"

text \<open>What is printed, or the message the process ends with.\<close>

definition smoke_main :: "('s, 'j, 'r) mcp_client \<Rightarrow> smoke_flags \<Rightarrow> ('s, goerr + string list) io" where
  "smoke_main C F =
    (case mc_unmarshal C (sf_args F) of
       Inl e \<Rightarrow> io_ret (Inl (wrapf ''smoketest: parseando --args: '' e))
     | Inr args \<Rightarrow>
        io_bind (io_call (mc_connect C (sf_endpoint F) (smoke_transport C (sf_token F)))) (\<lambda>err.
        case err of
          Some e \<Rightarrow> io_ret (Inl (wrapf (''smoketest: conectando em '' @ sf_endpoint F @ '': '') e))
        | None \<Rightarrow>
            io_bind (io_call (mc_call_tool C (sf_tool F) args)) (\<lambda>r.
            case r of
              Inl e \<Rightarrow> io_ret (Inl (wrapf (''smoketest: chamando '' @ sf_tool F @ '': '') e))
            | Inr res \<Rightarrow> io_bind (io_call (mc_close C)) (\<lambda>_. io_ret (Inr (printed res))))))"

section \<open>Lemmas\<close>

lemma smoke_main_returns: "returns (smoke_main C F)"
  unfolding smoke_main_def by (intro total_intros)

text \<open>
  The hub reads from the client's requests the token the client was given, so the session has the scope
  and groups of the last agent configured with this token.
\<close>

lemma bearer_token: "bearer_round_trip token (\<lambda>h. token_from_header (header_get h ''Authorization'')) h = token"
  using token_from_bearer [of token] by (simp add: bearer_round_trip_def header_get_def header_set_def)

lemma resolve_configured:
  assumes "\<forall>c \<in> set cs. sha256 (ac_token c) \<noteq> sha256 (ac_token a)" and "ac_token a \<noteq> []"
  shows "resolve_token (Some (new_token_registry (bs @ a # cs))) (ac_token a) = Some (scope_of a)"
proof -
  have "hash_token (ac_token a) \<notin> (\<lambda>a. hash_token (ac_token a)) ` set cs"
    using assms(1) by (auto simp: hash_token_eq)
  then show ?thesis using assms(2)
    by (auto simp: resolve_token_def new_token_registry_def map_build_map_of rev_map map_add_def
        dest!: map_of_SomeD split: option.split)
qed

lemma smoke_session:
  assumes "\<forall>c \<in> set cs. sha256 (ac_token c) \<noteq> sha256 (ac_token a)" and "ac_token a \<noteq> []"
  shows "bearer_round_trip (ac_token a) (\<lambda>h. session_tools (Some (new_token_registry (bs @ a # cs)))
      (header_get h ''Authorization'') T) h
    = T\<lparr>tl_scope := Some (scope_of a), tl_caller_groups := ac_groups a\<rparr>"
  using bearer_token [of "ac_token a" h] resolve_configured [OF assms]
  by (simp add: session_tools_def bearer_round_trip_def scope_of_def)

text \<open>The tool that is called by default is one the hub does not register.\<close>

lemma default_tool_unregistered: "sf_tool smoke_defaults \<notin> set (registered T)"
  by (simp add: registered_def tool_names_def smoke_defaults_def)

end
