(* ===== verification/Confidential.thy ===== *)
theory Confidential imports RolePath AuditTrail begin

text \<open>
  Where the texts an agent redacts end up: in the messages of its stream to the hub, whatever the interleaving
  (\<open>stream_carries_no_secret\<close>), and in the hub's audit trail (\<open>trail_holds_no_secret\<close>). Not covered, as the code does
  not redact them: an attempt's description, the error of a request that failed, and what the caller wrote.
\<close>

section \<open>Messages of an agent\<close>

definition clean_diagnose_response :: "diagnose_response \<Rightarrow> bool" where
  "clean_diagnose_response r \<longleftrightarrow> clean_text (dr_summary r)
     \<and> list_all (\<lambda>a. clean_text (pa_description a)) (dr_proposed r) \<and> (\<forall>k. pred_option clean_text (dr_meta r k))"

definition clean_execute_response :: "execute_response \<Rightarrow> bool" where
  "clean_execute_response r \<longleftrightarrow> list_all clean_attempt (er_attempts r)"

definition clean_approve_response :: "approve_action_response \<Rightarrow> bool" where
  "clean_approve_response r \<longleftrightarrow> pred_option clean_attempt (aar_attempt r)"

fun clean_message :: "agent_message \<Rightarrow> bool" where
  "clean_message (AHello cid v) = True"
| "clean_message (ADiagnose r) = clean_diagnose_response r"
| "clean_message (AExecute r) = clean_execute_response r"
| "clean_message (AScan r) = list_all (\<lambda>i. clean_text (is_detail i)) (sr_issues r)"
| "clean_message (AApprove r) = clean_approve_response r"
| "clean_message (AGetLogs r) = clean_text (glr_logs r)"
| "clean_message (AListNodes r) = True"

text \<open>What a handler's answers carry, as a contract of the handler.\<close>

definition handler_clean :: "'s handler \<Rightarrow> bool" where
  "handler_clean h \<longleftrightarrow>
     (\<forall>sig. answers_with (h_diagnose h sig) clean_diagnosis)
   \<and> (\<forall>pid sig. answers_with (h_execute h pid sig) (\<lambda>(resolved, ats). list_all clean_attempt ats))
   \<and> (\<forall>ns. answers_with (h_scan h ns) (list_all (\<lambda>i. clean_text (is_detail i))))
   \<and> (\<forall>pid sig name m. answers_with (h_approve_action h pid sig name m) clean_attempt)
   \<and> (\<forall>ns name dep t. answers_with (h_get_logs h ns name dep t) clean_text)"

lemma agent_handler_clean: "handler_clean (agent_handler K ps)"
  by (simp add: handler_clean_def agent_handler_def diagnose_clean execute_clean scan_clean approve_clean logs_clean)

lemma respond_sat:
  assumes "answers_with m P" and "respond m h k s = (Ret r, s')" and "\<And>e. Q (h e)" and "\<And>v. P v \<Longrightarrow> Q (k v)"
  shows "Q r"
  using assms by (auto simp: respond_def io_try_eq_Ret answers_with_def)

lemma handler_cleanD:
  assumes "handler_clean h"
  shows "answers_with (h_diagnose h sig) clean_diagnosis"
    and "answers_with (h_execute h pid sig) (\<lambda>(resolved, ats). list_all clean_attempt ats)"
    and "answers_with (h_scan h ns) (list_all (\<lambda>i. clean_text (is_detail i)))"
    and "answers_with (h_approve_action h pid sig name m) clean_attempt"
    and "answers_with (h_get_logs h ns name dep t) clean_text"
  using assms by (auto simp: handler_clean_def)

lemma responses_clean:
  assumes "handler_clean h"
  shows "diagnose_response_of h sig s = (Ret d, s') \<Longrightarrow> clean_diagnose_response d"
    and "execute_response_of h pid sig s = (Ret x, s') \<Longrightarrow> clean_execute_response x"
    and "scan_response_of h ns s = (Ret i, s') \<Longrightarrow> list_all (\<lambda>i. clean_text (is_detail i)) (sr_issues i)"
    and "approve_action_response_of h pid sig name m s = (Ret a, s') \<Longrightarrow> clean_approve_response a"
    and "get_logs_response_of h ns name dep t s = (Ret l, s') \<Longrightarrow> clean_text (glr_logs l)"
proof -
  show "diagnose_response_of h sig s = (Ret d, s') \<Longrightarrow> clean_diagnose_response d"
    unfolding diagnose_response_of_def
    by (erule respond_sat [OF handler_cleanD(1) [OF assms]])
      (auto simp: clean_diagnose_response_def clean_diagnosis_def clean_Nil)
  show "execute_response_of h pid sig s = (Ret x, s') \<Longrightarrow> clean_execute_response x"
    unfolding execute_response_of_def
    by (erule respond_sat [OF handler_cleanD(2) [OF assms]]) (auto simp: clean_execute_response_def)
  show "scan_response_of h ns s = (Ret i, s') \<Longrightarrow> list_all (\<lambda>i. clean_text (is_detail i)) (sr_issues i)"
    unfolding scan_response_of_def
    by (erule respond_sat [OF handler_cleanD(3) [OF assms], where Q = "\<lambda>i. list_all (\<lambda>i. clean_text (is_detail i)) (sr_issues i)"])
      auto
  show "approve_action_response_of h pid sig name m s = (Ret a, s') \<Longrightarrow> clean_approve_response a"
    unfolding approve_action_response_of_def
    by (erule respond_sat [OF handler_cleanD(4) [OF assms]]) (auto simp: clean_approve_response_def)
  show "get_logs_response_of h ns name dep t s = (Ret l, s') \<Longrightarrow> clean_text (glr_logs l)"
    unfolding get_logs_response_of_def
    by (erule respond_sat [OF handler_cleanD(5) [OF assms], where Q = "\<lambda>l. clean_text (glr_logs l)"])
      (auto simp: clean_Nil)
qed

lemma answer_clean:
  assumes "handler_clean h" and "client_answer h q s = (Ret r, s')"
  shows "clean_message r"
proof -
  note clean = responses_clean [OF assms(1)]
  show ?thesis
  proof (cases q)
    case (HDiagnose d)
    with assms(2) show ?thesis
      by (auto simp: client_answer_def io_bind_eq_Ret clean_diagnose_response_def dest!: clean(1))
  next
    case (HExecute x)
    with assms(2) show ?thesis
      by (auto simp: client_answer_def io_bind_eq_Ret clean_execute_response_def dest!: clean(2))
  next
    case (HScan i)
    with assms(2) show ?thesis by (auto simp: client_answer_def io_bind_eq_Ret dest!: clean(3))
  next
    case (HApprove a)
    with assms(2) show ?thesis
      by (auto simp: client_answer_def io_bind_eq_Ret clean_approve_response_def dest!: clean(4))
  next
    case (HGetLogs l)
    with assms(2) show ?thesis by (auto simp: client_answer_def io_bind_eq_Ret dest!: clean(5))
  next
    case (HListNodes n)
    with assms(2) show ?thesis by (auto simp: client_answer_def io_bind_eq_Ret)
  qed
qed

lemma channel_clean:
  assumes "handler_clean (cl_handler c)" and "channel_reachable c X"
  shows "list_all clean_message (ch_up X)" and "list_all clean_message (cn_chans (ch_conn X) h)"
proof -
  have ok: "conn_part c X" "hello_part c X" using channel_reachable_ok [OF assms(2)] by (simp_all add: channel_ok_def)
  have ans: "clean_message r" if "answered_by (cl_handler c) qs r" for qs r
    using that answer_clean [OF assms(1)] by (auto simp: answered_by_def answers_def)
  show "list_all clean_message (ch_up X)"
    using ok(2) ans by (auto simp: hello_part_def hello_of_def list_all_iff split: option.splits if_splits)
  show "list_all clean_message (cn_chans (ch_conn X) h)"
    using ok(1) ans by (auto simp: conn_part_def list_all_iff)
qed

section \<open>The hub's audit trail\<close>

text \<open>What of an entry comes from an agent: the summary and the proposals of a diagnosis, its metadata, the attempts.\<close>

definition clean_entry :: "audit_entry \<Rightarrow> bool" where
  "clean_entry e \<longleftrightarrow> (en_proposed e \<noteq> [] \<longrightarrow> clean_text (en_summary e))
     \<and> list_all (\<lambda>p. clean_text (pr_description p)) (en_proposed e) \<and> (\<forall>k. pred_option clean_text (en_meta e k))
     \<and> pred_option (\<lambda>r. list_all (\<lambda>a. clean_text (ar_output a) \<and> clean_text (ar_err a) \<and> ar_snapshot a = None)
         (res_attempts r)) (en_result e)"

text \<open>What the tools rely on of the hub: its answers are clean.\<close>

definition hub_clean :: "'s hub_ops \<Rightarrow> bool" where
  "hub_clean H \<longleftrightarrow>
     (\<forall>cid sig. answers_with (hb_diagnose H cid sig) clean_diagnose_response)
   \<and> (\<forall>cid pid sig. answers_with (hb_execute H cid pid sig) clean_execute_response)
   \<and> (\<forall>cid pid sig name m. answers_with (hb_approve_action H cid pid sig name m) clean_approve_response)"

text \<open>A property of the world that every call keeps, and an append of a clean entry.\<close>

definition keeps_clean_trail :: "'s tools \<Rightarrow> ('s \<Rightarrow> bool) \<Rightarrow> bool" where
  "keeps_clean_trail T I \<longleftrightarrow> calls_keep T I \<and> (\<forall>i. keeps I (as_get (tl_audit T) i))
     \<and> (\<forall>e. clean_entry e \<longrightarrow> keeps I (as_append (tl_audit T) e))"

lemma keeps_bind_with:
  assumes "keeps I m" and "\<And>s v s'. m s = (Ret v, s') \<Longrightarrow> P v" and "\<And>v. P v \<Longrightarrow> keeps I (f v)"
  shows "keeps I (io_bind m f)"
proof -
  have "I (snd (io_bind m f s))" if s: "I s" for s
  proof (cases "m s")
    case (Pair r s')
    with keepsD [OF assms(1) s] have "I s'" by simp
    with Pair keepsD [OF assms(3)] assms(2) show ?thesis by (cases r) (auto simp: io_bind_def)
  qed
  then show ?thesis by (simp add: keeps_def)
qed

lemma keeps_try_with:
  assumes "keeps I m" and "answers_with m P" and "\<And>e. keeps I (h e)" and "\<And>v. P v \<Longrightarrow> keeps I (k v)"
  shows "keeps I (io_try m h k)"
  unfolding io_try_def
  by (rule keeps_bind_with [OF assms(1), where P = "\<lambda>r. \<forall>v. r = Inr v \<longrightarrow> P v"])
    (use assms in \<open>auto simp: answers_with_def split: sum.split\<close>)

lemma keeps_wrap_with:
  "\<lbrakk>keeps I m; answers_with m P; \<And>v. P v \<Longrightarrow> keeps I (k v)\<rbrakk> \<Longrightarrow> keeps I (io_wrap m msg k)"
  unfolding io_wrap_def by (rule keeps_try_with [where P = P]) auto

lemma keeps_clean_trailD:
  assumes "keeps_clean_trail T I"
  shows "calls_keep T I" and "keeps I (as_get (tl_audit T) i)"
    and "clean_entry e \<Longrightarrow> keeps I (as_append (tl_audit T) e)"
  using assms by (simp_all add: keeps_clean_trail_def)

lemma calls_keep_scope: "calls_keep T I \<Longrightarrow> keeps I (check_cluster_scope T cid)"
  unfolding check_cluster_scope_def
  by (cases "tl_inventory T") (auto intro!: keeps_wrap keeps_case_sum keeps_case_option keeps_if keeps_pure dest: calls_keepD(1))

lemma calls_keep_stamp: "calls_keep T I \<Longrightarrow> keeps I (stamp T)"
  unfolding stamp_def by (intro keeps_bind keeps_pure) (auto dest: calls_keepD)

lemma record_clean: "keeps_clean_trail T I \<Longrightarrow> clean_entry e \<Longrightarrow> keeps I (record_entry T e out)"
  unfolding record_entry_def by (intro keeps_check keeps_pure keeps_clean_trailD(3))

lemma fallback_clean:
  assumes "keeps_clean_trail T I"
  shows "keeps I (runbook_fallback T i)"
proof -
  note c = keeps_clean_trailD(1) [OF assms]
  have "keeps I (confirm_via_logs T i rb)" for rb
    unfolding confirm_via_logs_def Let_def
    by (intro keeps_case_prod keeps_bind keeps_pure calls_keepD(4) c)
  then have "keeps I (fallback_answer T i)"
    unfolding fallback_answer_def by (intro keeps_case_option keeps_bind keeps_pair keeps_if keeps_pure)
  moreover have "keeps I (record_entry T \<lparr>en_id = eid, en_time = t, en_cluster_id = ti_cluster_id i,
      en_groups = tl_caller_groups T, en_playbook_id = ''runbook'', en_summary = summary, en_decision = fallback_decision,
      en_signal = no_signal, en_meta = Map.empty, en_proposed = [], en_commands = commands, en_result = None\<rparr> out)"
    for eid t summary commands out
    by (rule record_clean [OF assms]) (simp add: clean_entry_def)
  ultimately show ?thesis
    unfolding runbook_fallback_def by (intro keeps_bind keeps_case_prod calls_keep_stamp c)
qed

lemma attempt_record_clean:
  "list_all clean_attempt as \<Longrightarrow>
    list_all (\<lambda>a. clean_text (ar_output a) \<and> clean_text (ar_err a) \<and> ar_snapshot a = None) (map attempt_record as)"
  by (auto simp: list_all_iff clean_attempt_def attempt_record_def)

lemma diagnosis_entry_clean:
  "clean_diagnose_response d \<Longrightarrow> clean_entry (diagnosis_entry T i d dec eid t)"
  by (auto simp: clean_entry_def diagnosis_entry_def clean_diagnose_response_def proposed_record_of_def list_all_iff)

lemma clean_entry_more:
  "clean_entry e \<Longrightarrow> clean_entry (e\<lparr>en_commands := cs\<rparr>)"
  "clean_entry e \<Longrightarrow> list_all clean_attempt as \<Longrightarrow>
    clean_entry (e\<lparr>en_result := Some \<lparr>res_playbook_id = p, res_resolved = b, res_attempts = map attempt_record as\<rparr>\<rparr>)"
  using attempt_record_clean [of as] by (simp_all add: clean_entry_def)

lemma act_clean:
  assumes t: "keeps_clean_trail T I" and h: "hub_clean (tl_hub T)" and d: "clean_diagnose_response d"
  shows "keeps I (act_on_decision T i d dec eid t)"
proof -
  have ex: "keeps I (hb_execute (tl_hub T) cid pid sig)" "answers_with (hb_execute (tl_hub T) cid pid sig) clean_execute_response"
    for cid pid sig
    using calls_keepD(7) [OF keeps_clean_trailD(1) [OF t]] h by (simp_all add: hub_clean_def)
  show ?thesis
    unfolding act_on_decision_def Let_def
    by (intro keeps_if keeps_pure record_clean [OF t] keeps_wrap_with [OF ex] clean_entry_more diagnosis_entry_clean [OF d])
      (simp add: clean_execute_response_def)
qed

lemma troubleshoot_clean:
  assumes t: "keeps_clean_trail T I" and h: "hub_clean (tl_hub T)"
  shows "keeps I (troubleshoot T i)"
proof -
  note c = keeps_clean_trailD(1) [OF t]
  have di: "keeps I (hb_diagnose (tl_hub T) cid sig)" "answers_with (hb_diagnose (tl_hub T) cid sig) clean_diagnose_response"
    for cid sig
    using calls_keepD(3) [OF c] h by (simp_all add: hub_clean_def)
  show ?thesis
    unfolding troubleshoot_def
    by (intro keeps_try calls_keep_scope c keeps_pure keeps_try_with [OF di] keeps_if fallback_clean t keeps_wrap keeps_decision
        keeps_bind calls_keep_stamp keeps_case_prod act_clean h)
qed

lemma approval_entry_clean: "clean_attempt a \<Longrightarrow> clean_entry (approval_entry T e incident name tier a eid t)"
  by (simp add: clean_entry_def approval_entry_def clean_attempt_def attempt_record_def)

lemma attempt_of_clean: "pred_option clean_attempt a \<Longrightarrow> clean_attempt (attempt_of a)"
  by (cases a) (simp_all add: attempt_of_def clean_attempt_def clean_Nil)

lemma approve_action_clean:
  assumes t: "keeps_clean_trail T I" and h: "hub_clean (tl_hub T)"
  shows "keeps I (approve_action T incident name)"
proof -
  note c = keeps_clean_trailD(1) [OF t]
  have ap: "keeps I (hb_approve_action (tl_hub T) cid pid sig nm m)"
    "answers_with (hb_approve_action (tl_hub T) cid pid sig nm m) clean_approve_response" for cid pid sig nm m
    using calls_keepD(8) [OF c] h by (simp_all add: hub_clean_def)
  have run: "keeps I (run_approval T e incident name tier)" for e tier
    unfolding run_approval_def Let_def
    by (intro keeps_wrap_with [OF ap] keeps_if keeps_pure keeps_bind calls_keep_stamp c keeps_case_prod record_clean t
        approval_entry_clean attempt_of_clean) (simp add: clean_approve_response_def)
  show ?thesis
    unfolding approve_action_def
    by (intro keeps_if keeps_pure keeps_wrap keeps_clean_trailD(2) t keeps_case_option keeps_try calls_keep_scope c
        keeps_case_sum run)
qed

section \<open>Over the role path\<close>

lemma client_route_keeps:
  assumes "nw_role N = Some (manager_handler M)" and "agentless N" and "role_side M I"
    and "\<And>c. keeps I (on_role (role_handler M c))"
  shows "keeps I (route N cid on_role on_local on_peer)"
  by (rule route_by_role_keeps [OF assms(1,2) manager_handler_side [OF assms(3)]])
    (use manager_handler_role assms(4) in metis)

text \<open>Without agents, the hub's answers are those of the handlers the role manager gives.\<close>

lemma route_by_role_clean:
  assumes "nw_role N = Some (manager_handler M)" and "agentless N"
    and "\<And>c s r s'. on_role (role_handler M c) s = (Ret r, s') \<Longrightarrow> P r"
  shows "answers_with (route N cid on_role on_local on_peer) P"
proof (rule answers_withI)
  fix s v s'
  assume "route N cid on_role on_local on_peer s = (Ret (Inr v), s')"
  then obtain h s1 where h: "manager_handler M cid s = (Ret (RoleHandler h), s1)" "on_role h s1 = (Ret v, s')"
    by (auto simp: route_by_role [OF assms(1,2)] io_bind_def io_ret_apply
        split: outcome.splits role_answer.splits prod.splits)
  from manager_handler_role [OF h(1)] h(2) assms(3) show "P v" by blast
qed

lemma role_hub_clean:
  assumes "nw_role N = Some (manager_handler M)" and "agentless N"
  shows "hub_clean (network_hub N)"
proof -
  have h: "handler_clean (role_handler M c)" for c by (simp add: role_handler_def agent_handler_clean)
  show ?thesis
    unfolding hub_clean_def network_hub_def hub_diagnose_def hub_execute_def hub_approve_action_def
    by (simp, intro conjI allI route_by_role_clean [OF assms]) (erule responses_clean [OF h])+
qed

section \<open>The file behind the trail\<close>

text \<open>What an append of a clean entry leaves in the file: the entry's line, or what was written of it before the
  write was cut short. \<open>clean_grown J c d\<close>: the text \<open>d\<close> is \<open>c\<close> with such pieces added.\<close>

definition clean_piece :: "codec \<Rightarrow> string \<Rightarrow> bool" where
  "clean_piece J p \<longleftrightarrow> (\<exists>e line. clean_entry e \<and> js_marshal J e = Inr line \<and> prefix p (line @ newline))"

definition clean_grown :: "codec \<Rightarrow> string \<Rightarrow> string \<Rightarrow> bool" where
  "clean_grown J c d \<longleftrightarrow> (\<exists>ps. d = c @ concat ps \<and> list_all (clean_piece J) ps)"

lemma clean_grown_refl [simp]: "clean_grown J c c"
  by (auto simp: clean_grown_def intro: exI [of _ "[]"])

lemma clean_grown_piece:
  assumes "clean_grown J c d" and "clean_piece J p"
  shows "clean_grown J c (d @ p)"
proof -
  from assms(1) obtain ps where "d = c @ concat ps" "list_all (clean_piece J) ps" by (auto simp: clean_grown_def)
  with assms(2) show ?thesis by (auto simp: clean_grown_def intro!: exI [of _ "ps @ [p]"])
qed

lemma keeps_clean_grown:
  "(\<And>d. keeps (\<lambda>s. content s = d) m) \<Longrightarrow> keeps (\<lambda>s. clean_grown J c (content s)) m"
  by (simp add: keeps_def)

context json_log begin

lemma append_clean: "clean_entry e \<Longrightarrow> keeps (\<lambda>s. clean_grown J c (content s)) (file_append F J e)"
  unfolding keeps_def
  using append_cases [of e] by (metis clean_grown_piece clean_piece_def)

lemma tools_grow_clean:
  assumes "calls_keep T (\<lambda>s. clean_grown J c (content s))" and "tl_audit T = file_store F J"
  shows "keeps_clean_trail T (\<lambda>s. clean_grown J c (content s))"
  using assms(1) trail.get_keeps append_clean by (auto simp: keeps_clean_trail_def assms(2) keeps_def)

end

section \<open>Properties\<close>

text \<open>C5: nothing secret leaves an agent: whatever the interleaving of a stream's two sides and however it breaks,
  in every message the agent has on its way to the hub, and in every reply waiting for a caller there, no part of
  a summary, proposal, metadata, attempt's output or error, scan detail or log matches a redaction pattern.\<close>

theorem stream_carries_no_secret:
  assumes "channel_reachable c X" and "cl_handler c = agent_handler K ps"
  shows "list_all clean_message (ch_up X) \<and> list_all clean_message (cn_chans (ch_conn X) h)"
  using channel_clean [OF _ assms(1)] by (simp add: assms(2) agent_handler_clean)

definition pull_request :: hub_message where
  "pull_request = HDiagnose \<lparr>dq_request_id = ''72'', dq_signal = Some (web_signal ''PodImagePullBackOff''), dq_cluster_id = ''c1''\<rparr>"

definition joined_asked :: channel where
  "joined_asked = agent_receive (hub_send pull_request (hub_await ''72'' (hub_accept (open_channel joined_client))))"

lemmas joined_channel = joined_asked_def channel_ops open_channel_def session_first_def hello_of_def joined_client_def
  pull_request_def hub_request_id_def

lemma joined_asked_reachable: "channel_reachable joined_client joined_asked"
  unfolding joined_asked_def
  by (rule channel_reachable.step [OF channel_reachable.step [OF channel_reachable.step [OF channel_reachable.step
      [OF channel_reachable.start channel_step.accept] channel_step.await] channel_step.send] channel_step.receive])
    (simp_all add: joined_channel)

theorem stream_carries_no_secret_witness:
  "\<exists>X r. channel_reachable joined_client X \<and> answers (cl_handler joined_client) pull_request r \<and> ch_up X = [r]
    \<and> clean_message r"
proof -
  have "returns (diagnose_response_of (cl_handler joined_client) (Some (web_signal ''PodImagePullBackOff'')))"
    unfolding diagnose_response_of_def
    by (rule respond_returns) (simp add: joined_client_def agent_handler_def agent.handle_diagnose_returns)
  then obtain d w where "diagnose_response_of (cl_handler joined_client) (Some (web_signal ''PodImagePullBackOff'')) web_cluster
      = (Ret d, w)"
    by (rule returnsE)
  then have "client_answer (cl_handler joined_client) pull_request web_cluster = (Ret (ADiagnose (d\<lparr>dr_request_id := ''72''\<rparr>)), w)"
    by (simp add: client_answer_def pull_request_def io_bind_def io_ret_apply)
  then obtain r where a: "answers (cl_handler joined_client) pull_request r" unfolding answers_def by blast
  have q: "ch_jobs joined_asked = [pull_request]" "ch_up joined_asked = []" "ch_open joined_asked"
    by (simp_all add: joined_channel)
  let ?X = "agent_done pull_request r joined_asked"
  have "channel_step joined_client joined_asked ?X" by (rule channel_step.replies) (simp_all add: q a)
  with joined_asked_reachable have x: "channel_reachable joined_client ?X" by (rule channel_reachable.step)
  have up: "ch_up ?X = [r]" by (simp add: agent_done_def q)
  have "list_all clean_message (ch_up ?X)"
    using stream_carries_no_secret [OF x, of sim_kube "default_playbooks []"] by (simp add: joined_client_def)
  with x a up show ?thesis by auto
qed

text \<open>C6: nor does it reach the audit trail: over the role path, whatever a caller asks for, however the call ends
  and however its write to the file ends, all that troubleshoot or approve_action adds to the file is the line of a
  clean entry, or the part of such a line written before the write was cut short: no part of a diagnosis's
  summary, proposals and metadata or of an attempt's output and error, as they are handed to the encoder, matches a
  redaction pattern. Other requests may append such lines at the same time.\<close>

theorem trail_holds_no_secret:
  assumes "tl_hub T = network_hub N" and "nw_role N = Some (manager_handler M)" and "agentless N"
    and "tl_audit T = file_store F J" and "append_file F content" and "partial_writes F content"
    and "\<forall>c. calls_keep T (\<lambda>s. clean_grown J c (content s))"
  shows "clean_grown J (content s) (content (snd (troubleshoot T i s)))
    \<and> clean_grown J (content s) (content (snd (approve_action T incident name s)))"
proof -
  have hub: "hub_clean (tl_hub T)" using role_hub_clean [OF assms(2,3)] by (simp add: assms(1))
  have trail: "keeps_clean_trail T (\<lambda>t. clean_grown J (content s) (content t))"
    by (rule json_log.tools_grow_clean [OF json_log.intro [OF assms(5,6)] spec [OF assms(7)] assms(4)])
  from keepsD [OF troubleshoot_clean [OF trail hub], of s] keepsD [OF approve_action_clean [OF trail hub], of s]
  show ?thesis by simp
qed

text \<open>A hub whose trail is in memory, and a signal no playbook handles: one entry is added, and it is clean.\<close>

record audited_world = role_world +
  au_file :: string

definition audited_manager :: "(string, audited_world) manager" where
  "audited_manager = \<lparr>mg_inventory = Some (inventory_lookup (Some (new_inventory
       [\<lparr>ci_cluster_id = ''c1'', ci_account = ''111'', ci_region = ''r'', ci_eks_name = []\<rparr>]))),
     mg_registry = [], mg_new_client = (\<lambda>arn eks region. io_ret (Inr arn)), mg_kube = (\<lambda>c. sim_kube),
     mg_handlers = rw_handlers, mg_set_handlers = (\<lambda>H s. s\<lparr>rw_handlers := H\<rparr>)\<rparr>"

definition audited_file :: "audited_world file_ops" where
  "audited_file = \<lparr>fo_open_append = (\<lambda>s. (None, s)), fo_write = (\<lambda>t s. (None, s\<lparr>au_file := au_file s @ t\<rparr>)),
     fo_read = (\<lambda>s. (Inr (au_file s), s)), fo_path = ''audit.jsonl''\<rparr>"

definition codec_of :: "audit_entry \<Rightarrow> codec" where
  "codec_of e0 = \<lparr>js_marshal = (\<lambda>e. if e = e0 then Inr ''{}'' else Inl (errorf [])),
     js_unmarshal = (\<lambda>t. if t = ''{}'' then Inr (persisted e0) else Inl (errorf []))\<rparr>"

definition audited_tools :: "codec \<Rightarrow> audited_world tools" where
  "audited_tools J =
    \<lparr>tl_hub = network_hub (role_only (manager_handler audited_manager)), tl_policy = new_engine Map.empty,
     tl_audit = file_store audited_file J, tl_execution_flag = True, tl_prod_clusters = Map.empty,
     tl_caller_groups = [''g''], tl_runbooks = None, tl_inventory = None, tl_scope = None,
     tl_tool_access = Map.empty, tl_env = demo_env\<rparr>"

definition audited_start :: audited_world where
  "audited_start = \<lparr>cl_pods = [web_pod], cl_deps = (\<lambda>ns n. None), cl_nodes = [], cl_logs = [], cl_now = 0,
     rw_handlers = Map.empty, au_file = []\<rparr>"

lemma audited_calls: "calls_keep (audited_tools J) (\<lambda>s. au_file s = c)"
proof -
  let ?I = "\<lambda>s :: audited_world. au_file s = c"
  let ?N = "role_only (manager_handler audited_manager) :: audited_world network"
  have n: "nw_role ?N = Some (manager_handler audited_manager)" "agentless ?N"
    by (simp_all add: agentless_def role_only_def)
  have r: "role_side audited_manager ?I"
    by (auto simp: role_side_def audited_manager_def keeps_def inventory_lookup_def intro!: sim_reads_pure)
  have h: "role_handler audited_manager k = agent_handler sim_kube []" for k
    by (simp add: role_handler_def audited_manager_def)
  have k: "kube_reads (sim_kube :: audited_world kube) ?I" by (rule sim_reads_pure) simp
  have idle: "keeps ?I (handle_diagnose sim_kube [] sig)" "keeps ?I (handle_execute sim_kube [] pid sig)"
    "keeps ?I (handle_approve_action sim_kube [] pid sig name m)" for sig pid name m
    by (simp_all add: handle_diagnose_def handle_execute_def handle_approve_action_def agent_diagnose_def registry_find_def
        Let_def io_try_def)
  have hk: "keeps ?I (h_diagnose (role_handler audited_manager k) sig)" "keeps ?I (h_execute (role_handler audited_manager k) pid sig)"
    "keeps ?I (h_approve_action (role_handler audited_manager k) pid sig name m)" "keeps ?I (h_scan (role_handler audited_manager k) ns)"
    "keeps ?I (h_get_logs (role_handler audited_manager k) ns name dep t)" "keeps ?I (h_list_nodes (role_handler audited_manager k))"
    for k sig pid name m ns dep t
    unfolding h by (simp_all only: agent_handler_def handler.simps idle handle_scan_keeps [OF k] handle_list_nodes_effects(2) [OF k]
      handle_get_logs_effects(2) [OF k])
  have routes: "keeps ?I (hub_scan ?N cid ns)" "keeps ?I (hub_diagnose ?N cid sig)" "keeps ?I (hub_list_nodes ?N cid)"
    "keeps ?I (hub_get_logs ?N cid ns name dep t)" "keeps ?I (hub_execute ?N cid pid sig)"
    "keeps ?I (hub_approve_action ?N cid pid sig name m)" for cid ns name dep t pid sig m
    unfolding hub_scan_def hub_diagnose_def hub_list_nodes_def hub_get_logs_def hub_execute_def hub_approve_action_def
      diagnose_response_of_def execute_response_of_def scan_response_of_def get_logs_response_of_def
      list_nodes_response_of_def approve_action_response_of_def
    by (intro client_route_keeps [OF n r] respond_keeps hk)+
  have "keeps ?I (connected_clusters ?N)"
    by (simp add: connected_clusters_def role_only_def manager_cluster_ids_def keeps_def io_try_def io_bind_def io_call_def
        io_ret_apply)
  with routes show ?thesis
    by (simp add: calls_keep_def audited_tools_def network_hub_def demo_env_def keeps_call)
qed

definition fallback_text :: string where
  "fallback_text = ''nenhum playbook automatizado conhece o sinal '' @ fmt_q ''k'' @ '', e n'' @ a_tilde @ ''o h'' @ a_acute
     @ '' cat'' @ a_acute @ ''logo de runbooks configurado neste hub.''"

definition fallback_entry :: audit_entry where
  "fallback_entry = \<lparr>en_id = new_id 7 ''x'', en_time = 7, en_cluster_id = ''c1'', en_groups = [''g''],
     en_playbook_id = ''runbook'', en_summary = fallback_text, en_decision = fallback_decision, en_signal = no_signal,
     en_meta = Map.empty, en_proposed = [], en_commands = [], en_result = None\<rparr>"

lemma audited_diagnosis:
  "\<exists>d s. hub_diagnose (role_only (manager_handler audited_manager)) ''c1'' sig audited_start = (Ret (Inr d), s)
    \<and> dr_error d = [] \<and> dr_no_playbook d \<and> au_file s = []"
proof -
  have n: "nw_role (role_only (manager_handler audited_manager)) = Some (manager_handler audited_manager)"
    "agentless (role_only (manager_handler audited_manager))"
    by (simp_all add: agentless_def role_only_def)
  have handler: "manager_handler audited_manager ''c1'' audited_start
      = (Ret (RoleHandler (role_handler audited_manager (role_arn ''111''))), audited_start\<lparr>rw_handlers := [''c1'' \<mapsto> role_arn ''111'']\<rparr>)"
    by (simp add: manager_handler_def manager_build_def Let_def io_try_def io_bind_def manager_keep_def audited_manager_def
        audited_start_def io_ret_apply)
  have "handle_diagnose K [] sig = io_ret (Inr no_playbook_diagnosis)" for K :: "audited_world kube"
    by (simp add: handle_diagnose_def registry_find_def)
  then have "h_diagnose (role_handler audited_manager c) sig = io_ret (Inr no_playbook_diagnosis)" for c
    by (simp add: role_handler_def agent_handler_def audited_manager_def)
  moreover have "au_file (audited_start\<lparr>rw_handlers := H\<rparr>) = []" for H by (simp add: audited_start_def)
  ultimately show ?thesis
    by (simp add: hub_diagnose_def route_by_role [OF n] handler diagnose_response_of_def respond_def io_try_def
        io_bind_def io_ret_apply no_playbook_diagnosis_def)
qed

lemma audited_run:
  "au_file (snd (troubleshoot (audited_tools (codec_of fallback_entry)) demo_in audited_start)) = ''{}'' @ newline"
proof -
  let ?T = "audited_tools (codec_of fallback_entry)"
  obtain d s where d: "hb_diagnose (tl_hub ?T) ''c1'' (Some (in_signal demo_in)) audited_start = (Ret (Inr d), s)"
    and dd: "dr_error d = []" "dr_no_playbook d" and s: "au_file s = []"
    using audited_diagnosis [of "Some (in_signal demo_in)"] by (auto simp: audited_tools_def network_hub_def)
  have scope: "check_cluster_scope ?T ''c1'' = io_ret (scope_check ?T ''c1'' None)"
    by (simp add: check_cluster_scope_def audited_tools_def)
  have ok: "\<exists>x. scope_check ?T ''c1'' None = Inr x"
    by (cases "scope_check ?T ''c1'' None") (simp_all add: scope_check_def audited_tools_def)
  have answer: "fallback_answer ?T demo_in = io_ret (fallback_text, [])"
    unfolding fallback_answer_def fallback_text_def by (simp add: audited_tools_def demo_in_def)
  have "au_file (snd (runbook_fallback ?T demo_in s)) = ''{}'' @ newline"
    unfolding runbook_fallback_def answer
    by (simp add: stamp_def record_entry_def audited_tools_def demo_env_def io_check_def io_bind_def io_call_def io_ret_apply
        file_append_def audited_file_def codec_of_def fallback_entry_def demo_in_def s)
  with d dd ok show ?thesis
    by (auto simp: troubleshoot_def scope demo_in_def io_try_def io_bind_def io_ret_apply)
qed

theorem trail_holds_no_secret_witness:
  "au_file (snd (troubleshoot (audited_tools (codec_of fallback_entry)) demo_in audited_start)) = ''{}'' @ newline
    \<and> clean_grown (codec_of fallback_entry) [] (''{}'' @ newline)"
proof -
  let ?J = "codec_of fallback_entry"
  let ?T = "audited_tools ?J" and ?N = "role_only (manager_handler audited_manager) :: audited_world network"
  have T: "tl_hub ?T = network_hub ?N" "nw_role ?N = Some (manager_handler audited_manager)" "agentless ?N"
    "tl_audit ?T = file_store audited_file ?J"
    by (simp_all add: audited_tools_def agentless_def role_only_def)
  have f: "append_file audited_file au_file" "partial_writes audited_file au_file"
    by (simp_all add: append_file_def partial_writes_def audited_file_def)
  have "calls_keep ?T (\<lambda>s. clean_grown ?J c (au_file s))" for c
    unfolding calls_keep_def by (intro conjI allI impI keeps_clean_grown) (erule calls_keepD(1) [OF audited_calls], (rule calls_keepD [OF audited_calls])+)
  from trail_holds_no_secret [OF T f allI [OF this], of audited_start demo_in] audited_run
  show ?thesis by (simp add: audited_start_def)
qed

end
