(* ===== verification/Spec2Isabelle.thy ===== *)
theory Spec2Isabelle imports LadderDrift Isolation AuditTrail RolePath FleetFaults Directory RunbookFormat SmokeTest Confidential RoleRaces begin

text \<open>
  k8s-ts-mcp diagnoses and repairs Kubernetes clusters on behalf of an MCP client. A hub serves the MCP
  tools, decides by policy what a caller may run, and keeps an audit trail. An agent in each cluster, or
  the hub itself through an AWS role, diagnoses a signal with a playbook and runs the playbook's ladder of
  actions. This development models the Go code of both processes and proves what keeps a cluster safe:
  nothing runs that was not authorised, nothing leaves an agent that was not redacted, a failed action is
  rolled back, every call answers, and a caller stays within its AWS accounts.

  The model. Go code that has effects is a function \<open>('s, 'a) io\<close> (theory Prelude) from the state of the
  world to an outcome and a state: the outcome is a value, a panic (a nil function called) or never
  returning. Errors are values of type \<open>goerr\<close>, with Go's wrapping. Code that is not in the repository
  (client-go, the AWS SDK, gRPC, Redis, the YAML and JSON decoders, OPA's evaluation of a complete rule, the
  Unicode tables, the file system) is a record of functions the definitions take; what is relied on of it is a
  named hypothesis (\<open>kube_reads\<close>, \<open>kube_writes\<close>, \<open>playbook_clock\<close>, \<open>replica_spec\<close>, \<open>append_file\<close>,
  \<open>partial_writes\<close>, \<open>torn_lines\<close>, \<open>json_entries\<close>, \<open>clock_reads\<close>, \<open>tokens_live\<close>,
  \<open>redis_server\<close>, \<open>hub_side\<close>, \<open>role_side\<close>, \<open>map_apart\<close>,
  \<open>manager_map\<close>, \<open>builds_leave_handlers\<close>), and the witnesses show that each can hold. What the code uses of the standard
  library is written out (strings, strconv, fmt, regexp, path escaping, hex, SHA-256). Strings are byte strings; the
  Portuguese texts are written as their UTF-8 bytes.

  The theories and what they model:

  \<^item> Policy: internal/policy (types.go, engine.go, policy.rego). The rules are guarded results; their
    exclusiveness, totality and the table of decisions are lemmas; \<open>opa_eval\<close> is OPA's evaluation of them, with the
    error of one its context stops.
  \<^item> GoRegexp, Redact: internal/redact, over a model of Go's leftmost-first matching. The lemmas follow the
    words of a text through each replacement. RegexpSpec says what a regexp means as a relation, which the
    matcher is proved to find exactly (\<open>rmatch_iff\<close>); RedactSpec follows the matches of one pattern through the
    replacements of another, and CleanText concludes for all six.
  \<^item> ExecEngine: internal/execengine. One attempt (snapshot, run, validate, rollback), the ladder and the
    approved run; \<open>run_spec\<close> is the specification of a completed run.
  \<^item> K8sClient: internal/k8sclient (k8sclient.go, diagnostics.go, nodes.go) over the record \<open>kube\<close>.
    AwsRole: awsrole.go, the client of an assumed role and the cache of its tokens.
  \<^item> Playbooks: internal/playbooks with corek8s, calico and keda. The locale \<open>playbook\<close> is the contract of a
    playbook, interpreted for the six that are registered; the client's lemmas in it give what an agent
    promises for any of them. SimCluster is a concrete cluster for the witnesses.
  \<^item> Wire: the messages of internal/transport/gen and handlerresponses.go.
  \<^item> AgentCore, AgentProps: internal/agentcore (the requests of an agent, the scan and its classification of
    pods) and the properties of agents.
  \<^item> Registry: internal/registry, the contract as a locale, \<open>InMemory\<close> interpreted in it, \<open>Redis\<close> modelled.
    Directory: what a sequence of registry calls may answer, failures included, as the locale
    \<open>directory_service\<close>; InMemory is interpreted in it, Redis refines the same records.
  \<^item> Transport: internal/transport (server.go, client.go). Correlation of requests and replies, and sessions
    with their heartbeats, are step relations with invariants; the routing of the six requests is over the
    record \<open>network\<close>; the agent's answer to each message and its backoff are functions.
  \<^item> AgentChannel: the two ends of one stream (server.go's \<open>agentConn\<close> and client.go's \<open>runOnce\<close>) as one step
    relation over the messages in transit, and \<open>wire_network\<close>, the network such a stream gives the hub.
    Fleet: several replicas that share a registry and forward requests to each other. FleetFaults: the same
    with registry calls that fail, replicas that die and sessions that overlap.
  \<^item> Inventory, AgentAuth, RoleCluster: internal/inventory (a locale of lookups, interpreted for the file and
    for the HTTP API), internal/agentauth (over Sha256), internal/rolecluster.
    RoleRaces: concurrent callers of the role manager as a step relation.
  \<^item> AuditLog, Postmortem: internal/audit and internal/postmortem with its template.
  \<^item> Similarity, Runbooks: internal/runbooks (similarity.go, runbooks.go). RunbookFormat: a writer of the
    documented format, which the parser inverts.
  \<^item> McpTools: internal/mcptools, one definition per tool and per stage of troubleshoot and approve_action.
  \<^item> TlsUtil, HubServer, ClusterAgent: internal/tlsutil and the two mains: how the processes are put together
    from their flags, and the tools of one MCP session. SmokeTest: cmd/smoketest, a client for calls by hand.
  \<^item> AuditTrail: the interface of a store as the locale \<open>audit_trail\<close>, which FileStore over a log file
    (\<open>json_log\<close>) is a sublocale of, and the tools as its client. A write may be cut short (\<open>partial_writes\<close>).
  \<^item> HubProps, HubAccess, LadderDrift, Isolation, EndToEnd, RolePath: the properties that span the components.
    EndToEnd puts the hub's tools, the stream and the agent's handler and playbooks together, RolePath the tools,
    the role manager and the handler on the role's client, each client tied to the cluster it was built for. Confidential follows the texts an agent redacts through
    its stream and into the audit file.

  What is shown. Authorisation: the decision table (Policy), and that troubleshoot and approve_action change a
  cluster only when it authorises them (HubProps; EndToEnd and RolePath for the two whole paths from a tool to a cluster), with
  the one gap proved in LadderDrift: the ladder that is executed is diagnosed anew and may hold more than what
  was authorised. Execution: the engine spares high-risk
  actions, records what it ran, redacts the outputs, and restores the replica count the scale action changed. Redaction: no part of a
  redacted text matches any of the six patterns, redacting again changes nothing (CleanText), and so nothing does in the
  summaries, proposals, metadata, outputs, errors, details and logs an agent sends over its stream, nor in what
  of these reaches the audit file (Confidential). Agents: requests that
  should only read do, each is answered, a scan reports what is unhealthy, proposals are well formed. Isolation:
  a cluster out of scope is refused before anything is asked, an unknown token reaches no cluster, and a scoped
  caller acts only through the roles of its accounts; concurrent callers of a cluster share one client, built for it. Trail: what answered is recorded, a failed execution is
  not, the file behind the store implements an append-only list, no tool ever changes a byte of what is recorded,
  even when its own write is cut short, and a torn write makes the trail unreadable. Transport: on a stream a request is run at most once, a reply reaches its
  waiter and only it, a waiting request stays answerable, and over an idle stream the hub gets what the agent's
  handler answers; sessions keep the maps in step unless they overlap; waits between reconnections are bounded.
  Replicas: while sessions do not overlap and the registry's calls get through, any replica reaches any cluster; a stale
  record makes a request fail fast; the loss of moved and of reconnecting agents is proved beside it; and in any
  fleet a stale record is gone within one TTL. Redis keeps the directory's documented contract over a server that
  keeps its own, for callers that only refresh their own records; that both implementations overwrite another's
  is \<open>heartbeat_overwrites\<close>.
  Runbooks: the parser inverts the documented format, and a runbook found by similarity is a closest one.
  Liveness of a call is proved as such: \<open>returns m\<close> says that \<open>m\<close> ends with a value from every state.

  Bounds and fuel. A poll loop of a playbook ends by its deadline on the cluster's clock; the model gives it
  \<open>k_max_polls\<close> rounds, more being the outcome of never returning, and \<open>playbook_clock\<close> asks for 92 rounds: a
  poll waits a second (two for KEDA's) and the longest deadline is 90 seconds, so the fuel is never used up
  (\<open>poll_loop_returns\<close>). The audit file is read with the buffer of 8 MiB a line may have (\<open>scan_limit\<close>). The sum
  of restart counts is 32-bit and wraps. The memory factor of the OOM playbook is a fraction; its product with the
  limit is rounded to the nearest float64, ties to even, and truncated to int64 as the code does (\<open>scale_value\<close>), which
  is exact below 2^51 bytes for the 1.5 in use (\<open>scale_value_exact\<close>). The similarity of runbooks reads float64 as
  reals, so its theorem holds up to rounding. A map Go walks in random order is read in a fixed one
  where the order cannot be seen.

  Concurrency. What a mutex protects is one step; the properties of connections and sessions hold for any
  interleaving of such steps, and a handler's two looks at a shared map are made in the state of their moment
  (RoleRaces interleaves the callers of one). In the steps of sessions the registry's call is made with the change
  of the map, which the code makes before it under the mutex; calls that fail are in FleetFaults.
  The agent's handler is one step of the stream's relation, on whatever state the cluster is in then; request ids
  are fresh, as 8 random bytes are taken to be. The end-to-end properties follow one call over an idle stream; the one on
  the audit file lets other requests append to it meanwhile.

  Not modelled: the generated protobuf encoding (internal/transport/gen, beyond its messages and getters), the
  gRPC and HTTP servers, listeners and dialling, signal handling and logs, the descriptions of the MCP tools
  and the server's instructions to the client, parsing of command-line flags (\<open>flags\<close>, \<open>agent_flags\<close> and
  \<open>smoke_flags\<close> are their values), and docs and deployment files.
\<close>

end
